(* ===== verification/Prelude.thy ===== *)
theory Prelude
  imports Main "HOL-Library.Word"
begin

text \<open>
  Shared vocabulary of the development: the machine integers of the C++ sources, the result of a
  checked array access (an access out of range has no value), copying into a fixed array, C
  strings, decimal printing, and the bit view of bytes that the CIDR and trie components share.
  The named collections gather the rewrite rules that several components use.
\<close>

unbundle bit_operations_syntax

section \<open>Machine integers\<close>

type_synonym u8 = "8 word"
type_synonym u16 = "16 word"
type_synonym u32 = "32 word"
type_synonym u64 = "64 word"

section \<open>Collections of rules\<close>

named_theorems array_simps \<open>reads and writes of fixed arrays\<close>
named_theorems bits_simps \<open>bit views of bytes and addresses\<close>
named_theorems string_simps \<open>C strings and decimal text\<close>

section \<open>Definitions\<close>

subsection \<open>Arrays\<close>

text \<open>
  \<open>arr_get\<close> is the read \<^verbatim>\<open>a[i]\<close> of a fixed array or a span: an index out of range is undefined
  behaviour in C++, here the absence of a value. \<open>mem_write\<close> is \<^verbatim>\<open>memcpy(dst + off, src, n)\<close> into
  an array of fixed size; a copy that would leave the array has no value either. \<open>sub_bytes\<close> is the
  source side of a \<^verbatim>\<open>memcpy(dst, src + off, n)\<close>.
\<close>

definition arr_get :: "'a list \<Rightarrow> nat \<Rightarrow> 'a option" where
  "arr_get xs i = (if i < length xs then Some (xs ! i) else None)"

definition mem_write :: "nat \<Rightarrow> 'a list \<Rightarrow> 'a list \<Rightarrow> 'a list option" where
  "mem_write off src dst =
     (if off + length src \<le> length dst
      then Some (take off dst @ src @ drop (off + length src) dst) else None)"

definition sub_bytes :: "'a list \<Rightarrow> nat \<Rightarrow> nat \<Rightarrow> 'a list option" where
  "sub_bytes p off n = (if off + n \<le> length p then Some (take n (drop off p)) else None)"

subsection \<open>Bits of a byte, most significant first\<close>

definition byte_bits :: "u8 \<Rightarrow> bool list" where
  "byte_bits b = map (\<lambda>i. bit b (7 - i)) [0..<8]"

definition bytes_bits :: "u8 list \<Rightarrow> bool list" where
  "bytes_bits bs = concat (map byte_bits bs)"

subsection \<open>Strings\<close>

text \<open>\<open>c_str\<close> is what a C function sees of a buffer: the characters before the first NUL.\<close>

definition c_str :: "string \<Rightarrow> string" where
  "c_str s = takeWhile (\<lambda>c. c \<noteq> CHR 0x00) s"

fun find_char :: "char \<Rightarrow> string \<Rightarrow> nat option" where
  "find_char c [] = None"
| "find_char c (x # xs) = (if x = c then Some 0 else map_option Suc (find_char c xs))"

definition char_code :: "char \<Rightarrow> nat" where
  "char_code c = of_char c"

definition is_digit :: "char \<Rightarrow> bool" where
  "is_digit c \<longleftrightarrow> 48 \<le> char_code c \<and> char_code c \<le> 57"

definition digit_char :: "nat \<Rightarrow> char" where
  "digit_char d = char_of (48 + d)"

fun dec_string :: "nat \<Rightarrow> string" where
  "dec_string n = (if n < 10 then [digit_char n] else dec_string (n div 10) @ [digit_char (n mod 10)])"

declare dec_string.simps [simp del]

section \<open>Lemmas\<close>

lemma unat_u8_less [simp]: "unat (b :: u8) < 256"
  using unsigned_less [of b] by simp

lemma unat_u8_div16 [simp]: "unat (b :: u8) div 16 < 16"
  using unat_u8_less [of b] by (simp add: less_mult_imp_div_less del: unat_u8_less)

lemma unat_ucast: "unat (ucast (w :: 'a::len word) :: 'b::len word) = unat w mod 2 ^ LENGTH('b)"
  by (simp add: unsigned_ucast_eq take_bit_eq_mod)

lemma ucast_of_nat_small:
  assumes "n < 2 ^ LENGTH('a)"
  shows "ucast (of_nat n :: 'a::len word) = (of_nat n :: 'b::len word)"
proof -
  have "unat (ucast (of_nat n :: 'a word) :: 'b word) = unat (of_nat n :: 'b word)"
    using assms by (simp add: unat_ucast unat_of_nat)
  then show ?thesis by (simp add: word_unat_eq_iff)
qed

lemma unat_of_nat_small: "n < 2 ^ LENGTH('a) \<Longrightarrow> unat (of_nat n :: 'a::len word) = n"
  by (simp add: unat_of_nat)

lemma arr_get_Some_iff [array_simps]: "arr_get xs i = Some x \<longleftrightarrow> i < length xs \<and> xs ! i = x"
  by (auto simp: arr_get_def)

lemma arr_get_in [array_simps]: "i < length xs \<Longrightarrow> arr_get xs i = Some (xs ! i)"
  by (simp add: arr_get_def)

lemma arr_get_None_iff [array_simps]: "arr_get xs i = None \<longleftrightarrow> length xs \<le> i"
  by (auto simp: arr_get_def)

lemma mem_write_length: "mem_write off src dst = Some d \<Longrightarrow> length d = length dst"
  by (auto simp: mem_write_def split: if_splits)

lemma mem_write_Some [array_simps]:
  "off + length src \<le> length dst \<Longrightarrow>
   mem_write off src dst = Some (take off dst @ src @ drop (off + length src) dst)"
  by (simp add: mem_write_def)

lemma length_byte_bits [simp]: "length (byte_bits b) = 8"
  by (simp add: byte_bits_def)

lemma nth_byte_bits [bits_simps]: "i < 8 \<Longrightarrow> byte_bits b ! i = bit b (7 - i)"
  by (simp add: byte_bits_def)

lemma bytes_bits_Nil [simp]: "bytes_bits [] = []"
  by (simp add: bytes_bits_def)

lemma bytes_bits_Cons [simp]: "bytes_bits (b # bs) = byte_bits b @ bytes_bits bs"
  by (simp add: bytes_bits_def)

lemma length_bytes_bits [simp]: "length (bytes_bits bs) = 8 * length bs"
  by (induction bs) auto

lemma nth_bytes_bits [bits_simps]:
  "i < 8 * length bs \<Longrightarrow> bytes_bits bs ! i = bit (bs ! (i div 8)) (7 - i mod 8)"
proof (induction bs arbitrary: i)
  case Nil
  then show ?case by simp
next
  case (Cons b bs)
  show ?case
  proof (cases "i < 8")
    case True
    then show ?thesis by (simp add: nth_append nth_byte_bits)
  next
    case False
    then obtain j where j: "i = j + 8" by (metis add.commute le_add_diff_inverse not_less)
    with Cons.prems have "j < 8 * length bs" by simp
    moreover have "(j + 8) div 8 = Suc (j div 8)" by simp
    ultimately show ?thesis using Cons.IH [of j] by (simp add: j nth_append)
  qed
qed

lemma byte_bits_inj: "byte_bits a = byte_bits b \<Longrightarrow> a = b"
proof -
  assume eq: "byte_bits a = byte_bits b"
  show "a = b"
  proof (rule bit_word_eqI)
    fix n :: nat
    assume n: "n < LENGTH(8)"
    then have "byte_bits a ! (7 - n) = byte_bits b ! (7 - n)" using eq by simp
    with n show "bit a n = bit b n" by (simp add: nth_byte_bits)
  qed
qed

lemma take_mult8_bytes_bits: "take (8 * k) (bytes_bits bs) = bytes_bits (take k bs)"
proof (induction bs arbitrary: k)
  case Nil
  then show ?case by simp
next
  case (Cons b bs)
  then show ?case by (cases k) auto
qed

lemma drop_mult8_bytes_bits: "drop (8 * k) (bytes_bits bs) = bytes_bits (drop k bs)"
proof (induction bs arbitrary: k)
  case Nil
  then show ?case by simp
next
  case (Cons b bs)
  then show ?case by (cases k) auto
qed

lemma bytes_bits_inj: "length xs = length ys \<Longrightarrow> bytes_bits xs = bytes_bits ys \<longleftrightarrow> xs = ys"
  by (induction xs ys rule: list_induct2) (auto dest: byte_bits_inj)

text \<open>The mask of a partial byte keeps exactly the leading bits.\<close>

lemma and_high_mask_eq_iff:
  fixes x y m :: u8
  assumes m: "\<And>n. n < 8 \<Longrightarrow> bit m n \<longleftrightarrow> 8 - k \<le> n" and k: "k \<le> 8"
  shows "x AND m = y AND m \<longleftrightarrow> take k (byte_bits x) = take k (byte_bits y)"
proof
  assume eq: "x AND m = y AND m"
  show "take k (byte_bits x) = take k (byte_bits y)"
  proof (rule nth_equalityI)
    fix i assume "i < length (take k (byte_bits x))"
    then have i: "i < k" "i < 8" using k by auto
    then have "bit m (7 - i)" using m [of "7 - i"] by auto
    moreover have "bit (x AND m) (7 - i) = bit (y AND m) (7 - i)" by (simp add: eq)
    ultimately show "take k (byte_bits x) ! i = take k (byte_bits y) ! i"
      using i by (simp add: bit_and_iff nth_byte_bits)
  qed simp
next
  assume eq: "take k (byte_bits x) = take k (byte_bits y)"
  show "x AND m = y AND m"
  proof (rule bit_word_eqI)
    fix n assume "n < LENGTH(8)"
    then have n: "n < 8" by simp
    show "bit (x AND m) n = bit (y AND m) n"
    proof (cases "8 - k \<le> n")
      case True
      then have "7 - n < k" using n by arith
      with eq have "byte_bits x ! (7 - n) = byte_bits y ! (7 - n)"
        by (metis nth_take)
      then show ?thesis using n by (simp add: bit_and_iff nth_byte_bits)
    next
      case False
      then show ?thesis using m [OF n] by (simp add: bit_and_iff)
    qed
  qed
qed

text \<open>Splitting a 16-bit value into its two bytes loses nothing, in either direction.\<close>

lemma bit_u16_FF: "bit (0xFF :: u16) k \<longleftrightarrow> k < 8"
proof -
  have "(0xFF :: u16) = mask 8" by (simp add: mask_eq_exp_minus_1)
  then have "bit (0xFF :: u16) k \<longleftrightarrow> bit (mask 8 :: u16) k" by simp
  then show ?thesis by (auto simp: bit_mask_iff simp del: bit_numeral_simps)
qed

lemma u16_join:
  fixes w :: u16
  shows "push_bit 8 (ucast (ucast (drop_bit 8 w) :: u8)) OR ucast (ucast (w AND 0xFF) :: u8) = w"
proof (rule bit_word_eqI)
  fix n assume "n < LENGTH(16)"
  then show "bit (push_bit 8 (ucast (ucast (drop_bit 8 w) :: u8)) OR ucast (ucast (w AND 0xFF) :: u8) :: u16) n = bit w n"
    by (auto simp only: bit_or_iff bit_push_bit_iff bit_ucast_iff bit_drop_bit_eq bit_and_iff bit_u16_FF) auto
qed

lemma u16_split:
  fixes hi lo :: u8
  shows u16_split_hi: "ucast (drop_bit 8 (push_bit 8 (ucast hi) OR ucast lo :: u16)) = hi"
    and u16_split_lo: "ucast ((push_bit 8 (ucast hi) OR ucast lo :: u16) AND 0xFF) = lo"
proof -
  show "ucast (drop_bit 8 (push_bit 8 (ucast hi) OR ucast lo :: u16)) = hi"
    by (rule bit_word_eqI) (auto simp: bit_simps dest: bit_imp_le_length)
  show "ucast ((push_bit 8 (ucast hi) OR ucast lo :: u16) AND 0xFF) = lo"
    by (rule bit_word_eqI)
      (auto simp only: bit_or_iff bit_push_bit_iff bit_ucast_iff bit_and_iff bit_u16_FF, auto)
qed

lemma c_str_id [string_simps]: "CHR 0x00 \<notin> set s \<Longrightarrow> c_str s = s"
  unfolding c_str_def by (subst takeWhile_eq_all_conv) blast

lemma find_char_append [string_simps]: "c \<notin> set xs \<Longrightarrow> find_char c (xs @ c # ys) = Some (length xs)"
  by (induction xs) auto

lemma find_char_None [string_simps]: "find_char c xs = None \<longleftrightarrow> c \<notin> set xs"
  by (induction xs) auto

lemma find_char_SomeD:
  "find_char c xs = Some i \<Longrightarrow> i < length xs \<and> xs ! i = c \<and> c \<notin> set (take i xs)"
  by (induction xs arbitrary: i) (auto split: if_splits)

lemma char_code_digit [string_simps]: "d < 10 \<Longrightarrow> char_code (digit_char d) = 48 + d"
  by (simp add: char_code_def digit_char_def)

lemma is_digit_digit_char [string_simps]: "d < 10 \<Longrightarrow> is_digit (digit_char d)"
  by (simp add: is_digit_def char_code_digit)

lemma dec_string_digits: "c \<in> set (dec_string n) \<Longrightarrow> is_digit c"
proof (induction n rule: dec_string.induct)
  case (1 n)
  then show ?case
    by (subst (asm) (2) dec_string.simps) (auto split: if_splits simp: is_digit_digit_char)
qed

lemma dec_string_nonempty [simp]: "dec_string n \<noteq> []"
  by (subst dec_string.simps) simp

lemma dec_string_length: "n < 10 ^ k \<Longrightarrow> 0 < k \<Longrightarrow> length (dec_string n) \<le> k"
proof (induction k arbitrary: n)
  case 0
  then show ?case by simp
next
  case (Suc k)
  show ?case
  proof (cases "n < 10")
    case True
    then show ?thesis by (subst dec_string.simps) simp
  next
    case False
    then have "k \<noteq> 0" using Suc.prems by (cases k) auto
    moreover have "n div 10 < 10 ^ k" using Suc.prems by (simp add: less_mult_imp_div_less)
    ultimately have "length (dec_string (n div 10)) \<le> k" using Suc.IH by simp
    with False show ?thesis by (subst dec_string.simps) simp
  qed
qed

end
