(* ===== verification/Send_Ledger.thy ===== *)
theory Send_Ledger
  imports Prelude
begin

text \<open>
  Ownership of the send contexts that \<^verbatim>\<open>src/tunnel/quic_client.cpp\<close> hands to msquic: a context is allocated,
  released across the C boundary, and reclaimed by deleting it, either at once when the call fails or in the
  completion callback. The ledger records two things on their own: the live contexts with their contents and whether one was ever
  deleted twice, which the code changes (\<open>ctx_release\<close>, \<open>ctx_reclaim\<close>), and the contexts msquic holds, which its
  answers and events change (\<open>ctx_lend\<close> when it accepts a send, \<open>ctx_return\<close> when it reports one as done). That the two
  agree is what has to be shown: a live context that msquic does not hold is leaked, one it holds that is not live is freed under it.
\<close>

section \<open>Definitions\<close>

record 'a ledger =
  next_ctx :: nat
  live_ctx :: "nat \<Rightarrow> 'a option"
  loaned :: "nat set"
  double_free :: bool

definition ledger_init :: "'a ledger" where
  "ledger_init = \<lparr>next_ctx = 0, live_ctx = (\<lambda>_. None), loaned = {}, double_free = False\<rparr>"

text \<open>\<^verbatim>\<open>make_unique\<close> followed by \<^verbatim>\<open>release\<close>: the context is live and has left the owner.\<close>

definition ctx_release :: "'a \<Rightarrow> 'a ledger \<Rightarrow> nat \<times> 'a ledger" where
  "ctx_release x l = (next_ctx l, l\<lparr>next_ctx := Suc (next_ctx l), live_ctx := (live_ctx l)(next_ctx l \<mapsto> x)\<rparr>)"

text \<open>Taking a raw pointer into a \<^verbatim>\<open>unique_ptr\<close> that goes out of scope.\<close>

definition ctx_reclaim :: "nat \<Rightarrow> 'a ledger \<Rightarrow> 'a ledger" where
  "ctx_reclaim i l =
     (if live_ctx l i = None then l\<lparr>double_free := True\<rparr> else l\<lparr>live_ctx := (live_ctx l)(i := None)\<rparr>)"

text \<open>msquic's side: a send call that succeeds takes the context, the event that completes the send gives it back.\<close>

definition ctx_lend :: "nat \<Rightarrow> 'a ledger \<Rightarrow> 'a ledger" where
  "ctx_lend i l = l\<lparr>loaned := insert i (loaned l)\<rparr>"

definition ctx_return :: "nat \<Rightarrow> 'a ledger \<Rightarrow> 'a ledger" where
  "ctx_return i l = l\<lparr>loaned := loaned l - {i}\<rparr>"

definition ledger_ok :: "'a ledger \<Rightarrow> bool" where
  "ledger_ok l \<longleftrightarrow> \<not> double_free l \<and> dom (live_ctx l) = loaned l \<and> loaned l \<subseteq> {..<next_ctx l}"

section \<open>Lemmas\<close>

lemma ledger_init_ok: "ledger_ok ledger_init"
  by (simp add: ledger_ok_def ledger_init_def)

lemma ctx_release_fields:
  "loaned (snd (ctx_release x l)) = loaned l" "fst (ctx_release x l) = next_ctx l"
  "live_ctx (snd (ctx_release x l)) = (live_ctx l)(next_ctx l \<mapsto> x)"
  by (simp_all add: ctx_release_def)

lemma next_ctx_fresh: "ledger_ok l \<Longrightarrow> next_ctx l \<notin> loaned l"
  by (auto simp: ledger_ok_def)

text \<open>A context that is lent once released; one that is reclaimed again because the call failed; one that comes back.\<close>

lemma ctx_release_lend:
  "ledger_ok l \<Longrightarrow> ledger_ok (ctx_lend (next_ctx l) (snd (ctx_release x l)))"
  by (auto simp: ledger_ok_def ctx_release_def ctx_lend_def)

lemma ctx_release_reclaim:
  "ledger_ok l \<Longrightarrow> ledger_ok (ctx_reclaim (next_ctx l) (snd (ctx_release x l)))"
  using next_ctx_fresh [of l] by (auto simp: ledger_ok_def ctx_release_def ctx_reclaim_def)

lemma ctx_return_reclaim: "ledger_ok l \<Longrightarrow> i \<in> loaned l \<Longrightarrow> ledger_ok (ctx_reclaim i (ctx_return i l))"
  by (auto simp: ledger_ok_def ctx_return_def ctx_reclaim_def)

lemma ctx_loaned [simp]:
  "loaned (ctx_reclaim i l) = loaned l" "loaned (ctx_return i l) = loaned l - {i}" "loaned (ctx_lend i l) = insert i (loaned l)"
  "live_ctx (ctx_lend i l) = live_ctx l"
  by (simp_all add: ctx_reclaim_def ctx_return_def ctx_lend_def)

lemma ctx_reclaim_twice: "double_free (ctx_reclaim i (ctx_reclaim i l))"
  by (simp add: ctx_reclaim_def)

end
