(* ===== verification/Async_Stream.thy ===== *)
theory Async_Stream
  imports Send_Ledger
begin

text \<open>
  \<^verbatim>\<open>MsquicAsyncStream\<close> of \<^verbatim>\<open>src/tunnel/quic_client.cpp\<close>, which presents a QUIC stream as a byte stream to the
  RPC library.

  \<^item> The shared state (\<open>recv_queue\<close>, \<open>eof\<close>, \<open>read_wakeup\<close>) changes only under the mutex, so every critical section
    is one function: \<open>drain_locked\<close>, \<open>read_check\<close>, \<open>read_park\<close>, and the event branches \<open>on_receive\<close> and
    \<open>on_stream_end\<close>. \<open>stream_step\<close> interleaves the reader, between its two critical sections, with the events.
  \<^item> The state also records the history, the bytes received and the bytes handed to the reader, which the
    code does not keep; no branch depends on it.
  \<^item> \<open>stream_write\<close> and \<open>on_send_complete\<close> move send contexts over \<open>Send_Ledger\<close>.
\<close>

section \<open>Definitions\<close>

record chunk =
  ch_data :: "u8 list"
  ch_off :: nat

text \<open>
  \<open>drain_locked\<close> returns the bytes copied to the destination and the queue that is left. An offset past the
  end of its chunk, where the subtraction would wrap, stops the model; \<open>stream_inv\<close> excludes it.
\<close>

function drain_locked :: "nat \<Rightarrow> u8 list \<Rightarrow> chunk list \<Rightarrow> u8 list \<times> chunk list" where
  "drain_locked mx out q =
     (if \<not> (length out < mx \<and> q \<noteq> []) then (out, q)
      else let front = hd q;
               avail = length (ch_data front) - ch_off front;
               n = min avail (mx - length out);
               out' = out @ take n (drop (ch_off front) (ch_data front));
               off' = ch_off front + n
        in if off' = length (ch_data front) then drain_locked mx out' (tl q)
           else if off' > length (ch_data front) then (out', q)
           else drain_locked mx out' (front\<lparr>ch_off := off'\<rparr> # tl q))"
  by pat_completeness auto
termination
proof (relation "measures [\<lambda>(mx, out, q). length q, \<lambda>(mx, out, q). mx - length out]")
  fix mx and out :: "u8 list" and q :: "chunk list" and front :: chunk and avail n out' off'
  assume a: "\<not> \<not> (length out < mx \<and> q \<noteq> [])" "avail = length (ch_data front) - ch_off front"
    "n = min avail (mx - length out)" "out' = out @ take n (drop (ch_off front) (ch_data front))"
    "off' = ch_off front + n" "off' \<noteq> length (ch_data front)" "\<not> length (ch_data front) < off'"
  then have "0 < n \<and> n \<le> avail" by (auto simp: min_def)
  then have "length out < length out'" using a by simp
  moreover have m: "length out < mx" "q \<noteq> []" using a(1) by auto
  ultimately have "mx - length out' < mx - length out" by linarith
  then show "((mx, out', front\<lparr>ch_off := off'\<rparr> # tl q), mx, out, q)
     \<in> measures [\<lambda>(mx, out, q). length q, \<lambda>(mx, out, q). mx - length out]"
    using m(2) by (cases q) simp_all
qed auto

declare drain_locked.simps [simp del]

subsection \<open>The reader\<close>

text \<open>
  The reader is idle, before the first check of \<^verbatim>\<open>tryRead\<close>, before the second one (with the fulfiller made),
  or waiting for the promise; the flag says whether the promise has been fulfilled.
\<close>

datatype reader = Resting | Checking nat nat | Parking nat nat | Waiting nat nat bool

record stream =
  recv_queue :: "chunk list"
  eof :: bool
  read_wakeup :: bool
  reader :: reader
  received :: "u8 list"
  given :: "u8 list"
  reads_done :: "(nat \<times> nat \<times> nat) list"

definition stream_init :: stream where
  "stream_init = \<lparr>recv_queue = [], eof = False, read_wakeup = False, reader = Resting, received = [], given = [],
     reads_done = []\<rparr>"

text \<open>Both critical sections of \<^verbatim>\<open>tryRead\<close> return when there is data or the end was seen.\<close>

definition read_return :: "nat \<Rightarrow> nat \<Rightarrow> stream \<Rightarrow> stream" where
  "read_return mn mx s =
     (let (out, q) = drain_locked mx [] (recv_queue s) in
      s\<lparr>recv_queue := q, reader := Resting, given := given s @ out, reads_done := reads_done s @ [(mn, mx, length out)]\<rparr>)"

definition read_check :: "nat \<Rightarrow> nat \<Rightarrow> stream \<Rightarrow> stream" where
  "read_check mn mx s =
     (if recv_queue s \<noteq> [] \<or> eof s then read_return mn mx s else s\<lparr>reader := Parking mn mx\<rparr>)"

definition read_park :: "nat \<Rightarrow> nat \<Rightarrow> stream \<Rightarrow> stream" where
  "read_park mn mx s =
     (if recv_queue s \<noteq> [] \<or> eof s then read_return mn mx s
      else s\<lparr>read_wakeup := True, reader := Waiting mn mx False\<rparr>)"

subsection \<open>Events\<close>

text \<open>The wakeup is moved out under the lock and, if there was one, fulfilled.\<close>

definition take_wakeup :: "stream \<Rightarrow> stream" where
  "take_wakeup s =
     s\<lparr>read_wakeup := False,
       reader := (case reader s of Waiting mn mx b \<Rightarrow> Waiting mn mx (b \<or> read_wakeup s) | r \<Rightarrow> r)\<rparr>"

definition on_receive :: "u8 list list \<Rightarrow> bool \<Rightarrow> stream \<Rightarrow> stream" where
  "on_receive bufs fin s =
     take_wakeup (s\<lparr>recv_queue := recv_queue s @ map (\<lambda>b. \<lparr>ch_data = b, ch_off = 0\<rparr>) (filter (\<lambda>b. 0 < length b) bufs),
       eof := (if fin then True else eof s), received := received s @ concat bufs\<rparr>)"

definition on_stream_end :: "stream \<Rightarrow> stream" where
  "on_stream_end s = take_wakeup (s\<lparr>eof := True\<rparr>)"

inductive stream_step :: "stream \<Rightarrow> stream \<Rightarrow> bool" where
  call: "reader s = Resting \<Longrightarrow> stream_step s (s\<lparr>reader := Checking mn mx\<rparr>)"
| check: "reader s = Checking mn mx \<Longrightarrow> stream_step s (read_check mn mx s)"
| park: "reader s = Parking mn mx \<Longrightarrow> stream_step s (read_park mn mx s)"
| resume: "reader s = Waiting mn mx True \<Longrightarrow> stream_step s (s\<lparr>reader := Checking mn mx\<rparr>)"
| receive: "stream_step s (on_receive bufs fin s)"
| ended: "stream_step s (on_stream_end s)"

inductive stream_reachable :: "stream \<Rightarrow> bool" where
  stream_start: "stream_reachable stream_init"
| stream_next: "stream_reachable s \<Longrightarrow> stream_step s t \<Longrightarrow> stream_reachable t"

subsection \<open>Writes\<close>

text \<open>
  \<open>accepted\<close> is whether \<^verbatim>\<open>StreamSend\<close> succeeded; a failed call throws, after the context is reclaimed. The result
  is the context with the promise of the write, if one was returned.
\<close>

definition stream_write :: "bool \<Rightarrow> u8 list \<Rightarrow> u8 list ledger \<Rightarrow> nat option \<times> u8 list ledger" where
  "stream_write accepted bytes l =
     (let (raw, l) = ctx_release bytes l in
      if \<not> accepted then (None, ctx_reclaim raw l) else (Some raw, ctx_lend raw l))"

definition stream_write_pieces :: "bool \<Rightarrow> u8 list list \<Rightarrow> u8 list ledger \<Rightarrow> nat option \<times> u8 list ledger" where
  "stream_write_pieces accepted pieces l = stream_write accepted (concat pieces) l"

definition on_send_complete :: "nat option \<Rightarrow> u8 list ledger \<Rightarrow> u8 list ledger" where
  "on_send_complete ctx l = (case ctx of None \<Rightarrow> l | Some i \<Rightarrow> ctx_reclaim i l)"

subsection \<open>Shutting down\<close>

text \<open>
  The three calls of \<^verbatim>\<open>StreamShutdown\<close>: the list of calls made, each with its flags and error code (msquic's
  \<open>QUIC_STREAM_SHUTDOWN_FLAG_ABORT\<close> is both directions). \<open>aborted\<close> is \<^verbatim>\<open>QUIC_STATUS_ABORTED\<close>.
\<close>

datatype shutdown_flag = Graceful | AbortSend | AbortReceive | Immediate

type_synonym shutdown_call = "shutdown_flag set \<times> u64"

definition shutdown_write :: "shutdown_call list \<Rightarrow> shutdown_call list" where
  "shutdown_write calls = calls @ [({Graceful}, 0)]"

definition abort_read :: "u64 \<Rightarrow> shutdown_call list \<Rightarrow> shutdown_call list" where
  "abort_read aborted calls = calls @ [({AbortReceive}, aborted)]"

definition stream_abort :: "u64 \<Rightarrow> shutdown_call list \<Rightarrow> shutdown_call list" where
  "stream_abort aborted calls = calls @ [({AbortSend, AbortReceive, Immediate}, aborted)]"

text \<open>msquic's rule for the flags: a graceful shutdown stands alone, an immediate one aborts both directions.\<close>

definition flags_legal :: "shutdown_flag set \<Rightarrow> bool" where
  "flags_legal fs \<longleftrightarrow> fs \<noteq> {} \<and> (Graceful \<in> fs \<longrightarrow> fs = {Graceful}) \<and> (Immediate \<in> fs \<longrightarrow> {AbortSend, AbortReceive} \<subseteq> fs)"

subsection \<open>Specification\<close>

definition chunk_rest :: "chunk \<Rightarrow> u8 list" where
  "chunk_rest c = drop (ch_off c) (ch_data c)"

definition queue_bytes :: "chunk list \<Rightarrow> u8 list" where
  "queue_bytes q = concat (map chunk_rest q)"

definition queue_ok :: "chunk list \<Rightarrow> bool" where
  "queue_ok q \<longleftrightarrow> (\<forall>c \<in> set q. ch_off c < length (ch_data c))"

definition stream_inv :: "stream \<Rightarrow> bool" where
  "stream_inv s \<longleftrightarrow> queue_ok (recv_queue s) \<and> received s = given s @ queue_bytes (recv_queue s) \<and>
     (read_wakeup s \<longrightarrow> (\<exists>mn mx. reader s = Waiting mn mx False)) \<and>
     (\<forall>mn mx. reader s = Waiting mn mx False \<longrightarrow> read_wakeup s \<and> recv_queue s = [] \<and> \<not> eof s)"

section \<open>Lemmas\<close>

inductive_cases stream_stepE: "stream_step s t"

lemma queue_bytes_Cons [simp]: "queue_bytes (c # q) = chunk_rest c @ queue_bytes q" "queue_bytes [] = []"
  by (simp_all add: queue_bytes_def)

lemma queue_bytes_append: "queue_bytes (p @ q) = queue_bytes p @ queue_bytes q"
  by (simp add: queue_bytes_def)

lemma queue_ok_simps [simp]: "queue_ok []" "queue_ok (c # q) \<longleftrightarrow> ch_off c < length (ch_data c) \<and> queue_ok q"
  "queue_ok (p @ q) \<longleftrightarrow> queue_ok p \<and> queue_ok q"
  by (auto simp: queue_ok_def)

lemma drain_step_pop:
  assumes "length out < mx" "ch_off c < length (ch_data c)" "length (chunk_rest c) \<le> mx - length out"
  shows "drain_locked mx out (c # r) = drain_locked mx (out @ chunk_rest c) r"
  using assms by (subst drain_locked.simps) (simp add: Let_def chunk_rest_def min_def)

lemma drain_step_cut:
  assumes "length out < mx" "mx - length out < length (chunk_rest c)"
  shows "drain_locked mx out (c # r) =
    (out @ take (mx - length out) (chunk_rest c), c\<lparr>ch_off := ch_off c + (mx - length out)\<rparr> # r)"
proof -
  have n: "min (length (ch_data c) - ch_off c) (mx - length out) = mx - length out"
    using assms by (simp add: chunk_rest_def)
  have "\<not> length (ch_data c) \<le> ch_off c + (mx - length out)" using assms by (simp add: chunk_rest_def)
  then have "drain_locked mx out (c # r) =
     drain_locked mx (out @ take (mx - length out) (chunk_rest c)) (c\<lparr>ch_off := ch_off c + (mx - length out)\<rparr> # r)"
    using assms(1) by (subst drain_locked.simps) (simp add: Let_def n chunk_rest_def)
  also have "\<dots> = (out @ take (mx - length out) (chunk_rest c), c\<lparr>ch_off := ch_off c + (mx - length out)\<rparr> # r)"
    using assms by (subst drain_locked.simps) simp
  finally show ?thesis .
qed

lemma drain_locked_correct:
  assumes "queue_ok q" "length out \<le> mx"
  shows "\<exists>q'. drain_locked mx out q = (out @ take (mx - length out) (queue_bytes q), q') \<and>
     queue_ok q' \<and> queue_bytes q' = drop (mx - length out) (queue_bytes q)"
  using assms
proof (induction q arbitrary: out)
  case Nil
  then show ?case by (subst drain_locked.simps) simp
next
  case (Cons c r)
  show ?case
  proof (cases "length out < mx")
    case False
    then show ?thesis using Cons.prems by (subst drain_locked.simps) simp
  next
    case True
    have off: "ch_off c < length (ch_data c)" "queue_ok r" using Cons.prems by simp_all
    show ?thesis
    proof (cases "length (chunk_rest c) \<le> mx - length out")
      case fits: True
      have "length (out @ chunk_rest c) \<le> mx" using fits True by simp
      from Cons.IH [OF off(2) this] obtain q' where
        q': "drain_locked mx (out @ chunk_rest c) r =
           ((out @ chunk_rest c) @ take (mx - length (out @ chunk_rest c)) (queue_bytes r), q')"
        "queue_ok q'" "queue_bytes q' = drop (mx - length (out @ chunk_rest c)) (queue_bytes r)" by blast
      have "drain_locked mx out (c # r) = drain_locked mx (out @ chunk_rest c) r"
        using True off(1) fits by (rule drain_step_pop)
      then show ?thesis using q' fits by (intro exI [of _ q']) simp
    next
      case False
      then have cut: "mx - length out < length (chunk_rest c)" by simp
      then have "ch_off c + (mx - length out) < length (ch_data c)" by (simp add: chunk_rest_def)
      moreover have "chunk_rest (c\<lparr>ch_off := ch_off c + (mx - length out)\<rparr>) = drop (mx - length out) (chunk_rest c)"
        by (simp add: chunk_rest_def add.commute)
      ultimately show ?thesis unfolding drain_step_cut [OF True cut] using off cut by simp
    qed
  qed
qed

lemma read_return_inv:
  assumes "stream_inv s" "reader s = Checking mn mx \<or> reader s = Parking mn mx"
  shows "stream_inv (read_return mn mx s)"
proof -
  obtain q' where q': "drain_locked mx [] (recv_queue s) = (take mx (queue_bytes (recv_queue s)), q')"
    "queue_ok q'" "queue_bytes q' = drop mx (queue_bytes (recv_queue s))"
    using drain_locked_correct [of "recv_queue s" "[]" mx] assms(1) by (auto simp: stream_inv_def)
  then show ?thesis using assms by (auto simp: stream_inv_def read_return_def)
qed

lemma take_wakeup_inv:
  assumes "queue_ok (recv_queue s)" "received s = given s @ queue_bytes (recv_queue s)"
    "read_wakeup s \<longrightarrow> (\<exists>mn mx. reader s = Waiting mn mx False)"
    "\<forall>mn mx. reader s = Waiting mn mx False \<longrightarrow> read_wakeup s"
  shows "stream_inv (take_wakeup s)"
  using assms by (cases "reader s") (auto simp: stream_inv_def take_wakeup_def)

lemma on_receive_inv: "stream_inv s \<Longrightarrow> stream_inv (on_receive bufs fin s)"
proof -
  assume inv: "stream_inv s"
  have "queue_ok (map (\<lambda>b. \<lparr>ch_data = b, ch_off = 0\<rparr>) (filter (\<lambda>b. 0 < length b) bufs))"
    "queue_bytes (map (\<lambda>b. \<lparr>ch_data = b, ch_off = 0\<rparr>) (filter (\<lambda>b. 0 < length b) bufs)) = concat bufs"
    by (induction bufs) (auto simp: chunk_rest_def)
  then show ?thesis unfolding on_receive_def
    using inv by (intro take_wakeup_inv) (auto simp: stream_inv_def queue_bytes_append)
qed

lemma on_stream_end_inv: "stream_inv s \<Longrightarrow> stream_inv (on_stream_end s)"
  unfolding on_stream_end_def by (intro take_wakeup_inv) (auto simp: stream_inv_def)

lemma stream_step_inv: "stream_step s t \<Longrightarrow> stream_inv s \<Longrightarrow> stream_inv t"
proof (induction rule: stream_step.induct)
  case (check s mn mx)
  then show ?case using read_return_inv [of s mn mx] by (auto simp: read_check_def stream_inv_def)
next
  case (park s mn mx)
  then show ?case using read_return_inv [of s mn mx] by (auto simp: read_park_def stream_inv_def)
next
  case (receive s bufs fin)
  then show ?case by (rule on_receive_inv)
next
  case (ended s)
  then show ?case by (rule on_stream_end_inv)
qed (simp_all add: stream_inv_def)

lemma stream_reachable_inv: "stream_reachable s \<Longrightarrow> stream_inv s"
proof (induction rule: stream_reachable.induct)
  case stream_start
  show ?case by (simp add: stream_inv_def stream_init_def)
next
  case (stream_next s t)
  then show ?case by (blast intro: stream_step_inv)
qed

subsection \<open>Shutting down\<close>

lemma shutdown_calls_legal:
  assumes "\<forall>(fs, e) \<in> set calls. flags_legal fs"
  shows "\<forall>(fs, e) \<in> set (shutdown_write calls). flags_legal fs"
    and "\<forall>(fs, e) \<in> set (abort_read aborted calls). flags_legal fs"
    and "\<forall>(fs, e) \<in> set (stream_abort aborted calls). flags_legal fs"
  using assms by (auto simp: shutdown_write_def abort_read_def stream_abort_def flags_legal_def)

section \<open>Properties\<close>

text \<open>
  C22: in every interleaving of reads and events, the bytes handed to the reader are exactly the first bytes
  received, in order, and the rest are in the queue: nothing is lost, repeated or reordered.
\<close>

theorem stream_delivers_in_order:
  assumes "stream_reachable s"
  shows "received s = given s @ queue_bytes (recv_queue s) \<and> queue_ok (recv_queue s)"
  using stream_reachable_inv [OF assms] by (simp add: stream_inv_def)

lemma stream_delivers_in_order_witness:
  "received (on_receive [[1, 2], [], [3]] True stream_init) = [1, 2, 3] \<and>
   queue_bytes (recv_queue (on_receive [[1, 2], [], [3]] True stream_init)) = [1, 2, 3]"
proof -
  have "stream_reachable (on_receive [[1, 2], [], [3]] True stream_init)"
    by (rule stream_next [OF stream_start]) (rule receive)
  from stream_delivers_in_order [OF this] show ?thesis
    by (simp add: on_receive_def take_wakeup_def stream_init_def)
qed

text \<open>
  C23: a parked read is never forgotten: whenever the reader waits and has not been woken, its fulfiller is
  registered, no data is queued and the stream has not ended, so the next event that changes this wakes it.
\<close>

theorem stream_no_lost_wakeup:
  assumes "stream_reachable s" and "reader s = Waiting mn mx False"
  shows "read_wakeup s \<and> recv_queue s = [] \<and> \<not> eof s \<and>
     reader (on_receive bufs fin s) = Waiting mn mx True \<and> reader (on_stream_end s) = Waiting mn mx True"
  using stream_reachable_inv [OF assms(1)] assms(2)
  by (simp add: stream_inv_def on_receive_def on_stream_end_def take_wakeup_def)

lemma stream_no_lost_wakeup_witness:
  "reader (on_receive [[7]] False (read_park 1 8 (read_check 1 8 (stream_init\<lparr>reader := Checking 1 8\<rparr>)))) = Waiting 1 8 True"
proof -
  let ?s1 = "stream_init\<lparr>reader := Checking 1 8\<rparr>"
  have 1: "stream_reachable ?s1"
    by (rule stream_next [OF stream_start]) (rule call, simp add: stream_init_def)
  have 2: "stream_reachable (read_check 1 8 ?s1)" by (rule stream_next [OF 1]) (rule check, simp)
  have 3: "stream_reachable (read_park 1 8 (read_check 1 8 ?s1))"
    by (rule stream_next [OF 2]) (rule park, simp add: read_check_def stream_init_def)
  have "reader (read_park 1 8 (read_check 1 8 ?s1)) = Waiting 1 8 False"
    by (simp add: read_check_def read_park_def stream_init_def)
  from stream_no_lost_wakeup [OF 3 this] show ?thesis by blast
qed

text \<open>
  A read returns as soon as one byte is there, whatever minimum was asked for: there are reads that
  return fewer than the minimum although the stream has not ended.
\<close>

theorem stream_short_read:
  fixes b :: "u8 list"
  assumes "0 < length b" and "length b < mn" and "mn \<le> mx"
  shows "\<exists>s. stream_reachable s \<and> \<not> eof s \<and> reads_done s = [(mn, mx, length b)]"
proof -
  let ?s1 = "on_receive [b] False stream_init"
  let ?s2 = "?s1\<lparr>reader := Checking mn mx\<rparr>"
  have 1: "stream_reachable ?s1" by (rule stream_next [OF stream_start]) (rule receive)
  have 2: "stream_reachable ?s2"
    by (rule stream_next [OF 1]) (rule call, simp add: on_receive_def take_wakeup_def stream_init_def)
  have 3: "stream_reachable (read_check mn mx ?s2)" by (rule stream_next [OF 2]) (rule check, simp)
  have "recv_queue ?s2 = [\<lparr>ch_data = b, ch_off = 0\<rparr>]" "reads_done ?s2 = []" "\<not> eof ?s2"
    using assms by (simp_all add: on_receive_def take_wakeup_def stream_init_def)
  moreover obtain q' where "drain_locked mx [] [\<lparr>ch_data = b, ch_off = 0\<rparr>] = (take mx b, q')"
    using drain_locked_correct [of "[\<lparr>ch_data = b, ch_off = 0\<rparr>]" "[]" mx] assms by (auto simp: chunk_rest_def)
  ultimately have "reads_done (read_check mn mx ?s2) = [(mn, mx, length b)]" "\<not> eof (read_check mn mx ?s2)"
    using assms by (simp_all add: read_check_def read_return_def)
  with 3 show ?thesis by blast
qed

lemma stream_short_read_witness:
  "\<exists>s. stream_reachable s \<and> \<not> eof s \<and> reads_done s = [(8, 64, 1)]"
  using stream_short_read [of "[5]" 8 64] by simp

text \<open>
  A write leaves no context behind when \<^verbatim>\<open>StreamSend\<close> fails, and otherwise lends exactly one new context that
  holds the flattened bytes until its completion event deletes it, once.
\<close>

theorem stream_write_owns_context:
  assumes "ledger_ok l"
  shows "case stream_write_pieces accepted pieces l of
      (None, l') \<Rightarrow> \<not> accepted \<and> ledger_ok l' \<and> loaned l' = loaned l
    | (Some i, l') \<Rightarrow> accepted \<and> ledger_ok l' \<and> i \<notin> loaned l \<and> loaned l' = insert i (loaned l) \<and>
        live_ctx l' i = Some (concat pieces) \<and>
        ledger_ok (on_send_complete (Some i) (ctx_return i l')) \<and> loaned (on_send_complete (Some i) (ctx_return i l')) = loaned l"
proof -
  have "next_ctx l \<notin> loaned l" by (rule next_ctx_fresh [OF assms])
  then show ?thesis
    using ctx_release_lend [OF assms, of "concat pieces"] ctx_release_reclaim [OF assms, of "concat pieces"]
      ctx_return_reclaim [OF ctx_release_lend [OF assms, of "concat pieces"], of "next_ctx l"]
    by (simp add: stream_write_pieces_def stream_write_def on_send_complete_def ctx_release_fields split_beta)
qed

lemma stream_write_owns_context_witness:
  "case stream_write_pieces True [[1], [2, 3]] ledger_init of
      (None, l') \<Rightarrow> \<not> True \<and> ledger_ok l' \<and> loaned l' = loaned (ledger_init :: u8 list ledger)
    | (Some i, l') \<Rightarrow> True \<and> ledger_ok l' \<and> i \<notin> loaned (ledger_init :: u8 list ledger) \<and>
        loaned l' = insert i (loaned (ledger_init :: u8 list ledger)) \<and> live_ctx l' i = Some (concat [[1], [2, 3]]) \<and>
        ledger_ok (on_send_complete (Some i) (ctx_return i l')) \<and> loaned (on_send_complete (Some i) (ctx_return i l')) = loaned (ledger_init :: u8 list ledger)"
  by (rule stream_write_owns_context [OF ledger_init_ok])

end
