(* ===== verification/Atomic_Stub.thy ===== *)
theory Atomic_Stub
  imports Prelude
begin

text \<open>
  The 64-bit atomic operations for 32-bit MIPS, \<^verbatim>\<open>cmake/stubs/atomic_mips32.c\<close>, that msquic is linked with there: a
  spin lock around two 32-bit accesses. \<open>sync_step\<close> interleaves any number of threads, one memory access at a
  time; \<^verbatim>\<open>memcpy\<close> of eight bytes is the access of the low and then of the high word. The specification is one
  atomic operation on a 64-bit word. The history of completed operations is not read by any step.
\<close>

section \<open>Definitions\<close>

datatype sync_op = CompareSwap u64 u64 | FetchAdd u64 | AddFetch u64

text \<open>What an operation stores, if it does, and what it returns, given the current value.\<close>

fun sync_new :: "sync_op \<Rightarrow> u64 \<Rightarrow> u64 option" where
  "sync_new (CompareSwap old new) cur = (if cur = old then Some new else None)"
| "sync_new (FetchAdd val) cur = Some (cur + val)"
| "sync_new (AddFetch val) cur = Some (cur + val)"

fun sync_return :: "sync_op \<Rightarrow> u64 \<Rightarrow> u64" where
  "sync_return (CompareSwap old new) cur = cur"
| "sync_return (FetchAdd val) cur = cur"
| "sync_return (AddFetch val) cur = cur + val"

definition low_half :: "u64 \<Rightarrow> u32" where "low_half v = ucast v"
definition high_half :: "u64 \<Rightarrow> u32" where "high_half v = ucast (drop_bit 32 v)"
definition join_halves :: "u32 \<Rightarrow> u32 \<Rightarrow> u64" where "join_halves hi lo = push_bit 32 (ucast hi) OR ucast lo"

text \<open>
  Where a thread is: outside, spinning, before each of the accesses (with the values read so far), about to
  release the lock, or about to return.
\<close>

datatype sync_pc = Outside | Acquiring sync_op | ReadLow sync_op | ReadHigh sync_op u32 | Choosing sync_op u64
  | WriteLow sync_op u64 u64 | WriteHigh sync_op u64 u64 | Releasing sync_op u64 | Returning sync_op u64

record sync_state =
  s8_lock :: u32
  mem_low :: u32
  mem_high :: u32
  pcs :: "nat \<Rightarrow> sync_pc"
  done_ops :: "(nat \<times> sync_op \<times> u64) list"

definition sync_init :: "u64 \<Rightarrow> sync_state" where
  "sync_init v = \<lparr>s8_lock = 0, mem_low = low_half v, mem_high = high_half v, pcs = (\<lambda>_. Outside), done_ops = []\<rparr>"

definition goto :: "nat \<Rightarrow> sync_pc \<Rightarrow> sync_state \<Rightarrow> sync_state" where
  "goto i p s = s\<lparr>pcs := (pcs s)(i := p)\<rparr>"

inductive sync_step :: "sync_state \<Rightarrow> sync_state \<Rightarrow> bool" where
  sync_call: "pcs s i = Outside \<Longrightarrow> sync_step s (goto i (Acquiring oper) s)"
| sync_acquire: "pcs s i = Acquiring oper \<Longrightarrow> s8_lock s = 0 \<Longrightarrow> sync_step s (goto i (ReadLow oper) (s\<lparr>s8_lock := 1\<rparr>))"
| sync_spin: "pcs s i = Acquiring oper \<Longrightarrow> s8_lock s \<noteq> 0 \<Longrightarrow> sync_step s s"
| sync_read_low: "pcs s i = ReadLow oper \<Longrightarrow> sync_step s (goto i (ReadHigh oper (mem_low s)) s)"
| sync_read_high: "pcs s i = ReadHigh oper lo \<Longrightarrow> sync_step s (goto i (Choosing oper (join_halves (mem_high s) lo)) s)"
| sync_choose: "pcs s i = Choosing oper cur \<Longrightarrow>
    sync_step s (goto i (case sync_new oper cur of None \<Rightarrow> Releasing oper (sync_return oper cur) | Some new \<Rightarrow> WriteLow oper cur new) s)"
| sync_write_low: "pcs s i = WriteLow oper cur new \<Longrightarrow> sync_step s (goto i (WriteHigh oper cur new) (s\<lparr>mem_low := low_half new\<rparr>))"
| sync_write_high: "pcs s i = WriteHigh oper cur new \<Longrightarrow>
    sync_step s (goto i (Releasing oper (sync_return oper cur)) (s\<lparr>mem_high := high_half new\<rparr>))"
| sync_release: "pcs s i = Releasing oper r \<Longrightarrow>
    sync_step s (goto i (Returning oper r) (s\<lparr>s8_lock := 0, done_ops := done_ops s @ [(i, oper, r)]\<rparr>))"
| sync_return: "pcs s i = Returning oper r \<Longrightarrow> sync_step s (goto i Outside s)"

inductive sync_reachable :: "u64 \<Rightarrow> sync_state \<Rightarrow> bool" for v where
  sync_start: "sync_reachable v (sync_init v)"
| sync_next: "sync_reachable v s \<Longrightarrow> sync_step s t \<Longrightarrow> sync_reachable v t"

subsection \<open>Specification\<close>

text \<open>The value after a sequence of atomic operations, and that each returned what it should.\<close>

definition apply_op :: "sync_op \<Rightarrow> u64 \<Rightarrow> u64" where
  "apply_op oper v = (case sync_new oper v of None \<Rightarrow> v | Some n \<Rightarrow> n)"

fun atomic_run :: "u64 \<Rightarrow> (nat \<times> sync_op \<times> u64) list \<Rightarrow> u64 option" where
  "atomic_run v [] = Some v"
| "atomic_run v ((i, oper, r) # ops) = (if r = sync_return oper v then atomic_run (apply_op oper v) ops else None)"

definition in_section :: "sync_pc \<Rightarrow> bool" where
  "in_section p \<longleftrightarrow> (case p of Outside \<Rightarrow> False | Acquiring _ \<Rightarrow> False | Returning _ _ \<Rightarrow> False | _ \<Rightarrow> True)"

definition mem_value :: "sync_state \<Rightarrow> u64" where
  "mem_value s = join_halves (mem_high s) (mem_low s)"

text \<open>What holds for the thread in the critical section when the operations done have led to the value \<open>v\<close>.\<close>

fun section_ok :: "u64 \<Rightarrow> sync_state \<Rightarrow> sync_pc \<Rightarrow> bool" where
  "section_ok v s (ReadLow oper) \<longleftrightarrow> mem_value s = v"
| "section_ok v s (ReadHigh oper lo) \<longleftrightarrow> mem_value s = v \<and> lo = mem_low s"
| "section_ok v s (Choosing oper cur) \<longleftrightarrow> mem_value s = v \<and> cur = v"
| "section_ok v s (WriteLow oper cur new) \<longleftrightarrow> cur = v \<and> sync_new oper v = Some new"
| "section_ok v s (WriteHigh oper cur new) \<longleftrightarrow> cur = v \<and> sync_new oper v = Some new \<and> mem_low s = low_half new"
| "section_ok v s (Releasing oper r) \<longleftrightarrow> mem_value s = apply_op oper v \<and> r = sync_return oper v"
| "section_ok v s p \<longleftrightarrow> True"

definition sync_inv :: "u64 \<Rightarrow> sync_state \<Rightarrow> bool" where
  "sync_inv v0 s \<longleftrightarrow>
     (\<exists>v. atomic_run v0 (done_ops s) = Some v \<and> (\<forall>i. section_ok v s (pcs s i)) \<and>
       (s8_lock s = 0 \<longrightarrow> (\<forall>i. \<not> in_section (pcs s i)) \<and> mem_value s = v)) \<and>
     (\<forall>i j. in_section (pcs s i) \<and> in_section (pcs s j) \<longrightarrow> i = j)"

section \<open>Lemmas\<close>

inductive_cases sync_stepE: "sync_step s t"

lemma join_split [simp]: "join_halves (high_half v) (low_half v) = v"
  by (rule bit_word_eqI) (auto simp: join_halves_def high_half_def low_half_def bit_simps)

lemma atomic_run_append:
  "atomic_run v (xs @ ys) = (case atomic_run v xs of None \<Rightarrow> None | Some w \<Rightarrow> atomic_run w ys)"
  by (induction v xs rule: atomic_run.induct) auto

lemma goto_fields [simp]:
  "pcs (goto i p s) = (pcs s)(i := p)" "s8_lock (goto i p s) = s8_lock s" "mem_low (goto i p s) = mem_low s"
  "mem_high (goto i p s) = mem_high s" "done_ops (goto i p s) = done_ops s" "mem_value (goto i p s) = mem_value s"
  by (simp_all add: goto_def mem_value_def)

lemma section_other: "\<not> in_section p \<Longrightarrow> section_ok v s p"
  by (cases p) (simp_all add: in_section_def)

lemma section_cong: "mem_value s = mem_value t \<Longrightarrow> mem_low s = mem_low t \<Longrightarrow> section_ok v s p = section_ok v t p"
  by (cases p) simp_all

lemma holder_alone:
  assumes "sync_inv v0 s" "in_section (pcs s i)"
  shows "s8_lock s \<noteq> 0" "j \<noteq> i \<Longrightarrow> \<not> in_section (pcs s j)"
  using assms by (auto simp: sync_inv_def)

text \<open>A step inside the critical section, a step outside it, and entering and leaving it.\<close>

lemma section_move:
  assumes inv: "sync_inv v0 s" and i: "in_section (pcs s i)" and p: "in_section p"
    and t: "pcs t = (pcs s)(i := p)" "s8_lock t = s8_lock s" "done_ops t = done_ops s"
    and ok: "\<And>v. section_ok v s (pcs s i) \<Longrightarrow> section_ok v t p"
  shows "sync_inv v0 t"
proof -
  from inv obtain v where v: "atomic_run v0 (done_ops s) = Some v" "\<forall>i. section_ok v s (pcs s i)"
    by (auto simp: sync_inv_def)
  have others: "\<not> in_section (pcs s j)" if "j \<noteq> i" for j by (rule holder_alone(2) [OF inv i that])
  have "section_ok v t (pcs t j)" for j
    using ok v(2) others section_other by (cases "j = i") (auto simp: t(1))
  moreover have "s8_lock t \<noteq> 0" using holder_alone(1) [OF inv i] t(2) by simp
  ultimately show ?thesis using v(1) others by (auto simp: sync_inv_def t)
qed

lemma outside_move:
  assumes inv: "sync_inv v0 s" and "\<not> in_section (pcs s i)" "\<not> in_section p"
  shows "sync_inv v0 (goto i p s)"
proof -
  from inv obtain v where v: "atomic_run v0 (done_ops s) = Some v" "\<forall>i. section_ok v s (pcs s i)"
    "s8_lock s = 0 \<longrightarrow> (\<forall>i. \<not> in_section (pcs s i)) \<and> mem_value s = v"
    by (auto simp: sync_inv_def)
  have "section_ok v (goto i p s) (pcs (goto i p s) j)" for j
    using v(2) assms(3) section_other section_cong [of s "goto i p s"] by (cases "j = i") auto
  then show ?thesis using v assms by (auto simp: sync_inv_def)
qed

lemma enter_section:
  assumes inv: "sync_inv v0 s" and "pcs s i = Acquiring oper" "s8_lock s = 0"
  shows "sync_inv v0 (goto i (ReadLow oper) (s\<lparr>s8_lock := 1\<rparr>))"
proof -
  let ?t = "goto i (ReadLow oper) (s\<lparr>s8_lock := 1\<rparr>)"
  from inv assms(3) obtain v where v: "atomic_run v0 (done_ops s) = Some v" "\<forall>j. \<not> in_section (pcs s j)" "mem_value s = v"
    by (auto simp: sync_inv_def)
  have "section_ok v ?t (pcs ?t j)" for j
    using v(2,3) section_other by (cases "j = i") (auto simp: mem_value_def)
  then show ?thesis using v by (auto simp: sync_inv_def in_section_def)
qed

lemma leave_section:
  assumes inv: "sync_inv v0 s" and pc: "pcs s i = Releasing oper r"
  shows "sync_inv v0 (goto i (Returning oper r) (s\<lparr>s8_lock := 0, done_ops := done_ops s @ [(i, oper, r)]\<rparr>))"
proof -
  let ?t = "goto i (Returning oper r) (s\<lparr>s8_lock := 0, done_ops := done_ops s @ [(i, oper, r)]\<rparr>)"
  from inv obtain v where v: "atomic_run v0 (done_ops s) = Some v" "\<forall>i. section_ok v s (pcs s i)"
    by (auto simp: sync_inv_def)
  have i: "in_section (pcs s i)" by (simp add: pc in_section_def)
  have free: "\<not> in_section (pcs ?t j)" for j
    using holder_alone(2) [OF inv i, of j] by (cases "j = i") (auto simp: in_section_def)
  have "section_ok v s (Releasing oper r)" using v(2) pc by metis
  then have r: "mem_value s = apply_op oper v" "r = sync_return oper v" by simp_all
  have "atomic_run v0 (done_ops ?t) = Some (apply_op oper v)"
    using v(1) r(2) by (simp add: atomic_run_append)
  moreover have "mem_value ?t = apply_op oper v" using r(1) by (simp add: mem_value_def)
  ultimately show ?thesis using free section_other by (auto simp: sync_inv_def)
qed

lemma sync_step_inv: "sync_step s t \<Longrightarrow> sync_inv v0 s \<Longrightarrow> sync_inv v0 t"
proof (erule sync_stepE)
  fix i oper cur assume inv: "sync_inv v0 s" and t: "t = goto i (case sync_new oper cur of None \<Rightarrow> Releasing oper (sync_return oper cur)
      | Some new \<Rightarrow> WriteLow oper cur new) s" and pc: "pcs s i = Choosing oper cur"
  show "sync_inv v0 t" unfolding t
    by (rule section_move [OF inv, of i]) (auto simp: pc in_section_def apply_op_def mem_value_def split: option.split)
next
  fix i oper cur new assume inv: "sync_inv v0 s" and t: "t = goto i (WriteHigh oper cur new) (s\<lparr>mem_low := low_half new\<rparr>)"
    and pc: "pcs s i = WriteLow oper cur new"
  show "sync_inv v0 t" unfolding t
    by (rule section_move [OF inv, of i]) (auto simp: pc in_section_def)
next
  fix i oper cur new assume inv: "sync_inv v0 s" and pc: "pcs s i = WriteHigh oper cur new"
    and t: "t = goto i (Releasing oper (sync_return oper cur)) (s\<lparr>mem_high := high_half new\<rparr>)"
  show "sync_inv v0 t" unfolding t
    by (rule section_move [OF inv, of i]) (auto simp: pc in_section_def apply_op_def mem_value_def)
next
  fix i oper lo assume inv: "sync_inv v0 s" and pc: "pcs s i = ReadHigh oper lo"
    and t: "t = goto i (Choosing oper (join_halves (mem_high s) lo)) s"
  show "sync_inv v0 t" unfolding t
    by (rule section_move [OF inv, of i]) (auto simp: pc in_section_def mem_value_def)
next
  fix i oper assume inv: "sync_inv v0 s" and pc: "pcs s i = ReadLow oper" and t: "t = goto i (ReadHigh oper (mem_low s)) s"
  show "sync_inv v0 t" unfolding t
    by (rule section_move [OF inv, of i]) (auto simp: pc in_section_def)
qed (auto intro: outside_move enter_section leave_section simp: in_section_def)

lemma sync_reachable_inv: "sync_reachable v s \<Longrightarrow> sync_inv v s"
proof (induction rule: sync_reachable.induct)
  case sync_start
  show ?case by (simp add: sync_inv_def sync_init_def in_section_def mem_value_def)
qed (rule sync_step_inv)

section \<open>Properties\<close>

text \<open>
  C39: the operations are atomic: in every interleaving of any number of threads at most one is in the critical
  section; the operations done so far, in the order of their releases, form a sequential run of atomic 64-bit
  operations that returns exactly what the threads got; and whenever the lock is free the two words of
  memory hold the value of that run.
\<close>

theorem sync_operations_atomic:
  assumes "sync_reachable v0 s"
  shows "\<exists>v. atomic_run v0 (done_ops s) = Some v \<and> (s8_lock s = 0 \<longrightarrow> mem_value s = v) \<and>
     (\<forall>i j. in_section (pcs s i) \<and> in_section (pcs s j) \<longrightarrow> i = j)"
  using sync_reachable_inv [OF assms] by (auto simp: sync_inv_def)

lemma sync_operations_atomic_witness:
  "\<exists>s. sync_reachable 0xFFFFFFFF s \<and> done_ops s = [(7, AddFetch 1, 0x100000000)] \<and> mem_value s = 0x100000000"
proof -
  let ?op = "AddFetch 1" and ?v = "0xFFFFFFFF :: u64" and ?w = "0x100000000 :: u64"
  let ?s1 = "goto 7 (Acquiring ?op) (sync_init ?v)"
  let ?s2 = "goto 7 (ReadLow ?op) (?s1\<lparr>s8_lock := 1\<rparr>)"
  let ?s3 = "goto 7 (ReadHigh ?op (mem_low ?s2)) ?s2"
  let ?s4 = "goto 7 (Choosing ?op (join_halves (mem_high ?s3) (mem_low ?s2))) ?s3"
  have halves: "join_halves (high_half ?v) (low_half ?v) = ?v" by (rule join_split)
  let ?s5 = "goto 7 (WriteLow ?op ?v ?w) ?s4"
  let ?s6 = "goto 7 (WriteHigh ?op ?v ?w) (?s5\<lparr>mem_low := low_half ?w\<rparr>)"
  let ?s7 = "goto 7 (Releasing ?op ?w) (?s6\<lparr>mem_high := high_half ?w\<rparr>)"
  let ?s8 = "goto 7 (Returning ?op ?w) (?s7\<lparr>s8_lock := 0, done_ops := done_ops ?s7 @ [(7, ?op, ?w)]\<rparr>)"
  have 1: "sync_reachable ?v ?s1" by (rule sync_next [OF sync_start sync_call]) (simp add: sync_init_def)
  have 2: "sync_reachable ?v ?s2" by (rule sync_next [OF 1 sync_acquire]) (simp_all add: sync_init_def)
  have 3: "sync_reachable ?v ?s3" by (rule sync_next [OF 2 sync_read_low]) simp
  have 4: "sync_reachable ?v ?s4" by (rule sync_next [OF 3 sync_read_high]) simp
  have "sync_step ?s4 ?s5"
    using sync_choose [of ?s4 7 ?op ?v] halves by (simp add: sync_init_def)
  then have 5: "sync_reachable ?v ?s5" by (rule sync_next [OF 4])
  have 6: "sync_reachable ?v ?s6" by (rule sync_next [OF 5 sync_write_low]) simp
  have "sync_step ?s6 ?s7" using sync_write_high [of ?s6 7 ?op ?v ?w] by simp
  then have 7: "sync_reachable ?v ?s7" by (rule sync_next [OF 6])
  have 8: "sync_reachable ?v ?s8" by (rule sync_next [OF 7 sync_release]) simp
  have "done_ops ?s8 = [(7, ?op, ?w)]" "s8_lock ?s8 = 0" by (simp_all add: sync_init_def)
  with sync_operations_atomic [OF 8] 8 show ?thesis by (intro exI [of _ ?s8]) (simp add: apply_op_def)
qed

end
