(* ===== verification/Atomic_Progress.thy ===== *)
theory Atomic_Progress
  imports Atomic_Stub
begin

text \<open>
  Progress of the MIPS32 operations of Atomic_Stub: calls that have begun end after a bounded number of steps
  that are not a failed attempt to take the lock, whatever the order of the threads.
\<close>

section \<open>Definitions\<close>

text \<open>The steps a call still has before it, its failed attempts to take the lock not counted.\<close>

fun op_left :: "sync_pc \<Rightarrow> nat" where
  "op_left Outside = 0"
| "op_left (Acquiring oper) = 8"
| "op_left (ReadLow oper) = 7"
| "op_left (ReadHigh oper lo) = 6"
| "op_left (Choosing oper cur) = 5"
| "op_left (WriteLow oper cur new) = 4"
| "op_left (WriteHigh oper cur new) = 3"
| "op_left (Releasing oper r) = 2"
| "op_left (Returning oper r) = 1"

definition busy :: "sync_state \<Rightarrow> nat set" where
  "busy s = {i. pcs s i \<noteq> Outside}"

definition work_left :: "sync_state \<Rightarrow> nat" where
  "work_left s = (\<Sum>i\<in>busy s. op_left (pcs s i))"

text \<open>A step of a call that has begun, a failed attempt to take the lock excepted.\<close>

definition sync_work :: "sync_state \<Rightarrow> sync_state \<Rightarrow> bool" where
  "sync_work s t \<longleftrightarrow> sync_step s t \<and> t \<noteq> s \<and> (\<forall>i. pcs s i = Outside \<longrightarrow> pcs t i = Outside)"

section \<open>Lemmas\<close>

lemma op_left_0 [simp]: "op_left p = 0 \<longleftrightarrow> p = Outside"
  by (cases p) simp_all

lemma step_changes_one:
  assumes "sync_step s t"
  shows "t = s \<or> (\<exists>i p. pcs t = (pcs s)(i := p) \<and> (pcs s i = Outside \<and> p \<noteq> Outside \<or> op_left p < op_left (pcs s i)))"
  using assms
proof (cases rule: sync_step.cases)
  case (sync_choose i oper cur)
  then show ?thesis by (intro disjI2 exI [of _ i] exI conjI) (auto split: option.split)
next
  case (sync_call i oper)
  then show ?thesis by (intro disjI2 exI [of _ i] exI [of _ "Acquiring oper"]) simp
next
  case (sync_spin i oper)
  then show ?thesis by simp
qed (intro disjI2 exI conjI, simp, simp)+

lemma finite_busy: "sync_reachable v s \<Longrightarrow> finite (busy s)"
proof (induction rule: sync_reachable.induct)
  case (sync_next s t)
  from step_changes_one [OF sync_next(2)] obtain i where "t = s \<or> (\<exists>p. pcs t = (pcs s)(i := p))"
    by blast
  then have "busy t \<subseteq> insert i (busy s)" by (auto simp: busy_def)
  with sync_next(3) show ?case by (auto intro: finite_subset)
qed (simp add: busy_def sync_init_def)

text \<open>A lock that is held is held by a thread in the critical section, which can always take its next step.\<close>

lemma lock_has_holder: "sync_reachable v s \<Longrightarrow> s8_lock s \<noteq> 0 \<Longrightarrow> \<exists>i. in_section (pcs s i)"
proof (induction rule: sync_reachable.induct)
  case (sync_next s t)
  from sync_next(2) show ?case
  proof (cases rule: sync_step.cases)
    case (sync_call i oper)
    with sync_next obtain j where "in_section (pcs s j)" by auto
    with sync_call show ?thesis by (intro exI [of _ j]) (auto simp: in_section_def)
  next
    case (sync_return i oper r)
    with sync_next obtain j where "in_section (pcs s j)" by auto
    with sync_return show ?thesis by (intro exI [of _ j]) (auto simp: in_section_def)
  next
    case (sync_choose i oper cur)
    then show ?thesis by (intro exI [of _ i]) (simp add: in_section_def split: option.split)
  qed (use sync_next in \<open>auto simp: in_section_def\<close>)
qed (simp add: sync_init_def)

lemma work_intro:
  "sync_step s t \<Longrightarrow> pcs s i \<noteq> Outside \<Longrightarrow> pcs t = (pcs s)(i := p) \<Longrightarrow> p \<noteq> pcs s i \<Longrightarrow> sync_work s t"
  unfolding sync_work_def by (metis fun_upd_other fun_upd_same)

lemma started_can_move:
  assumes "pcs s i \<noteq> Outside" "\<And>oper. pcs s i = Acquiring oper \<Longrightarrow> s8_lock s = 0"
  shows "\<exists>t. sync_work s t"
proof -
  have "\<exists>t p. sync_step s t \<and> pcs t = (pcs s)(i := p) \<and> p \<noteq> pcs s i"
  proof (cases "pcs s i")
    case (Acquiring oper)
    with assms(2) show ?thesis by (intro exI conjI) (rule sync_acquire, auto)
  next
    case (Choosing oper cur)
    then show ?thesis by (intro exI conjI) (erule sync_choose, auto simp: split: option.splits)
  next
    case (WriteHigh oper cur new)
    then show ?thesis by (intro exI conjI) (erule sync_write_high, auto)
  next
    case (ReadHigh oper lo)
    then show ?thesis by (intro exI conjI) (erule sync_read_high, auto)
  next
    case (ReadLow oper)
    then show ?thesis by (intro exI conjI) (erule sync_read_low, auto)
  next
    case (WriteLow oper cur new)
    then show ?thesis by (intro exI conjI) (erule sync_write_low, auto)
  next
    case (Releasing oper r)
    then show ?thesis by (intro exI conjI) (erule sync_release, auto)
  next
    case (Returning oper r)
    then show ?thesis by (intro exI conjI) (erule sync_return, auto)
  qed (use assms(1) in simp)
  then show ?thesis using work_intro assms(1) by blast
qed

lemma work_progress:
  assumes "sync_reachable v s" "pcs s i \<noteq> Outside"
  shows "\<exists>t. sync_work s t"
proof (cases "s8_lock s = 0")
  case True
  then show ?thesis using started_can_move [of s i] assms(2) by blast
next
  case False
  then obtain j where "in_section (pcs s j)" using lock_has_holder [OF assms(1)] by blast
  then show ?thesis using started_can_move [of s j] by (fastforce simp: in_section_def)
qed

lemma work_decreases:
  assumes "finite (busy s)" "sync_work s t"
  shows "work_left t < work_left s"
proof -
  from assms(2) step_changes_one [of s t] obtain i p where t: "pcs t = (pcs s)(i := p)" "op_left p < op_left (pcs s i)"
    unfolding sync_work_def by (metis fun_upd_same)
  have i: "i \<in> busy s" using t(2) by (auto simp: busy_def)
  have sub: "busy t \<subseteq> busy s" using t i by (auto simp: busy_def split: if_splits)
  have "work_left t = (\<Sum>j\<in>busy s. op_left (pcs t j))"
    unfolding work_left_def by (rule sum.mono_neutral_left [OF assms(1) sub]) (simp add: busy_def)
  also have "\<dots> < work_left s" unfolding work_left_def
    by (rule sum_strict_mono_ex1 [OF assms(1)]) (use t i in \<open>auto intro: less_imp_le\<close>)
  finally show ?thesis .
qed

lemma work_reachable: "(sync_work ^^ k) s t \<Longrightarrow> sync_reachable v s \<Longrightarrow> sync_reachable v t"
proof (induction k arbitrary: t)
  case (Suc k)
  then obtain u where u: "(sync_work ^^ k) s u" "sync_work u t" by auto
  from u(2) have "sync_step u t" by (simp add: sync_work_def)
  with u(1) Suc show ?case by (blast intro: sync_next)
qed simp

lemma work_bounded: "(sync_work ^^ k) s t \<Longrightarrow> sync_reachable v s \<Longrightarrow> k + work_left t \<le> work_left s"
proof (induction k arbitrary: t)
  case (Suc k)
  then obtain u where u: "(sync_work ^^ k) s u" "sync_work u t" by auto
  then show ?case
    using Suc.IH [OF u(1) Suc.prems(2)] work_decreases [OF finite_busy [OF work_reachable [OF u(1) Suc.prems(2)]] u(2)] by simp
qed simp

section \<open>Properties\<close>

text \<open>
  C38: the operations finish: from any reachable state, the threads inside a call take together at most the
  number of steps that their calls have left (eight for a call that has not got the lock yet, so eight times
  the calls in all), failed attempts to take the lock not counted; and when none of them can take such a step,
  none is inside a call: no thread waits for a lock that nobody will release.
\<close>

theorem sync_operations_finish:
  assumes "sync_reachable v s" "(sync_work ^^ k) s t"
  shows "k + work_left t \<le> work_left s \<and> work_left s \<le> 8 * card (busy s) \<and> ((\<nexists>u. sync_work t u) \<longrightarrow> busy t = {})"
proof (intro conjI impI)
  show "k + work_left t \<le> work_left s" by (rule work_bounded [OF assms(2,1)])
  have "op_left p \<le> 8" for p by (cases p) simp_all
  then show "work_left s \<le> 8 * card (busy s)"
    unfolding work_left_def using sum_bounded_above [of "busy s" "\<lambda>i. op_left (pcs s i)" 8] by (simp add: mult.commute)
  show "busy t = {}" if "\<nexists>u. sync_work t u"
    using that work_progress [OF work_reachable [OF assms(2,1)]] by (auto simp: busy_def)
qed

lemma sync_operations_finish_witness:
  "\<exists>s t. sync_work s t \<and> busy s = {7} \<and> work_left s = 8 \<and> 1 + work_left t \<le> 8 \<and> ((\<nexists>u. sync_work t u) \<longrightarrow> busy t = {})"
proof -
  let ?s = "goto 7 (Acquiring (AddFetch 1)) (sync_init 5)"
  let ?t = "goto 7 (ReadLow (AddFetch 1)) (?s\<lparr>s8_lock := 1\<rparr>)"
  have r: "sync_reachable 5 ?s" by (rule sync_next [OF sync_start sync_call]) (simp add: sync_init_def)
  have step: "sync_step ?s ?t" by (rule sync_acquire) (simp_all add: sync_init_def)
  have w: "sync_work ?s ?t" by (rule work_intro [OF step, of 7 "ReadLow (AddFetch 1)"]) simp_all
  have b: "busy ?s = {7}" by (auto simp: busy_def sync_init_def)
  then have l: "work_left ?s = 8" by (simp add: work_left_def)
  have "(sync_work ^^ 1) ?s ?t" using w by (simp only: relpowp_1)
  from sync_operations_finish [OF r this] have "1 + work_left ?t \<le> 8 \<and> ((\<nexists>u. sync_work ?t u) \<longrightarrow> busy ?t = {})"
    unfolding l by simp
  with w b l show ?thesis by blast
qed

end
