(* ===== verification/Buffer.thy ===== *)
theory Buffer
  imports Prelude
begin

text \<open>
  The packet buffer of \<^verbatim>\<open>include/cfd/buffer.hpp\<close>. \<^verbatim>\<open>std::size_t\<close> is a word of the target's width, so the
  sum \<^verbatim>\<open>len_ + n\<close> of the overflow guard wraps as it does in C++. A throw of \<^verbatim>\<open>length_error\<close> is \<open>LengthError\<close>;
  a \<^verbatim>\<open>memcpy\<close> that would leave the allocation is \<open>OutOfBounds\<close>.
\<close>

section \<open>Definitions\<close>

record (overloaded) 'w buffer =
  buf_data :: "u8 list"
  buf_cap :: "'w::len word"
  buf_len :: "'w word"

datatype buffer_error = LengthError string | OutOfBounds

definition buffer_new :: "'w::len word \<Rightarrow> 'w buffer" where
  "buffer_new cap = \<lparr>buf_data = replicate (unat cap) 0, buf_cap = cap, buf_len = 0\<rparr>"

definition buffer_resize :: "'w::len buffer \<Rightarrow> 'w word \<Rightarrow> buffer_error + 'w buffer" where
  "buffer_resize b n =
     (if n > buf_cap b then Inl (LengthError ''Buffer::resize overflow'')
      else Inr (b\<lparr>buf_len := n\<rparr>))"

definition buffer_clear :: "'w::len buffer \<Rightarrow> 'w buffer" where
  "buffer_clear b = b\<lparr>buf_len := 0\<rparr>"

text \<open>\<open>src\<close> are the \<open>n\<close> bytes at \<open>p\<close>.\<close>

definition buffer_append :: "'w::len buffer \<Rightarrow> u8 list \<Rightarrow> buffer_error + 'w buffer" where
  "buffer_append b src =
     (let n = of_nat (length src) in
      if buf_len b + n > buf_cap b then Inl (LengthError ''Buffer::append overflow'')
      else case mem_write (unat (buf_len b)) src (buf_data b) of
             None \<Rightarrow> Inl OutOfBounds
           | Some d \<Rightarrow> Inr (b\<lparr>buf_data := d, buf_len := buf_len b + n\<rparr>))"

text \<open>The bytes a reader of \<^verbatim>\<open>data()\<close> and \<^verbatim>\<open>size()\<close> sees, and the class invariant.\<close>

definition buffer_contents :: "'w::len buffer \<Rightarrow> u8 list" where
  "buffer_contents b = take (unat (buf_len b)) (buf_data b)"

definition buffer_ok :: "'w::len buffer \<Rightarrow> bool" where
  "buffer_ok b \<longleftrightarrow> length (buf_data b) = unat (buf_cap b) \<and> buf_len b \<le> buf_cap b"

section \<open>Lemmas\<close>

lemma buffer_new_ok: "buffer_ok (buffer_new cap) \<and> buffer_contents (buffer_new cap) = []"
  by (simp add: buffer_ok_def buffer_new_def buffer_contents_def)

lemma buffer_resize_ok: "buffer_ok b \<Longrightarrow> buffer_resize b n = Inr b' \<Longrightarrow> buffer_ok b'"
  by (auto simp: buffer_resize_def buffer_ok_def not_less split: if_splits)

lemma unat_plus_small:
  fixes x :: "'w::len word"
  assumes "unat x + n < 2 ^ LENGTH('w)"
  shows "unat (x + of_nat n) = unat x + n"
proof -
  have "x + of_nat n = of_nat (unat x + n)" by simp
  then show ?thesis using assms by (simp only: unat_of_nat_small)
qed

section \<open>Properties\<close>

text \<open>As long as the buffer and the source block fit the address space together, appending either throws,
  exactly when the bytes do not fit the capacity, or keeps the invariant and extends the visible contents by
  exactly the source bytes; it never writes outside the allocation. Resizing and clearing keep the invariant.\<close>

theorem buffer_append_correct:
  fixes b :: "'w::len buffer"
  assumes ok: "buffer_ok b" and fits: "unat (buf_cap b) + length src < 2 ^ LENGTH('w)"
  shows "(case buffer_append b src of
      Inl e \<Rightarrow> e = LengthError ''Buffer::append overflow'' \<and> unat (buf_cap b) < unat (buf_len b) + length src
    | Inr b' \<Rightarrow> buffer_ok b' \<and> buf_cap b' = buf_cap b \<and> buffer_contents b' = buffer_contents b @ src)
    \<and> (\<forall>n b'. buffer_resize b n = Inr b' \<longrightarrow> buffer_ok b') \<and> buffer_ok (buffer_clear b)"
proof -
  have len: "unat (buf_len b) \<le> unat (buf_cap b)" "length (buf_data b) = unat (buf_cap b)"
    using ok by (auto simp: buffer_ok_def word_le_nat_alt)
  have sum: "unat (buf_len b + of_nat (length src)) = unat (buf_len b) + length src"
    using len fits by (intro unat_plus_small) simp
  have "case buffer_append b src of
      Inl e \<Rightarrow> e = LengthError ''Buffer::append overflow'' \<and> unat (buf_cap b) < unat (buf_len b) + length src
    | Inr b' \<Rightarrow> buffer_ok b' \<and> buf_cap b' = buf_cap b \<and> buffer_contents b' = buffer_contents b @ src"
  proof (cases "buf_len b + of_nat (length src) > buf_cap b")
    case True
    then show ?thesis using sum by (simp add: buffer_append_def word_less_nat_alt)
  next
    case False
    then have "unat (buf_len b) + length src \<le> length (buf_data b)"
      using sum len by (simp add: not_less word_le_nat_alt)
    then have "buffer_append b src =
        Inr (b\<lparr>buf_data := take (unat (buf_len b)) (buf_data b) @ src @ drop (unat (buf_len b) + length src) (buf_data b),
               buf_len := buf_len b + of_nat (length src)\<rparr>)"
      using False by (simp add: buffer_append_def Let_def mem_write_Some)
    then show ?thesis using False sum len
      by (simp add: buffer_ok_def not_less word_le_nat_alt buffer_contents_def)
  qed
  moreover have "buffer_ok (buffer_clear b)"
    using ok by (simp add: buffer_ok_def buffer_clear_def)
  ultimately show ?thesis using buffer_resize_ok [OF ok] by blast
qed

theorem buffer_append_correct_witness:
  "(case buffer_append (buffer_new (4 :: 32 word)) [1, 2, 3] of
      Inl e \<Rightarrow> False
    | Inr b' \<Rightarrow> buffer_ok b' \<and> buffer_contents b' = [1, 2, 3])"
proof -
  let ?b = "buffer_new (4 :: 32 word)"
  have h: "buffer_ok ?b" "unat (buf_cap ?b) + length [1, 2, 3 :: u8] < 2 ^ LENGTH(32)"
    using buffer_new_ok [of "4 :: 32 word"] by (blast, simp add: buffer_new_def)
  show ?thesis using buffer_append_correct [OF h] buffer_new_ok [of "4 :: 32 word"]
    by (auto simp: buffer_append_def buffer_new_def split: sum.splits)
qed

end
