(* ===== verification/Quic_Handles.thy ===== *)
theory Quic_Handles
  imports Prelude
begin

text \<open>
  The process-global msquic table and the handles of \<^verbatim>\<open>include/cfd/msquic_raii.hpp\<close> and
  \<^verbatim>\<open>src/tunnel/quic_client.cpp\<close> (\<^verbatim>\<open>detail\<close>).

  msquic is external: the state records what its documented contract talks about, the open handles with their
  kind and parent, the connections told to shut down, and \<open>misuse\<close>, set when a handle is closed that is not open (or with
  the function of another kind) or has open children, or a connection is shut down that is not open. A \<open>handle\<close> is a \<^verbatim>\<open>UniqueHandle\<close>'s pointer with the kind its deleter carries.
\<close>

section \<open>Definitions\<close>

datatype handle_kind = HRegistration | HConfiguration | HConnection | HStream

type_synonym handle = "nat \<times> handle_kind"

record msquic =
  refcount :: int
  table :: bool
  opened :: "(nat \<times> handle_kind \<times> nat option) list"
  next_handle :: nat
  misuse :: bool
  shut_down :: "nat list"

definition msquic_init :: msquic where
  "msquic_init = \<lparr>refcount = 0, table = False, opened = [], next_handle = 0, misuse = False, shut_down = []\<rparr>"

text \<open>\<open>ok\<close> is whether \<^verbatim>\<open>MsQuicOpen2\<close> succeeds, if it is called; the flag returned is success.\<close>

definition api_table_init :: "bool \<Rightarrow> msquic \<Rightarrow> bool \<times> msquic" where
  "api_table_init ok m =
     (let old = refcount m; m = m\<lparr>refcount := refcount m + 1\<rparr> in
      if old = 0 then
        if \<not> ok then (False, m\<lparr>refcount := refcount m - 1\<rparr>) else (True, m\<lparr>table := True\<rparr>)
      else (True, m))"

definition api_table_release :: "msquic \<Rightarrow> msquic" where
  "api_table_release m =
     (let old = refcount m; m = m\<lparr>refcount := refcount m - 1\<rparr> in
      if old = 1 then m\<lparr>table := False\<rparr> else m)"

text \<open>An Open call that succeeds or not, under a parent handle.\<close>

definition open_handle :: "handle_kind \<Rightarrow> nat option \<Rightarrow> bool \<Rightarrow> msquic \<Rightarrow> handle option \<times> msquic" where
  "open_handle k parent ok m =
     (if \<not> ok then (None, m)
      else (Some (next_handle m, k),
            m\<lparr>opened := opened m @ [(next_handle m, k, parent)], next_handle := Suc (next_handle m)\<rparr>))"

definition close_call :: "handle_kind \<Rightarrow> nat \<Rightarrow> msquic \<Rightarrow> msquic" where
  "close_call k h m =
     (if (\<exists>(i, k', p) \<in> set (opened m). i = h \<and> k' = k) \<and> \<not> (\<exists>(i, k', p) \<in> set (opened m). p = Some h)
      then m\<lparr>opened := filter (\<lambda>(i, k', p). i \<noteq> h) (opened m)\<rparr>
      else m\<lparr>misuse := True\<rparr>)"

text \<open>\<^verbatim>\<open>HandleDeleter\<close>: nothing without a table, else the Close function of the kind.\<close>

definition handle_delete :: "handle \<Rightarrow> msquic \<Rightarrow> msquic" where
  "handle_delete h m =
     (if \<not> table m then m
      else case snd h of
        HRegistration \<Rightarrow> close_call HRegistration (fst h) m
      | HConfiguration \<Rightarrow> close_call HConfiguration (fst h) m
      | HConnection \<Rightarrow> close_call HConnection (fst h) m
      | HStream \<Rightarrow> close_call HStream (fst h) m)"

definition reset_handle :: "handle option \<Rightarrow> msquic \<Rightarrow> msquic" where
  "reset_handle h m = (case h of None \<Rightarrow> m | Some h \<Rightarrow> handle_delete h m)"

text \<open>\<^verbatim>\<open>ConnectionShutdown\<close>, called through the table.\<close>

definition connection_shutdown :: "handle option \<Rightarrow> msquic \<Rightarrow> msquic" where
  "connection_shutdown h m =
     (case h of None \<Rightarrow> m
      | Some h \<Rightarrow>
          if table m \<and> (\<exists>(i, k, p) \<in> set (opened m). i = fst h \<and> k = HConnection)
          then m\<lparr>shut_down := shut_down m @ [fst h]\<rparr> else m\<lparr>misuse := True\<rparr>)"

text \<open>Ids are fresh and the table is there exactly while it is referenced.\<close>

definition msquic_ok :: "msquic \<Rightarrow> bool" where
  "msquic_ok m \<longleftrightarrow> \<not> misuse m \<and> 0 \<le> refcount m \<and> (table m \<longleftrightarrow> 0 < refcount m) \<and>
     (\<forall>(i, k, p) \<in> set (opened m). i < next_handle m \<and> (\<forall>q. p = Some q \<longrightarrow> q < next_handle m))"

text \<open>A group of processes' uses of the table: each user initialises and, if that succeeded, releases.\<close>

datatype table_use = Acquire bool | Release

fun table_uses :: "table_use list \<Rightarrow> nat \<times> msquic \<Rightarrow> nat \<times> msquic" where
  "table_uses [] s = s"
| "table_uses (Acquire ok # us) (n, m) =
     (let (r, m') = api_table_init ok m in table_uses us (if r then Suc n else n, m'))"
| "table_uses (Release # us) (n, m) =
     (if n = 0 then table_uses us (n, m) else table_uses us (n - 1, api_table_release m))"

section \<open>Lemmas\<close>

lemma handle_delete_close: "table m \<Longrightarrow> handle_delete (h, k) m = close_call k h m"
  by (cases k) (simp_all add: handle_delete_def)

lemma open_handle_fields [simp]:
  "refcount (snd (open_handle k p ok m)) = refcount m" "table (snd (open_handle k p ok m)) = table m"
  "misuse (snd (open_handle k p ok m)) = misuse m" "shut_down (snd (open_handle k p ok m)) = shut_down m"
  by (simp_all add: open_handle_def)

lemma table_uses_count:
  "int n = refcount m \<Longrightarrow> (table m \<longleftrightarrow> 0 < refcount m) \<Longrightarrow> table_uses us (n, m) = (n', m') \<Longrightarrow>
   int n' = refcount m' \<and> (table m' \<longleftrightarrow> 0 < refcount m')"
proof (induction us "(n, m)" arbitrary: n m rule: table_uses.induct)
  case (2 ok us n m)
  then show ?case by (auto simp: api_table_init_def Let_def split: if_splits)
next
  case (3 us n m)
  then show ?case by (auto simp: api_table_release_def Let_def split: if_splits)
qed auto

text \<open>
  The msquic table is open exactly as long as some user holds it: after any sequence of successful and
  failed initialisations and releases, the count is the number of holders and the pointer is non-null
  exactly when it is positive.
\<close>

theorem api_table_refcount:
  assumes "table_uses us (0, msquic_init) = (n, m)"
  shows "refcount m = int n \<and> (table m \<longleftrightarrow> 0 < n)"
proof -
  have "int n = refcount m \<and> (table m \<longleftrightarrow> 0 < refcount m)"
    using table_uses_count [OF _ _ assms] by (simp add: msquic_init_def)
  then show ?thesis by (metis of_nat_0_less_iff)
qed

lemma api_table_refcount_witness:
  "refcount (snd (table_uses [Acquire False, Acquire True, Acquire False, Release] (0, msquic_init))) = 1 \<and>
   table (snd (table_uses [Acquire False, Acquire True, Acquire False, Release] (0, msquic_init)))"
proof -
  let ?r = "table_uses [Acquire False, Acquire True, Acquire False, Release] (0, msquic_init)"
  have "?r = (fst ?r, snd ?r)" by simp
  from api_table_refcount [OF this] show ?thesis
    by (simp add: api_table_init_def api_table_release_def msquic_init_def Let_def)
qed

end
