(* ===== verification/Frame.thy ===== *)
theory Frame
  imports Prelude
begin

text \<open>
  The QUIC datagram framing of \<^verbatim>\<open>include/cfd/frame.hpp\<close> and \<^verbatim>\<open>src/tunnel/frame.cpp\<close>.

  \<^verbatim>\<open>FrameType\<close> is an enumeration over \<^verbatim>\<open>std::uint8_t\<close>: \<^verbatim>\<open>static_cast\<close> from any byte is a value of the type, so
  \<open>frame_type\<close> wraps a byte and the two enumerators are constants. \<open>frame_encode\<close> returns the buffer and
  the size, \<open>frame_decode\<close> the filled \<^verbatim>\<open>DecodeResult\<close> or \<open>None\<close> for the returned \<^verbatim>\<open>false\<close>; the reads
  \<^verbatim>\<open>in[0]\<close> to \<^verbatim>\<open>in[3]\<close> are checked, and a read out of the span would be the error \<open>Inl ()\<close>.
\<close>

section \<open>Definitions\<close>

datatype frame_type = FrameType (frame_type_byte: u8)

definition IpPacket :: frame_type where "IpPacket = FrameType 1"
definition Icmp :: frame_type where "Icmp = FrameType 2"

record frame =
  frame_type :: frame_type
  flow_id :: u16
  payload :: "u8 list"

definition frame_init :: frame where
  "frame_init = \<lparr>frame_type = IpPacket, flow_id = 0, payload = []\<rparr>"

definition kFrameVersion :: u8 where "kFrameVersion = 3"
definition kFrameHeader :: nat where "kFrameHeader = 4"

definition frame_encode :: "frame \<Rightarrow> u8 list \<Rightarrow> u8 list \<times> nat" where
  "frame_encode f old =
     (let out = [];
          out = out @ [kFrameVersion];
          out = out @ [frame_type_byte (frame_type f)];
          out = out @ [ucast (drop_bit 8 (flow_id f))];
          out = out @ [ucast (flow_id f AND 0xFF)];
          out = out @ payload f
      in (out, length out))"

record decode_result =
  dr_type :: frame_type
  dr_flow_id :: u16
  dr_payload :: "u8 list"

definition frame_decode :: "u8 list \<Rightarrow> unit + decode_result option" where
  "frame_decode inp =
     (if length inp < kFrameHeader then Inr None
      else case (arr_get inp 0, arr_get inp 1, arr_get inp 2, arr_get inp 3) of
        (Some v, Some t, Some hi, Some lo) \<Rightarrow>
          (if v \<noteq> kFrameVersion then Inr None
           else Inr (Some \<lparr>dr_type = FrameType t,
                           dr_flow_id = push_bit 8 (ucast hi) OR ucast lo,
                           dr_payload = drop kFrameHeader inp\<rparr>))
      | _ \<Rightarrow> Inl ())"

definition frame_result :: "frame \<Rightarrow> decode_result" where
  "frame_result f = \<lparr>dr_type = frame_type f, dr_flow_id = flow_id f, dr_payload = payload f\<rparr>"

section \<open>Lemmas\<close>

lemmas frame_consts = kFrameVersion_def kFrameHeader_def

lemma frame_encode_bytes:
  "frame_encode f old =
     ([kFrameVersion, frame_type_byte (frame_type f), ucast (drop_bit 8 (flow_id f)),
       ucast (flow_id f AND 0xFF)] @ payload f, kFrameHeader + length (payload f))"
  by (simp add: frame_encode_def kFrameHeader_def)

lemma frame_decode_header:
  "frame_decode (v # t # hi # lo # p) =
     Inr (if v = kFrameVersion
          then Some \<lparr>dr_type = FrameType t, dr_flow_id = push_bit 8 (ucast hi) OR ucast lo, dr_payload = p\<rparr>
          else None)"
  by (simp add: frame_decode_def kFrameHeader_def arr_get_def)

lemma frame_reencode:
  "fst (frame_encode \<lparr>frame_type = FrameType t, flow_id = push_bit 8 (ucast hi) OR ucast lo, payload = p\<rparr> old)
   = kFrameVersion # t # hi # lo # p"
  by (simp only: frame_encode_bytes frame.simps u16_split frame_type.sel fst_conv append.simps)

lemma frame_decode_short: "length inp < 4 \<Longrightarrow> frame_decode inp = Inr None"
  by (simp add: frame_decode_def kFrameHeader_def)

lemma header_cases:
  fixes inp :: "'a list"
  obtains "length inp < 4" | v t hi lo p where "inp = v # t # hi # lo # p"
proof (cases "length inp < 4")
  case False
  then obtain v t hi lo p where "inp = v # t # hi # lo # p"
    by (cases inp; cases "tl inp"; cases "tl (tl inp)"; cases "tl (tl (tl inp))") auto
  then show ?thesis using that(2) by blast
qed (use that(1) in blast)

lemma frame_decode_encode: "frame_decode (fst (frame_encode f old)) = Inr (Some (frame_result f))"
  by (simp add: frame_encode_bytes frame_decode_header u16_join frame_result_def)

section \<open>Properties\<close>

text \<open>Decoding an encoded frame gives back its type, flow id and payload, whatever the buffer held before;
  the encoder reports exactly the header plus the payload length.\<close>

theorem frame_roundtrip:
  "frame_decode (fst (frame_encode f old)) =
     Inr (Some \<lparr>dr_type = frame_type f, dr_flow_id = flow_id f, dr_payload = payload f\<rparr>)
   \<and> snd (frame_encode f old) = kFrameHeader + length (payload f)
   \<and> length (fst (frame_encode f old)) = snd (frame_encode f old)"
  using frame_decode_encode [of f old]
  by (simp add: frame_result_def frame_encode_bytes kFrameHeader_def)

text \<open>The decoder never reads outside the datagram. It rejects exactly the datagrams shorter than the
  header or with another version byte, and on every other datagram re-encoding the decoded fields gives the
  datagram back, byte for byte: no two datagrams decode to the same fields.\<close>

theorem frame_decode_total:
  "\<exists>r. frame_decode inp = Inr r \<and>
     (r = None \<longleftrightarrow> length inp < kFrameHeader \<or> hd inp \<noteq> kFrameVersion) \<and>
     (case r of None \<Rightarrow> True
      | Some d \<Rightarrow> inp = fst (frame_encode \<lparr>frame_type = dr_type d, flow_id = dr_flow_id d, payload = dr_payload d\<rparr> []))"
proof (cases inp rule: header_cases)
  case 1
  then show ?thesis by (simp add: frame_decode_short kFrameHeader_def)
next
  case (2 v t hi lo p)
  then show ?thesis
    by (cases "v = kFrameVersion") (simp_all add: frame_decode_header frame_reencode kFrameHeader_def)
qed

lemma frame_decode_total_witness:
  "(\<exists>d. frame_decode [3, 1, 0, 7, 0x45] = Inr (Some d) \<and>
     fst (frame_encode \<lparr>frame_type = dr_type d, flow_id = dr_flow_id d, payload = dr_payload d\<rparr> []) = [3, 1, 0, 7, 0x45]) \<and>
   frame_decode [2, 1, 0, 7] = Inr None"
proof
  obtain r where r: "frame_decode [3, 1, 0, 7, 0x45] = Inr r"
    "r = None \<longleftrightarrow> length [3, 1, 0, 7, 0x45 :: u8] < kFrameHeader \<or> hd [3, 1, 0, 7, 0x45 :: u8] \<noteq> kFrameVersion"
    "case r of None \<Rightarrow> True
     | Some d \<Rightarrow> [3, 1, 0, 7, 0x45] = fst (frame_encode \<lparr>frame_type = dr_type d, flow_id = dr_flow_id d, payload = dr_payload d\<rparr> [])"
    using frame_decode_total [of "[3, 1, 0, 7, 0x45]"] by blast
  then have "r \<noteq> None" by (simp add: kFrameHeader_def kFrameVersion_def)
  with r show "\<exists>d. frame_decode [3, 1, 0, 7, 0x45] = Inr (Some d) \<and>
     fst (frame_encode \<lparr>frame_type = dr_type d, flow_id = dr_flow_id d, payload = dr_payload d\<rparr> []) = [3, 1, 0, 7, 0x45]"
    by auto
next
  show "frame_decode [2, 1, 0, 7] = Inr None"
    using frame_decode_total [of "[2, 1, 0, 7]"] by (auto simp: kFrameHeader_def kFrameVersion_def)
qed

end
