(* ===== verification/Packet_Sink.thy ===== *)
theory Packet_Sink
  imports Prelude "HOL-Library.Sublist"
begin

text \<open>
  The contract of \<^verbatim>\<open>IPacketSink\<close> (\<^verbatim>\<open>include/cfd/router.hpp\<close>), the interface through which the router hands
  packets to the tunnel: an implementation may drop a packet, but what it passes on are the packets it was
  given, unchanged, at most once each and in order. The QUIC client and the round-robin sink of the daemon
  provide it.
\<close>

locale packet_sink =
  fixes on_packet :: "u8 list \<Rightarrow> 's \<Rightarrow> 's"
    and sent :: "'s \<Rightarrow> u8 list list"
    and invar :: "'s \<Rightarrow> bool"
  assumes invar_step: "invar s \<Longrightarrow> invar (on_packet p s)"
    and sent_step: "invar s \<Longrightarrow> sent (on_packet p s) = sent s \<or> sent (on_packet p s) = sent s @ [p]"
begin

lemma deliver_all:
  "invar s \<Longrightarrow> invar (fold on_packet ps s) \<and>
     (\<exists>ds. sent (fold on_packet ps s) = sent s @ ds \<and> subseq ds ps)"
proof (induction ps arbitrary: s)
  case (Cons p ps)
  have inv: "invar (on_packet p s)" using Cons.prems by (rule invar_step)
  with Cons.IH obtain ds where "invar (fold on_packet ps (on_packet p s))"
    "sent (fold on_packet ps (on_packet p s)) = sent (on_packet p s) @ ds" "subseq ds ps" by blast
  moreover from sent_step [OF Cons.prems, of p] have "\<exists>d. sent (on_packet p s) = sent s @ d \<and> (d = [] \<or> d = [p])"
    by auto
  ultimately show ?case by auto
qed simp

lemma nothing_invented:
  assumes "invar s" "sent s = []"
  shows "subseq (sent (fold on_packet ps s)) ps"
  using deliver_all [OF assms(1), of ps] assms(2) by auto

end

end
