(* ===== verification/Registration.thy ===== *)
theory Registration
  imports Prelude
begin

text \<open>
  The credential parsers of \<^verbatim>\<open>src/tunnel/registration.cpp\<close> and the records of
  \<^verbatim>\<open>include/cfd/registration.hpp\<close>.

  Both parsers write into an output argument and return a flag, so the model returns the flag with the
  output, also on failure. An access outside the string or the sixteen-byte array would be \<open>Inl ()\<close>;
  \<^verbatim>\<open>s[s.size()]\<close> is the terminating NUL, which \<open>str_at\<close> keeps. \<open>uuid_canonical\<close> and \<open>b64_grammar\<close> are the
  languages the parsers should accept, \<open>b64_encode\<close> is the RFC 4648 encoder the decoder inverts.
\<close>

section \<open>Definitions\<close>

record tunnel_auth =
  account_tag :: string
  tunnel_secret :: "u8 list"

record register_request =
  auth :: tunnel_auth
  tunnel_uuid :: "u8 list"
  conn_index :: u8
  version :: string
  arch :: string
  features :: "string list"

record register_response =
  resp_ok :: bool
  assigned_uuid :: "u8 list"
  location_name :: string
  error_cause :: string
  retry_after_seconds :: "64 word"
  should_retry :: bool

definition register_request_init :: register_request where
  "register_request_init =
     \<lparr>auth = \<lparr>account_tag = [], tunnel_secret = []\<rparr>, tunnel_uuid = replicate 16 0, conn_index = 0,
      version = ''cfd-cpp/0.1.0'', arch = [], features = []\<rparr>"

definition register_response_init :: register_response where
  "register_response_init =
     \<lparr>resp_ok = False, assigned_uuid = replicate 16 0, location_name = [], error_cause = [],
      retry_after_seconds = 0, should_retry = False\<rparr>"

subsection \<open>UUID\<close>

definition str_at :: "string \<Rightarrow> nat \<Rightarrow> char option" where
  "str_at s i = (if i < length s then Some (s ! i) else if i = length s then Some (CHR 0x00) else None)"

definition hex_digit :: "char \<Rightarrow> u8 option" where
  "hex_digit c =
     (let n = char_code c in
      if 48 \<le> n \<and> n \<le> 57 then Some (of_nat (n - 48))
      else if 97 \<le> n \<and> n \<le> 102 then Some (of_nat (n - 97 + 10))
      else if 65 \<le> n \<and> n \<le> 70 then Some (of_nat (n - 65 + 10))
      else None)"

definition hex_byte :: "u8 \<Rightarrow> u8 \<Rightarrow> u8" where
  "hex_byte hi lo = push_bit 4 hi OR lo"

definition uuid_dashes :: "nat list" where
  "uuid_dashes = [8, 13, 18, 23]"

function uuid_loop :: "string \<Rightarrow> nat \<Rightarrow> nat \<Rightarrow> u8 list \<Rightarrow> unit + bool \<times> u8 list" where
  "uuid_loop s bi i out =
     (if \<not> i < 36 then Inr (bi = 16, out)
      else case str_at s i of
        None \<Rightarrow> Inl ()
      | Some c \<Rightarrow>
          if c = CHR ''-'' then uuid_loop s bi (i + 1) out
          else case hex_digit c of
            None \<Rightarrow> Inr (False, out)
          | Some hi \<Rightarrow>
             (case str_at s (i + 1) of
                None \<Rightarrow> Inl ()
              | Some d \<Rightarrow>
                 (case hex_digit d of
                    None \<Rightarrow> Inr (False, out)
                  | Some lo \<Rightarrow>
                      if bi < length out then uuid_loop s (bi + 1) (i + 2) (out[bi := hex_byte hi lo])
                      else Inl ())))"
  by pat_completeness auto
termination
  by (relation "measure (\<lambda>(s, bi, i, out). 36 - i)") auto

declare uuid_loop.simps [simp del]

definition parse_uuid :: "string \<Rightarrow> u8 list \<Rightarrow> unit + bool \<times> u8 list" where
  "parse_uuid s out =
     (if length s \<noteq> 36 then Inr (False, out)
      else if \<exists>d \<in> set uuid_dashes. str_at s d \<noteq> Some (CHR ''-'') then Inr (False, out)
      else uuid_loop s 0 0 out)"

definition uuid_canonical :: "string \<Rightarrow> bool" where
  "uuid_canonical s \<longleftrightarrow> length s = 36 \<and>
     (\<forall>i < 36. if i \<in> set uuid_dashes then s ! i = CHR ''-'' else hex_digit (s ! i) \<noteq> None)"

definition uuid_digits :: "string \<Rightarrow> u8 list" where
  "uuid_digits s = map (\<lambda>c. the (hex_digit c)) (filter (\<lambda>c. c \<noteq> CHR ''-'') s)"

text \<open>The pairs of hexadecimal digits of a text, skipping dashes between pairs.\<close>

fun hex_pairs :: "string \<Rightarrow> u8 list option" where
  "hex_pairs [] = Some []"
| "hex_pairs [c] = (if c = CHR ''-'' then Some [] else None)"
| "hex_pairs (c # d # cs) =
     (if c = CHR ''-'' then hex_pairs (d # cs)
      else case (hex_digit c, hex_digit d) of
        (Some hi, Some lo) \<Rightarrow> map_option ((#) (hex_byte hi lo)) (hex_pairs cs)
      | _ \<Rightarrow> None)"

subsection \<open>Base64\<close>

definition b64_alphabet :: string where
  "b64_alphabet = ''ABCDEFGHIJKLMNOPQRSTUVWXYZabcdefghijklmnopqrstuvwxyz0123456789+/''"

definition b64_tab :: "char \<Rightarrow> int" where
  "b64_tab c = (case find_char c b64_alphabet of Some n \<Rightarrow> int n | None \<Rightarrow> -1)"

text \<open>The inner loop over the four characters of a quartet; \<open>v\<close> holds the entries filled so far.\<close>

fun b64_quartet :: "bool \<Rightarrow> nat \<Rightarrow> string \<Rightarrow> int list \<Rightarrow> int list option" where
  "b64_quartet final k [] v = Some v"
| "b64_quartet final k (c # cs) v =
     (if c = CHR ''='' then
        (if \<not> final \<or> k < 2 then None else b64_quartet final (k + 1) cs (v @ [-2]))
      else let d = b64_tab c in
        if d < 0 then None
        else if k > 0 \<and> v ! (k - 1) = -2 then None
        else b64_quartet final (k + 1) cs (v @ [d]))"

definition b64_emit :: "int list \<Rightarrow> u8 list" where
  "b64_emit v =
     (let w = (\<lambda>k. word_of_int (v ! k) :: u32) in
      [ucast (push_bit 2 (w 0) OR drop_bit 4 (w 1))]
      @ (if v ! 2 \<noteq> -2 then [ucast (push_bit 4 (w 1 AND 0x0F) OR drop_bit 2 (w 2))] else [])
      @ (if v ! 3 \<noteq> -2 then [ucast (push_bit 6 (w 2 AND 0x03) OR w 3)] else []))"

function b64_loop :: "string \<Rightarrow> nat \<Rightarrow> u8 list \<Rightarrow> bool \<times> u8 list" where
  "b64_loop s i out =
     (if \<not> i < length s then (True, out)
      else case b64_quartet (i + 4 = length s) 0 (take 4 (drop i s)) [] of
        None \<Rightarrow> (False, out)
      | Some v \<Rightarrow> b64_loop s (i + 4) (out @ b64_emit v))"
  by pat_completeness auto
termination
  by (relation "measure (\<lambda>(s, i, out). length s - i)") auto

declare b64_loop.simps [simp del]

definition base64_decode :: "string \<Rightarrow> u8 list \<Rightarrow> bool \<times> u8 list" where
  "base64_decode s out = (if length s mod 4 \<noteq> 0 then (False, out) else b64_loop s 0 out)"

text \<open>The encoder of RFC 4648 with padding, the specification of what the decoder must invert.\<close>

definition b64_char :: "u8 \<Rightarrow> char" where
  "b64_char w = b64_alphabet ! unat w"

fun b64_encode :: "u8 list \<Rightarrow> string" where
  "b64_encode [] = []"
| "b64_encode [a] = [b64_char (drop_bit 2 a), b64_char (push_bit 4 (a AND 3)), CHR ''='', CHR ''='']"
| "b64_encode [a, b] = [b64_char (drop_bit 2 a), b64_char (push_bit 4 (a AND 3) OR drop_bit 4 b),
     b64_char (push_bit 2 (b AND 15)), CHR ''='']"
| "b64_encode (a # b # c # cs) =
     [b64_char (drop_bit 2 a), b64_char (push_bit 4 (a AND 3) OR drop_bit 4 b),
      b64_char (push_bit 2 (b AND 15) OR drop_bit 6 c), b64_char (c AND 63)] @ b64_encode cs"

text \<open>The accepted language: alphabet characters, then at most two padding characters, in quartets.\<close>

definition padded_text :: "string \<Rightarrow> bool" where
  "padded_text s \<longleftrightarrow> (\<exists>p \<le> 2. \<exists>d. s = d @ replicate p (CHR ''='') \<and> set d \<subseteq> set b64_alphabet)"

definition b64_grammar :: "string \<Rightarrow> bool" where
  "b64_grammar s \<longleftrightarrow> length s mod 4 = 0 \<and> padded_text s"

definition b64_pad :: "string \<Rightarrow> nat" where
  "b64_pad s = length (filter (\<lambda>c. c = CHR ''='') s)"

text \<open>The loop of the decoder over the characters still to read.\<close>

fun b64_rest :: "string \<Rightarrow> u8 list \<Rightarrow> bool \<times> u8 list" where
  "b64_rest (a # b # c # d # t) out =
     (case b64_quartet (t = []) 0 [a, b, c, d] [] of
        None \<Rightarrow> (False, out)
      | Some v \<Rightarrow> b64_rest t (out @ b64_emit v))"
| "b64_rest _ out = (True, out)"

section \<open>Lemmas\<close>

subsection \<open>UUID\<close>

lemma hex_digit_dash [simp]: "hex_digit (CHR ''-'') = None"
  by (simp add: hex_digit_def char_code_def)

lemma hex_digit_nul [simp]: "hex_digit (CHR 0x00) = None"
  by (simp add: hex_digit_def char_code_def)

lemma hex_pairs_facts:
  "hex_pairs t = Some bs \<Longrightarrow>
     length (filter (\<lambda>c. c \<noteq> CHR ''-'') t) = 2 * length bs \<and>
     (\<forall>c \<in> set t. c = CHR ''-'' \<or> hex_digit c \<noteq> None) \<and>
     (\<forall>k < length bs. bs ! k = hex_byte (uuid_digits t ! (2 * k)) (uuid_digits t ! (2 * k + 1)))"
proof (induction t arbitrary: bs rule: hex_pairs.induct)
  case (3 c d cs)
  show ?case
  proof (cases "c = CHR ''-''")
    case True
    then show ?thesis using "3.IH"(1) "3.prems" by (auto simp: uuid_digits_def)
  next
    case False
    then obtain hi lo bs' where h: "hex_digit c = Some hi" "hex_digit d = Some lo"
       "hex_pairs cs = Some bs'" "bs = hex_byte hi lo # bs'"
      using "3.prems" by (auto split: option.splits)
    then have "d \<noteq> CHR ''-''" by auto
    then have ds: "uuid_digits (c # d # cs) = hi # lo # uuid_digits cs"
      using False h by (simp add: uuid_digits_def)
    show ?thesis
      using "3.IH"(2) [OF False] False h \<open>d \<noteq> CHR ''-''\<close>
      unfolding ds by (auto simp: nth_Cons' less_Suc_eq_0_disj)
  qed
qed (auto split: if_splits)

lemma str_at_in: "i < length s \<Longrightarrow> str_at s i = Some (s ! i)"
  by (simp add: str_at_def)

text \<open>
  What the loop yields from position \<open>i\<close> with \<open>bi\<close> bytes written, and how it follows for each kind of position from what it
  yields further on.
\<close>

definition uuid_from :: "string \<Rightarrow> nat \<Rightarrow> nat \<Rightarrow> u8 list \<Rightarrow> bool" where
  "uuid_from s bi i out \<longleftrightarrow> (\<exists>ok out'. uuid_loop s bi i out = Inr (ok, out') \<and>
     (ok \<longleftrightarrow> (\<exists>bs. hex_pairs (drop i s) = Some bs \<and> bi + length bs = 16)) \<and>
     (\<forall>bs. hex_pairs (drop i s) = Some bs \<longrightarrow> out' = take bi out @ bs @ drop (bi + length bs) out))"

definition digits_from :: "string \<Rightarrow> nat \<Rightarrow> nat" where
  "digits_from s i = length (filter (\<lambda>c. c \<noteq> CHR ''-'') (drop i s))"

lemma drop_one: "i < length s \<Longrightarrow> drop i s = s ! i # drop (i + 1) s"
  by (simp add: Cons_nth_drop_Suc)

lemma drop_two: "i + 1 < length s \<Longrightarrow> drop i s = s ! i # s ! (i + 1) # drop (i + 2) s"
  by (simp add: Cons_nth_drop_Suc)

lemma uuid_from_end: "length s = 36 \<Longrightarrow> length out = 16 \<Longrightarrow> i = 36 \<Longrightarrow> digits_from s i + 2 * bi \<le> 32 \<Longrightarrow> uuid_from s bi i out"
  unfolding uuid_from_def by (subst uuid_loop.simps) auto

lemma uuid_from_dash:
  assumes "length s = 36" "i < 36" "s ! i = CHR ''-''" "uuid_from s bi (i + 1) out"
  shows "uuid_from s bi i out"
proof -
  have at1: "str_at s i = Some (s ! i)" using assms(1,2) by (simp add: str_at_in)
  have pairs: "hex_pairs (drop i s) = hex_pairs (drop (i + 1) s)"
    using assms(1,2) by (cases "drop (i + 1) s") (auto simp: drop_one assms(3))
  show ?thesis using assms(2,4) unfolding uuid_from_def pairs by (subst uuid_loop.simps) (simp add: at1 assms(3))
qed

lemma uuid_from_last:
  assumes "length s = 36" "i = 35" "s ! i \<noteq> CHR ''-''"
  shows "uuid_from s bi i out"
proof -
  have at: "str_at s i = Some (s ! i)" "str_at s (i + 1) = Some (CHR 0x00)" using assms by (simp_all add: str_at_def)
  have "drop i s = [s ! i]" using assms(1,2) drop_one [of i s] by simp
  then show ?thesis using assms at unfolding uuid_from_def
    by (subst uuid_loop.simps) (auto split: option.splits)
qed

lemma uuid_from_bad:
  assumes "length s = 36" "i < 35" "s ! i \<noteq> CHR ''-''" "hex_digit (s ! i) = None \<or> hex_digit (s ! (i + 1)) = None"
  shows "uuid_from s bi i out"
proof -
  have at: "str_at s i = Some (s ! i)" "str_at s (Suc i) = Some (s ! (i + 1))" using assms(1,2) by (simp_all add: str_at_in)
  have "drop i s = s ! i # s ! (i + 1) # drop (i + 2) s" using assms(1,2) by (simp add: drop_two)
  then show ?thesis using assms at unfolding uuid_from_def
    by (subst uuid_loop.simps) (auto split: option.splits)
qed

lemma uuid_from_pair:
  assumes "length s = 36" "length out = 16" "i < 35" "bi < 16" "s ! i \<noteq> CHR ''-''"
    and h: "hex_digit (s ! i) = Some hi" "hex_digit (s ! (i + 1)) = Some lo"
    and rest: "uuid_from s (bi + 1) (i + 2) (out[bi := hex_byte hi lo])"
  shows "uuid_from s bi i out"
proof -
  have at: "str_at s i = Some (s ! i)" "str_at s (Suc i) = Some (s ! (i + 1))" using assms(1,3) by (simp_all add: str_at_in)
  let ?o = "out[bi := hex_byte hi lo]"
  have step: "uuid_loop s bi i out = uuid_loop s (bi + 1) (i + 2) ?o"
    using assms(2-5) h at by (subst uuid_loop.simps) simp
  have hd: "take (Suc bi) ?o = take bi out @ [hex_byte hi lo]"
    using assms(2,4) by (simp add: take_Suc_conv_app_nth)
  have "drop i s = s ! i # s ! (i + 1) # drop (i + 2) s" using assms(1,3) by (simp add: drop_two)
  then have pairs: "hex_pairs (drop i s) = map_option ((#) (hex_byte hi lo)) (hex_pairs (drop (i + 2) s))"
    using assms(5) h by simp
  show ?thesis using rest unfolding uuid_from_def step pairs by (auto simp: hd)
qed

lemma uuid_loop_result:
  assumes s: "length s = 36" and o: "length out = 16" and i: "i \<le> 36" and room: "digits_from s i + 2 * bi \<le> 32"
  shows "uuid_from s bi i out"
  using o i room
proof (induction "36 - i" arbitrary: i bi out rule: less_induct)
  case less
  consider "i = 36" | "i < 36" "s ! i = CHR ''-''" | "i = 35" "s ! i \<noteq> CHR ''-''" |
    "i < 35" "s ! i \<noteq> CHR ''-''" "hex_digit (s ! i) = None \<or> hex_digit (s ! (i + 1)) = None" |
    hi lo where "i < 35" "s ! i \<noteq> CHR ''-''" "hex_digit (s ! i) = Some hi" "hex_digit (s ! (i + 1)) = Some lo"
    using less.prems(2) by fastforce
  then show ?case
  proof cases
    case 2
    have "digits_from s (i + 1) = digits_from s i" using s 2 by (simp add: digits_from_def drop_one)
    then have "uuid_from s bi (i + 1) out" using less 2 by simp
    then show ?thesis using uuid_from_dash [OF s 2] by blast
  next
    case 5
    then have "s ! (i + 1) \<noteq> CHR ''-''" by auto
    then have digits: "digits_from s i = digits_from s (i + 2) + 2"
      using 5 drop_two [of i s] s by (simp add: digits_from_def del: drop_Suc)
    then have "bi < 16" "uuid_from s (bi + 1) (i + 2) (out[bi := hex_byte hi lo])"
      using less 5 by auto
    then show ?thesis using uuid_from_pair [OF s less.prems(1) 5(1) _ 5(2-4)] by blast
  qed (use less.prems s in \<open>auto intro: uuid_from_end uuid_from_last uuid_from_bad\<close>)
qed

text \<open>Counting dashes: the four positions account for all of them as soon as 32 characters are digits.\<close>

lemma dash_count:
  assumes "length s = 36"
  shows "length (filter (\<lambda>c. c \<noteq> CHR ''-'') s) + card {i. i < 36 \<and> s ! i = CHR ''-''} = 36"
proof -
  have "length (filter (\<lambda>c. c = CHR ''-'') s) = card {i. i < 36 \<and> s ! i = CHR ''-''}"
    using assms by (simp add: length_filter_conv_card)
  moreover have "length (filter (\<lambda>c. c = CHR ''-'') s) + length (filter (\<lambda>c. c \<noteq> CHR ''-'') s) = 36"
    using assms sum_length_filter_compl [of "\<lambda>c. c = CHR ''-''" s] by simp
  ultimately show ?thesis by simp
qed

lemma dashes_at:
  assumes "length s = 36" "\<forall>d \<in> set uuid_dashes. s ! d = CHR ''-''"
  shows "length (filter (\<lambda>c. c \<noteq> CHR ''-'') s) \<le> 32"
    and "length (filter (\<lambda>c. c \<noteq> CHR ''-'') s) = 32 \<longleftrightarrow>
         (\<forall>i < 36. s ! i = CHR ''-'' \<longrightarrow> i \<in> set uuid_dashes)"
proof -
  let ?D = "{i. i < 36 \<and> s ! i = CHR ''-''}"
  have sub: "set uuid_dashes \<subseteq> ?D" using assms(2) by (auto simp: uuid_dashes_def)
  have fin: "finite ?D" by simp
  have c4: "card (set uuid_dashes) = 4" by (simp add: uuid_dashes_def)
  have le: "4 \<le> card ?D" using card_mono [OF fin sub] c4 by simp
  then show "length (filter (\<lambda>c. c \<noteq> CHR ''-'') s) \<le> 32" using dash_count [OF assms(1)] by simp
  have "length (filter (\<lambda>c. c \<noteq> CHR ''-'') s) = 32 \<longleftrightarrow> card ?D = 4"
    using dash_count [OF assms(1)] le by auto
  also have "\<dots> \<longleftrightarrow> set uuid_dashes = ?D"
  proof
    assume "card ?D = 4"
    then show "set uuid_dashes = ?D" by (intro card_subset_eq [OF fin sub]) (simp add: c4)
  next
    assume "set uuid_dashes = ?D"
    then show "card ?D = 4" using c4 by (simp only:)
  qed
  also have "\<dots> \<longleftrightarrow> ?D \<subseteq> set uuid_dashes" using sub by blast
  also have "\<dots> \<longleftrightarrow> (\<forall>i < 36. s ! i = CHR ''-'' \<longrightarrow> i \<in> set uuid_dashes)" by blast
  finally show "length (filter (\<lambda>c. c \<noteq> CHR ''-'') s) = 32 \<longleftrightarrow>
         (\<forall>i < 36. s ! i = CHR ''-'' \<longrightarrow> i \<in> set uuid_dashes)" .
qed

text \<open>An even run of digits is paired within itself, so the pairing restarts cleanly after a dash.\<close>

lemma hex_pairs_run:
  "\<lbrakk>even (length xs); \<forall>c \<in> set xs. hex_digit c \<noteq> None; hex_pairs t = Some bs\<rbrakk> \<Longrightarrow>
   \<exists>cs. hex_pairs (xs @ t) = Some (cs @ bs) \<and> length xs = 2 * length cs"
proof (induction xs rule: induct_list012)
  case (3 c d cs)
  then obtain hi lo where h: "hex_digit c = Some hi" "hex_digit d = Some lo" by auto
  then have nd: "c \<noteq> CHR ''-''" by auto
  obtain r where "hex_pairs (cs @ t) = Some (r @ bs)" "length cs = 2 * length r"
    using "3.IH"(1) "3.prems" by auto
  then show ?case using h nd by (auto intro!: exI [of _ "hex_byte hi lo # r"])
qed auto

lemma hex_pairs_dash: "hex_pairs (CHR ''-'' # t) = hex_pairs t"
  by (cases t) auto

lemma hex_pairs_segment:
  assumes b: "hex_pairs (drop b s) \<noteq> None" and le: "a \<le> b" "b \<le> length s" "even (b - a)"
    and digits: "\<And>i. a \<le> i \<Longrightarrow> i < b \<Longrightarrow> hex_digit (s ! i) \<noteq> None"
  shows "hex_pairs (drop a s) \<noteq> None"
proof -
  let ?xs = "take (b - a) (drop a s)"
  have "drop a s = ?xs @ drop b s"
    using le by (metis append_take_drop_id drop_drop le_add_diff_inverse2)
  moreover have "\<forall>c \<in> set ?xs. hex_digit c \<noteq> None"
    using digits le by (auto simp: in_set_conv_nth)
  moreover have "even (length ?xs)" using le by simp
  ultimately show ?thesis using hex_pairs_run [of ?xs "drop b s"] b by fastforce
qed

lemma hex_pairs_canonical:
  assumes "uuid_canonical s"
  shows "hex_pairs s \<noteq> None"
proof -
  have len: "length s = 36" using assms by (simp add: uuid_canonical_def)
  have dig: "hex_digit (s ! i) \<noteq> None" if "i < 36" "i \<notin> set uuid_dashes" for i
    using assms that by (simp add: uuid_canonical_def)
  have dash: "drop d s = CHR ''-'' # drop (d + 1) s" if "d < 36" "d \<in> set uuid_dashes" for d
    using assms that by (simp add: uuid_canonical_def Cons_nth_drop_Suc [symmetric])
  note seg = hex_pairs_segment [where s = s]
  have "hex_pairs (drop 24 s) \<noteq> None"
    by (rule seg [of 36]) (use dig in \<open>auto simp: len uuid_dashes_def\<close>)
  then have "hex_pairs (drop 23 s) \<noteq> None" using dash [of 23] by (simp add: hex_pairs_dash uuid_dashes_def)
  then have "hex_pairs (drop 19 s) \<noteq> None"
    by (rule seg) (use dig in \<open>auto simp: len uuid_dashes_def\<close>)
  then have "hex_pairs (drop 18 s) \<noteq> None" using dash [of 18] by (simp add: hex_pairs_dash uuid_dashes_def)
  then have "hex_pairs (drop 14 s) \<noteq> None"
    by (rule seg) (use dig in \<open>auto simp: len uuid_dashes_def\<close>)
  then have "hex_pairs (drop 13 s) \<noteq> None" using dash [of 13] by (simp add: hex_pairs_dash uuid_dashes_def)
  then have "hex_pairs (drop 9 s) \<noteq> None"
    by (rule seg) (use dig in \<open>auto simp: len uuid_dashes_def\<close>)
  then have "hex_pairs (drop 8 s) \<noteq> None" using dash [of 8] by (simp add: hex_pairs_dash uuid_dashes_def)
  then have "hex_pairs (drop 0 s) \<noteq> None"
    by (rule seg) (use dig in \<open>auto simp: len uuid_dashes_def\<close>)
  then show ?thesis by simp
qed

lemma canonical_dashes: "uuid_canonical s \<Longrightarrow> length s = 36 \<and> (\<forall>d \<in> set uuid_dashes. s ! d = CHR ''-'')"
  by (auto simp: uuid_canonical_def uuid_dashes_def)

lemma hex_pairs_iff_canonical:
  assumes len: "length s = 36" and d: "\<forall>d \<in> set uuid_dashes. s ! d = CHR ''-''"
  shows "(\<exists>bs. hex_pairs s = Some bs \<and> length bs = 16) \<longleftrightarrow> uuid_canonical s"
proof
  assume "\<exists>bs. hex_pairs s = Some bs \<and> length bs = 16"
  then obtain bs where bs: "hex_pairs s = Some bs" "length bs = 16" by blast
  then have "length (filter (\<lambda>c. c \<noteq> CHR ''-'') s) = 32"
    and ch: "\<forall>c \<in> set s. c = CHR ''-'' \<or> hex_digit c \<noteq> None"
    using hex_pairs_facts [OF bs(1)] by auto
  then have "\<forall>i < 36. s ! i = CHR ''-'' \<longrightarrow> i \<in> set uuid_dashes" using dashes_at(2) [OF len d] by simp
  then show "uuid_canonical s" using len d ch unfolding uuid_canonical_def
    by (metis nth_mem)
next
  assume c: "uuid_canonical s"
  then obtain bs where bs: "hex_pairs s = Some bs" using hex_pairs_canonical by auto
  have "\<forall>i < 36. s ! i = CHR ''-'' \<longrightarrow> i \<in> set uuid_dashes"
    using c unfolding uuid_canonical_def by (metis hex_digit_dash)
  then have "length (filter (\<lambda>c. c \<noteq> CHR ''-'') s) = 32" using dashes_at(2) [OF len d] by simp
  then show "\<exists>bs. hex_pairs s = Some bs \<and> length bs = 16" using bs hex_pairs_facts [OF bs] by auto
qed

lemma parse_uuid_spec:
  assumes "length out = 16"
  shows "\<exists>ok out'. parse_uuid s out = Inr (ok, out') \<and> (ok \<longleftrightarrow> uuid_canonical s) \<and>
     (ok \<longrightarrow> out' = map (\<lambda>k. hex_byte (uuid_digits s ! (2 * k)) (uuid_digits s ! (2 * k + 1))) [0..<16])"
proof (cases "length s = 36 \<and> (\<forall>d \<in> set uuid_dashes. s ! d = CHR ''-'')")
  case False
  then have "\<not> uuid_canonical s" using canonical_dashes by blast
  moreover have "parse_uuid s out = Inr (False, out)"
    using False by (auto simp: parse_uuid_def uuid_dashes_def str_at_def)
  ultimately show ?thesis by (intro exI [of _ False] exI [of _ out]) simp
next
  case True
  then have run: "parse_uuid s out = uuid_loop s 0 0 out"
    by (auto simp: parse_uuid_def uuid_dashes_def str_at_def)
  have "digits_from s 0 + 2 * 0 \<le> 32" using dashes_at(1) True by (simp add: digits_from_def)
  from uuid_loop_result [OF _ assms _ this] True have "uuid_from s 0 0 out" by auto
  then obtain ok out' where r: "uuid_loop s 0 0 out = Inr (ok, out')"
    "ok \<longleftrightarrow> (\<exists>bs. hex_pairs s = Some bs \<and> length bs = 16)"
    "\<forall>bs. hex_pairs s = Some bs \<longrightarrow> out' = bs @ drop (length bs) out" by (auto simp: uuid_from_def)
  have "out' = map (\<lambda>k. hex_byte (uuid_digits s ! (2 * k)) (uuid_digits s ! (2 * k + 1))) [0..<16]" if ok
  proof -
    from that r obtain bs where bs: "hex_pairs s = Some bs" "length bs = 16" by auto
    then have "out' = bs" using r assms by simp
    then show ?thesis using bs hex_pairs_facts [OF bs(1)] by (intro nth_equalityI) auto
  qed
  then show ?thesis using run r hex_pairs_iff_canonical True by auto
qed

text \<open>
  C19: for a sixteen-byte output array, \<open>parse_uuid\<close> never reads outside its string or writes outside the
  array; it accepts exactly the canonical 8-4-4-4-12 form with hexadecimal digits of either case, and on
  acceptance every output byte is the value of its two digits, most significant digit first.
\<close>

theorem parse_uuid_correct:
  assumes "length out = 16"
  shows "\<exists>ok out'. parse_uuid s out = Inr (ok, out') \<and> (ok \<longleftrightarrow> uuid_canonical s) \<and>
     (ok \<longrightarrow> out' = map (\<lambda>k. hex_byte (uuid_digits s ! (2 * k)) (uuid_digits s ! (2 * k + 1))) [0..<16])"
  using assms by (rule parse_uuid_spec)

lemma parse_uuid_correct_witness:
  "\<exists>out'. parse_uuid ''00112233-4455-6677-8899-aAbBcCdDeEfF'' (replicate 16 0) = Inr (True, out')
      \<and> out' ! 15 = 0xFF"
proof -
  have "uuid_canonical ''00112233-4455-6677-8899-aAbBcCdDeEfF''" by code_simp
  moreover have "hex_byte (uuid_digits ''00112233-4455-6677-8899-aAbBcCdDeEfF'' ! 30)
     (uuid_digits ''00112233-4455-6677-8899-aAbBcCdDeEfF'' ! 31) = 0xFF" by code_simp
  ultimately show ?thesis
    using parse_uuid_correct [of "replicate 16 0" "''00112233-4455-6677-8899-aAbBcCdDeEfF''"] by auto
qed

subsection \<open>Base64\<close>

lemma small_masks: "(3 :: 'a::len word) = mask 2" "(15 :: 'a::len word) = mask 4" "(63 :: 'a::len word) = mask 6"
  by (simp_all add: mask_eq_exp_minus_1)

lemma u8_eqI:
  fixes a b :: u8
  assumes "\<And>n. n \<in> {0, 1, 2, 3, 4, 5, 6, 7} \<Longrightarrow> bit a n = bit b n"
  shows "a = b"
proof (rule bit_word_eqI)
  fix n assume "n < LENGTH(8)"
  then have "n \<in> {0, 1, 2, 3, 4, 5, 6, 7}" by auto
  then show "bit a n = bit b n" by (rule assms)
qed

lemma u8_high: "8 \<le> n \<Longrightarrow> \<not> bit (w :: u8) n"
  by (auto dest: bit_imp_le_length)

lemma sextet_bound:
  fixes w :: u8
  assumes "\<And>n. 6 \<le> n \<Longrightarrow> \<not> bit w n"
  shows "unat w < 64"
proof -
  have "take_bit 6 w = w" by (rule bit_word_eqI) (use assms not_less in \<open>auto simp: bit_take_bit_iff\<close>)
  then have "unat w = take_bit 6 (unat w)" by (metis unsigned_take_bit_eq)
  then show ?thesis using take_bit_nat_less_exp [of 6 "unat w"] by simp
qed

lemma sextets:
  fixes a b c :: u8
  shows "unat (drop_bit 2 a) < 64" "unat (push_bit 4 (a AND 3)) < 64"
    "unat (push_bit 4 (a AND 3) OR drop_bit 4 b) < 64" "unat (push_bit 2 (b AND 15)) < 64"
    "unat (push_bit 2 (b AND 15) OR drop_bit 6 c) < 64" "unat (c AND 63) < 64"
  unfolding small_masks
  by (rule sextet_bound, auto simp: bit_simps dest: bit_imp_le_length)+

lemma quartet_bits:
  fixes a b c :: u8
  shows "ucast (push_bit 2 (ucast (drop_bit 2 a) :: u32) OR drop_bit 4 (ucast (push_bit 4 (a AND 3)) :: u32)) = a"
   "ucast (push_bit 2 (ucast (drop_bit 2 a) :: u32) OR drop_bit 4 (ucast (push_bit 4 (a AND 3) OR drop_bit 4 b) :: u32)) = a"
   "ucast (push_bit 4 ((ucast (push_bit 4 (a AND 3) OR drop_bit 4 b) :: u32) AND 15) OR
         drop_bit 2 (ucast (push_bit 2 (b AND 15)) :: u32)) = b"
   "ucast (push_bit 4 ((ucast (push_bit 4 (a AND 3) OR drop_bit 4 b) :: u32) AND 15) OR
         drop_bit 2 (ucast (push_bit 2 (b AND 15) OR drop_bit 6 c) :: u32)) = b"
   "ucast (push_bit 6 ((ucast (push_bit 2 (b AND 15) OR drop_bit 6 c) :: u32) AND 3) OR (ucast (c AND 63) :: u32)) = c"
  unfolding small_masks
  by (rule u8_eqI, elim insertE emptyE; simp add: bit_simps u8_high)+

lemma find_char_nth: "distinct xs \<Longrightarrow> n < length xs \<Longrightarrow> find_char (xs ! n) xs = Some n"
  by (induction xs arbitrary: n) (auto simp: nth_Cons split: nat.splits)

lemma b64_alphabet_facts: "length b64_alphabet = 64" "distinct b64_alphabet" "CHR ''='' \<notin> set b64_alphabet"
  by code_simp+

lemma b64_tab_char [simp]: "unat w < 64 \<Longrightarrow> b64_tab (b64_char w) = int (unat w)"
  by (simp add: b64_tab_def b64_char_def find_char_nth b64_alphabet_facts)

lemma b64_char_not_pad [simp]: "unat w < 64 \<Longrightarrow> b64_char w \<noteq> CHR ''=''"
  using b64_alphabet_facts unfolding b64_char_def by (metis nth_mem)

lemma b64_tab_cases: "(c \<in> set b64_alphabet \<and> 0 \<le> b64_tab c \<and> b64_tab c < 64) \<or> (c \<notin> set b64_alphabet \<and> b64_tab c = -1)"
proof (cases "find_char c b64_alphabet")
  case None
  then have "c \<notin> set b64_alphabet" by (simp add: find_char_None)
  then show ?thesis using None by (simp add: b64_tab_def)
next
  case (Some n)
  then have "n < 64 \<and> b64_alphabet ! n = c"
    using find_char_SomeD [OF Some] b64_alphabet_facts by simp
  then have "c \<in> set b64_alphabet" using b64_alphabet_facts(1) nth_mem by metis
  then show ?thesis using Some \<open>n < 64 \<and> _\<close> by (simp add: b64_tab_def)
qed

lemma b64_tab_neg: "b64_tab c < 0 \<longleftrightarrow> c \<notin> set b64_alphabet"
  using b64_tab_cases [of c] by auto

lemma b64_tab_not_pad: "b64_tab c \<noteq> -2"
  using b64_tab_cases [of c] by auto

lemma word_of_nat_unat: "of_nat (unat (w :: u8)) = (ucast w :: u32)"
  by simp

lemma b64_loop_rest:
  assumes "length t mod 4 = 0"
  shows "b64_loop (pre @ t) (length pre) out = b64_rest t out"
  using assms
proof (induction t out arbitrary: pre rule: b64_rest.induct)
  case (1 a b c d t out)
  have step: "b64_loop (pre @ a # b # c # d # t) (length pre) out =
     (case b64_quartet (t = []) 0 [a, b, c, d] [] of
        None \<Rightarrow> (False, out)
      | Some v \<Rightarrow> b64_loop (pre @ a # b # c # d # t) (length pre + 4) (out @ b64_emit v))"
    by (subst b64_loop.simps) (simp del: b64_quartet.simps add: add.commute cong: option.case_cong)
  have "length t mod 4 = 0" using 1(2) by simp
  moreover have "length pre + 4 = length (pre @ [a, b, c, d])" by simp
  ultimately have "b64_loop (pre @ a # b # c # d # t) (length pre + 4) (out @ b64_emit v) = b64_rest t (out @ b64_emit v)"
    if "b64_quartet (t = []) 0 [a, b, c, d] [] = Some v" for v
    using 1(1) [OF that, of "pre @ [a, b, c, d]"] by (simp only: append_assoc append.simps)
  then show ?case unfolding step by (auto split: option.split simp del: b64_quartet.simps)
qed (subst b64_loop.simps, simp)+

lemma base64_decode_rest:
  "base64_decode s out = (if length s mod 4 \<noteq> 0 then (False, out) else b64_rest s out)"
  using b64_loop_rest [of s "[]" out] by (simp add: base64_decode_def)

lemma length_b64_encode: "length (b64_encode bs) mod 4 = 0"
  by (induction bs rule: b64_encode.induct) auto

lemma b64_encode_Nil: "b64_encode bs = [] \<longleftrightarrow> bs = []"
  by (cases bs rule: b64_encode.cases) auto

lemma b64_quartet_chars:
  assumes "unat w < 64" "unat x < 64" "unat y < 64" "unat z < 64"
  shows "b64_quartet l 0 [b64_char w, b64_char x, b64_char y, b64_char z] []
           = Some [int (unat w), int (unat x), int (unat y), int (unat z)]"
    and "b64_quartet True 0 [b64_char w, b64_char x, b64_char y, CHR ''=''] []
           = Some [int (unat w), int (unat x), int (unat y), -2]"
    and "b64_quartet True 0 [b64_char w, b64_char x, CHR ''='', CHR ''=''] []
           = Some [int (unat w), int (unat x), -2, -2]"
proof -
  have "int (unat v) \<noteq> -2" "\<not> int (unat v) < 0" for v :: u8 by arith+
  then show "b64_quartet l 0 [b64_char w, b64_char x, b64_char y, b64_char z] []
           = Some [int (unat w), int (unat x), int (unat y), int (unat z)]"
    and "b64_quartet True 0 [b64_char w, b64_char x, b64_char y, CHR ''=''] []
           = Some [int (unat w), int (unat x), int (unat y), -2]"
    and "b64_quartet True 0 [b64_char w, b64_char x, CHR ''='', CHR ''=''] []
           = Some [int (unat w), int (unat x), -2, -2]"
    using assms by (simp_all add: Let_def del: of_nat_unat)
qed

lemma b64_emit_values:
  fixes w x y z :: u8
  shows
  "b64_emit [int (unat w), int (unat x), int (unat y), int (unat z)] =
     [ucast (push_bit 2 (ucast w) OR drop_bit 4 (ucast x) :: u32),
      ucast (push_bit 4 (ucast x AND 15) OR drop_bit 2 (ucast y) :: u32),
      ucast (push_bit 6 (ucast y AND 3) OR ucast z :: u32)]"
  "b64_emit [int (unat w), int (unat x), int (unat y), -2] =
     [ucast (push_bit 2 (ucast w) OR drop_bit 4 (ucast x) :: u32),
      ucast (push_bit 4 (ucast x AND 15) OR drop_bit 2 (ucast y) :: u32)]"
  "b64_emit [int (unat w), int (unat x), -2, -2] =
     [ucast (push_bit 2 (ucast w) OR drop_bit 4 (ucast x) :: u32)]"
proof -
  have "int (unat v) \<noteq> -2" for v :: u8 by arith
  then show "b64_emit [int (unat w), int (unat x), int (unat y), int (unat z)] =
     [ucast (push_bit 2 (ucast w) OR drop_bit 4 (ucast x) :: u32),
      ucast (push_bit 4 (ucast x AND 15) OR drop_bit 2 (ucast y) :: u32),
      ucast (push_bit 6 (ucast y AND 3) OR ucast z :: u32)]"
   and "b64_emit [int (unat w), int (unat x), int (unat y), -2] =
     [ucast (push_bit 2 (ucast w) OR drop_bit 4 (ucast x) :: u32),
      ucast (push_bit 4 (ucast x AND 15) OR drop_bit 2 (ucast y) :: u32)]"
   and "b64_emit [int (unat w), int (unat x), -2, -2] =
     [ucast (push_bit 2 (ucast w) OR drop_bit 4 (ucast x) :: u32)]"
    by (simp_all add: b64_emit_def Let_def word_of_nat_unat del: of_nat_unat)
qed

lemma b64_rest_encode: "b64_rest (b64_encode bs) out = (True, out @ bs)"
proof (induction bs arbitrary: out rule: b64_encode.induct)
  case (2 a)
  show ?case
    by (simp only: b64_encode.simps b64_rest.simps simp_thms option.case append.simps
       b64_quartet_chars(3) [OF sextets(1) sextets(2)  sextets(1) sextets(2)] b64_emit_values quartet_bits)
next
  case (3 a b)
  show ?case
    by (simp only: b64_encode.simps b64_rest.simps simp_thms option.case append.simps
       b64_quartet_chars(2) [OF sextets(1) sextets(3) sextets(4) sextets(1)] b64_emit_values quartet_bits)
next
  case (4 a b c cs)
  have "(out @ [a, b, c]) @ cs = out @ a # b # c # cs" by simp
  then show ?case
    by (simp only: b64_encode.simps b64_rest.simps option.case append.simps "4.IH"
       b64_quartet_chars(1) [OF sextets(1) sextets(3) sextets(5) sextets(6)] b64_emit_values quartet_bits)
qed simp

lemma b64_quartet_accept:
  "b64_quartet l 0 [a, b, c, d] [] = Some v \<Longrightarrow>
     length (b64_emit v) + length (filter (\<lambda>c. c = CHR ''='') [a, b, c, d]) = 3"
  using b64_tab_not_pad [of a] b64_tab_not_pad [of b] b64_tab_not_pad [of c] b64_tab_not_pad [of d]
  by (auto simp: Let_def b64_emit_def split: if_splits)

lemma b64_quartet_some:
  "b64_quartet l 0 [a, b, c, d] [] \<noteq> None \<longleftrightarrow>
     a \<in> set b64_alphabet \<and> b \<in> set b64_alphabet \<and>
     (c \<in> set b64_alphabet \<and> d \<in> set b64_alphabet \<or> l \<and> c \<in> set b64_alphabet \<and> d = CHR ''='' \<or>
      l \<and> c = CHR ''='' \<and> d = CHR ''='')"
  using b64_tab_not_pad [of a] b64_tab_not_pad [of b] b64_tab_not_pad [of c] b64_tab_not_pad [of d]
    b64_alphabet_facts(3)
  by (auto simp: Let_def b64_tab_neg split: if_splits)

lemma padded_text_Cons:
  assumes "2 \<le> length xs"
  shows "padded_text (x # xs) \<longleftrightarrow> x \<in> set b64_alphabet \<and> padded_text xs"
proof
  assume "padded_text (x # xs)"
  then obtain p d where p: "p \<le> 2" "x # xs = d @ replicate p (CHR ''='')" "set d \<subseteq> set b64_alphabet"
    unfolding padded_text_def by blast
  moreover have "d \<noteq> []" using p(1,2) assms by (auto dest: arg_cong [where f = length])
  ultimately show "x \<in> set b64_alphabet \<and> padded_text xs"
    unfolding padded_text_def by (cases d) auto
next
  assume "x \<in> set b64_alphabet \<and> padded_text xs"
  then obtain p d where "p \<le> 2" "xs = d @ replicate p (CHR ''='')" "set (x # d) \<subseteq> set b64_alphabet"
    unfolding padded_text_def by auto
  then show "padded_text (x # xs)" unfolding padded_text_def by (metis append_Cons)
qed

lemma padded_text_two:
  "padded_text [c, d] \<longleftrightarrow> c \<in> set b64_alphabet \<and> d \<in> set b64_alphabet \<or>
     c \<in> set b64_alphabet \<and> d = CHR ''='' \<or> c = CHR ''='' \<and> d = CHR ''=''" (is "_ \<longleftrightarrow> ?r")
proof
  assume "padded_text [c, d]"
  then obtain p e where e: "p \<le> 2" "[c, d] = e @ replicate p (CHR ''='')" "set e \<subseteq> set b64_alphabet"
    unfolding padded_text_def by blast
  from \<open>p \<le> 2\<close> consider "p = 0" | "p = 1" | "p = 2" by linarith
  then show ?r
  proof cases
    case 1
    then show ?thesis using e by auto
  next
    case 2
    then have "e @ [CHR ''=''] = [c, d]" using e by simp
    then show ?thesis using e(3) by (cases e) auto
  next
    case 3
    then have "e @ [CHR ''='', CHR ''=''] = [c, d]" using e by (simp add: numeral_2_eq_2)
    then show ?thesis by (cases e) auto
  qed
next
  have "replicate 2 (CHR ''='') = [CHR ''='', CHR ''='']" by (simp add: numeral_2_eq_2)
  moreover assume ?r
  ultimately have "\<exists>p \<in> {0, 1, 2}. \<exists>e. [c, d] = e @ replicate p (CHR ''='') \<and> set e \<subseteq> set b64_alphabet"
    by (elim disjE) (auto intro: exI [of _ "[c, d]"] exI [of _ "[c]"])
  moreover have "p \<in> {0, 1, 2} \<Longrightarrow> p \<le> 2" for p :: nat by auto
  ultimately show "padded_text [c, d]" unfolding padded_text_def by blast
qed

lemma b64_rest_accept:
  assumes "length t mod 4 = 0"
  shows "fst (b64_rest t out) \<longleftrightarrow> padded_text t"
  using assms
proof (induction t out rule: b64_rest.induct)
  case (1 a b c d t out)
  have t: "length t mod 4 = 0" using 1(2) by simp
  show ?case
  proof (cases "t = []")
    case True
    then show ?thesis using b64_quartet_some [of True a b c d]
      by (auto simp: padded_text_Cons padded_text_two simp del: b64_quartet.simps split: option.split)
  next
    case False
    then have "2 \<le> length t" using t by (cases t; cases "tl t") auto
    then have "padded_text (a # b # c # d # t) \<longleftrightarrow> b64_quartet False 0 [a, b, c, d] [] \<noteq> None \<and> padded_text t"
      unfolding b64_quartet_some by (auto simp: padded_text_Cons)
    then show ?thesis using 1(1) t False
      by (auto simp del: b64_quartet.simps split: option.split)
  qed
qed (auto simp: padded_text_def)

lemma b64_rest_length:
  "\<lbrakk>b64_rest t out = (True, out'); length t mod 4 = 0\<rbrakk> \<Longrightarrow>
   \<exists>ds. out' = out @ ds \<and> 4 * length ds + 4 * b64_pad t = 3 * length t"
proof (induction t out rule: b64_rest.induct)
  case (1 a b c d t out)
  then obtain v where v: "b64_quartet (t = []) 0 [a, b, c, d] [] = Some v"
    "b64_rest t (out @ b64_emit v) = (True, out')"
    by (auto simp del: b64_quartet.simps split: option.splits)
  have "length t mod 4 = 0" using "1.prems" by simp
  then obtain ds where ds: "out' = out @ b64_emit v @ ds" "4 * length ds + 4 * b64_pad t = 3 * length t"
    using "1.IH" [OF v] by auto
  have "b64_pad (a # b # c # d # t) = length (filter (\<lambda>c. c = CHR ''='') [a, b, c, d]) + b64_pad t"
    by (simp add: b64_pad_def)
  then show ?case using ds b64_quartet_accept [OF v(1)] by (intro exI [of _ "b64_emit v @ ds"]) simp
qed (auto simp: b64_pad_def)

text \<open>
  Decoding the padded RFC 4648 encoding of any byte sequence succeeds and appends exactly those
  bytes to the output vector, whatever it held before.
\<close>

theorem base64_roundtrip: "base64_decode (b64_encode bs) out = (True, out @ bs)"
  by (simp add: base64_decode_rest length_b64_encode b64_rest_encode)

text \<open>
  C18: \<open>base64_decode\<close> accepts exactly the texts whose length is a multiple of four and that consist of
  alphabet characters followed by at most two padding characters.
\<close>

theorem base64_accepts: "fst (base64_decode s out) \<longleftrightarrow> b64_grammar s"
  by (auto simp: base64_decode_rest b64_grammar_def b64_rest_accept)

text \<open>
  On success the output keeps what it held and grows by exactly three bytes per quartet less one
  per padding character.
\<close>

theorem base64_length:
  assumes "base64_decode s out = (True, out')"
  shows "\<exists>ds. out' = out @ ds \<and> 4 * length ds + 4 * b64_pad s = 3 * length s"
proof -
  have "b64_rest s out = (True, out')" "length s mod 4 = 0"
    using assms by (auto simp: base64_decode_rest split: if_splits)
  then show ?thesis by (rule b64_rest_length)
qed

lemma base64_length_witness:
  "\<exists>ds. snd (base64_decode ''QUJD'' [1]) = [1] @ ds \<and> 4 * length ds + 4 * b64_pad ''QUJD'' = 12"
proof -
  have "base64_decode (b64_encode [65, 66, 67]) [1] = (True, [1, 65, 66, 67])"
    by (simp add: base64_decode_rest length_b64_encode b64_rest_encode del: b64_rest.simps b64_encode.simps)
  moreover have "b64_encode [65, 66, 67] = ''QUJD''" by code_simp
  ultimately have d: "base64_decode ''QUJD'' [1] = (True, [1, 65, 66, 67])" by simp
  show ?thesis using base64_length [OF d] d by simp
qed

end
