(* ===== verification/Quic_Client.thy ===== *)
theory Quic_Client
  imports Quic_Handles Send_Ledger Frame Packet_Sink Registration
begin

text \<open>
  The QUIC client of \<^verbatim>\<open>include/cfd/quic_client.hpp\<close> and \<^verbatim>\<open>src/tunnel/quic_client.cpp\<close> (\<^verbatim>\<open>QuicClientImpl\<close> with
  msquic, and the facade).

  msquic's answers and the DNS lookup are arguments (\<open>connect_env\<close>, the events, whether a send is accepted). A
  client's state is its members plus the history that no branch reads: the datagrams accepted, the
  packets given to the inbound handler, the calls of the disconnect handler. \<open>connect\<close> is split where it
  blocks: \<open>connect_begin\<close> runs to \<^verbatim>\<open>ConnectionStart\<close>, the events that arrive are applied by \<open>on_conn_event\<close>, and
  \<open>connect_finish\<close> looks at the flags after the wait.
\<close>

section \<open>Definitions\<close>

subsection \<open>Configuration and credentials\<close>

record quic_config =
  q_edge_host :: string
  q_edge_port :: u16
  q_server_name :: string
  q_alpn :: string
  q_tunnel_id :: string
  q_account_tag :: string
  q_tunnel_secret :: "u8 list"
  q_ca_bundle_path :: string
  q_client_cert_path :: string
  q_client_key_path :: string

definition quic_config_init :: quic_config where
  "quic_config_init =
     \<lparr>q_edge_host = [], q_edge_port = 7844, q_server_name = ''quic.cftunnel.com'', q_alpn = ''argotunnel'',
      q_tunnel_id = [], q_account_tag = [], q_tunnel_secret = [], q_ca_bundle_path = [],
      q_client_cert_path = [], q_client_key_path = []\<rparr>"

text \<open>The path of the embedded CA: \<open>memfd\<close> and \<open>tmpfd\<close> are the descriptors the two calls return.\<close>

definition embedded_ca_path :: "int \<Rightarrow> int \<Rightarrow> string option" where
  "embedded_ca_path memfd tmpfd =
     (let path = (if memfd \<ge> 0 then take 47 (''/proc/self/fd/'' @ dec_string (nat memfd))
                  else if tmpfd \<ge> 0 then ''/tmp/cfd_cf_ca.pem'' else [])
      in if path \<noteq> [] then Some path else None)"

record credential =
  cr_client :: bool
  cr_builtin_validation :: bool
  cr_no_validation :: bool
  cr_set_ca :: bool
  cr_certificate :: "(string \<times> string) option"
  cr_ca_file :: "string option"

definition tls_credential :: "string option \<Rightarrow> quic_config \<Rightarrow> credential" where
  "tls_credential embedded cfg =
     (let cred = \<lparr>cr_client = True, cr_builtin_validation = True, cr_no_validation = False, cr_set_ca = False,
                  cr_certificate = None, cr_ca_file = None\<rparr>;
          cred = (if q_client_cert_path cfg \<noteq> [] \<and> q_client_key_path cfg \<noteq> []
                  then cred\<lparr>cr_certificate := Some (q_client_cert_path cfg, q_client_key_path cfg)\<rparr> else cred)
      in if q_ca_bundle_path cfg = ''INSECURE'' then cred\<lparr>cr_no_validation := True\<rparr>
         else let ca_path = (if q_ca_bundle_path cfg = [] then embedded else Some (q_ca_bundle_path cfg)) in
           case ca_path of
             Some p \<Rightarrow> cred\<lparr>cr_ca_file := Some p, cr_set_ca := True\<rparr>
           | None \<Rightarrow> cred)"

definition sni_name :: "quic_config \<Rightarrow> string" where
  "sni_name cfg = (if q_server_name cfg = [] then q_edge_host cfg else q_server_name cfg)"

definition kIdleTimeoutMs :: nat where "kIdleTimeoutMs = 30000"
definition kHandshakeTimeoutMs :: nat where "kHandshakeTimeoutMs = 10000"
definition kKeepAliveMs :: nat where "kKeepAliveMs = 5000"

text \<open>The settings the code fills in, all of them marked as set.\<close>

record quic_settings =
  st_idle_timeout :: nat
  st_handshake_idle_timeout :: nat
  st_keep_alive :: nat
  st_datagram_receive :: bool
  st_peer_bidi_streams :: nat

definition connect_settings :: quic_settings where
  "connect_settings = \<lparr>st_idle_timeout = kIdleTimeoutMs, st_handshake_idle_timeout = kHandshakeTimeoutMs,
     st_keep_alive = kKeepAliveMs, st_datagram_receive = True, st_peer_bidi_streams = 0\<rparr>"

subsection \<open>State\<close>

datatype errc = ProtocolError | HostUnreachable | ConnectionRefused | ConnectionAborted | NotConnected
  | NotSupported | PermissionDenied

record client =
  q_cfg :: quic_config
  api_held :: bool
  handshake_done :: bool
  handshake_ok :: bool
  disc_notified :: bool
  has_handler :: bool
  has_disc_handler :: bool
  h_registration :: "handle option"
  h_configuration :: "handle option"
  h_connection :: "handle option"
  sends :: "u8 list ledger"
  datagrams :: "u8 list list"
  inbound :: "u8 list list"
  disc_calls :: nat
  peer_streams :: "nat list"
  closed_streams :: "nat list"

definition client_init :: "quic_config \<Rightarrow> client" where
  "client_init cfg =
     \<lparr>q_cfg = cfg, api_held = False, handshake_done = False, handshake_ok = False, disc_notified = False,
      has_handler = False, has_disc_handler = False, h_registration = None, h_configuration = None,
      h_connection = None, sends = ledger_init, datagrams = [], inbound = [], disc_calls = 0,
      peer_streams = [], closed_streams = []\<rparr>"

subsection \<open>Connecting and closing\<close>

text \<open>
  The external calls of \<^verbatim>\<open>connect\<close>: which of them succeed, on what they are given. \<open>embedded_ca\<close> is the path
  \<open>embedded_ca_path\<close> returned.
\<close>

record connect_env =
  ok_api :: bool
  ok_registration :: bool
  ok_configuration :: "string \<Rightarrow> quic_settings \<Rightarrow> bool"
  embedded_ca :: "string option"
  ok_credential :: "credential \<Rightarrow> bool"
  ok_connection :: bool
  ok_resolve :: "string \<Rightarrow> u16 \<Rightarrow> bool"
  ok_start :: "string \<Rightarrow> u16 \<Rightarrow> bool"

text \<open>The remote address and the start of the open connection.\<close>

definition connect_start :: "connect_env \<Rightarrow> quic_config \<Rightarrow> errc option" where
  "connect_start env cfg =
     (let sni = sni_name cfg in
      if \<not> ok_resolve env (q_edge_host cfg) (q_edge_port cfg) then Some HostUnreachable
      else if \<not> ok_start env sni (q_edge_port cfg) then Some ConnectionRefused
      else None)"

definition connect_begin :: "connect_env \<Rightarrow> client \<Rightarrow> msquic \<Rightarrow> errc option \<times> client \<times> msquic" where
  "connect_begin env c m =
     (let c = c\<lparr>handshake_done := False, handshake_ok := False, disc_notified := False\<rparr>;
          (ok, c, m) =
            (if api_held c then (True, c, m)
             else let (ok, m) = api_table_init (ok_api env) m in (ok, if ok then c\<lparr>api_held := True\<rparr> else c, m))
      in if \<not> ok then (Some ProtocolError, c, m)
      else case open_handle HRegistration None (ok_registration env) m of
        (None, m) \<Rightarrow> (Some ProtocolError, c, m)
      | (Some reg, m) \<Rightarrow>
         (let m = reset_handle (h_registration c) m; c = c\<lparr>h_registration := Some reg\<rparr> in
          case open_handle HConfiguration (Some (fst reg)) (ok_configuration env (q_alpn (q_cfg c)) connect_settings) m of
            (None, m) \<Rightarrow> (Some ProtocolError, c, m)
          | (Some conf, m) \<Rightarrow>
             (let m = reset_handle (h_configuration c) m; c = c\<lparr>h_configuration := Some conf\<rparr> in
              if \<not> ok_credential env (tls_credential (embedded_ca env) (q_cfg c)) then (Some ProtocolError, c, m)
              else case open_handle HConnection (Some (fst reg)) (ok_connection env) m of
                (None, m) \<Rightarrow> (Some ProtocolError, c, m)
              | (Some conn, m) \<Rightarrow>
                 (let m = reset_handle (h_connection c) m; c = c\<lparr>h_connection := Some conn\<rparr> in
                  (connect_start env (q_cfg c), c, m)))))"

text \<open>
  The end of \<^verbatim>\<open>connect\<close>: it waits until \<^verbatim>\<open>handshake_done_\<close> or for 11 s, and then looks only at the other flag, as the events that came in the
  meantime have left it; how the wait ended makes no difference.
\<close>

definition connect_finish :: "client \<Rightarrow> errc option" where
  "connect_finish c = (if \<not> handshake_ok c then Some ConnectionAborted else None)"

definition quic_close :: "client \<Rightarrow> msquic \<Rightarrow> client \<times> msquic" where
  "quic_close c m =
     (let m = connection_shutdown (h_connection c) m;
          m = reset_handle (h_connection c) m; c = c\<lparr>h_connection := None\<rparr>;
          m = reset_handle (h_configuration c) m; c = c\<lparr>h_configuration := None\<rparr>;
          m = reset_handle (h_registration c) m; c = c\<lparr>h_registration := None\<rparr>
      in (c, m))"

definition quic_destroy :: "client \<Rightarrow> msquic \<Rightarrow> msquic" where
  "quic_destroy c m =
     (let (c, m) = quic_close c m in if api_held c then api_table_release m else m)"

subsection \<open>Sending\<close>

text \<open>\<open>accepted\<close> is whether \<^verbatim>\<open>DatagramSend\<close> succeeds; then msquic holds the context.\<close>

definition send_packet :: "bool \<Rightarrow> u8 list \<Rightarrow> client \<Rightarrow> client" where
  "send_packet accepted p c =
     (if h_connection c = None \<or> \<not> handshake_ok c then c
      else let bytes = fst (frame_encode \<lparr>frame_type = IpPacket, flow_id = 0, payload = p\<rparr> []);
               (raw, l) = ctx_release bytes (sends c)
        in if \<not> accepted then c\<lparr>sends := ctx_reclaim raw l\<rparr>
           else c\<lparr>sends := ctx_lend raw l, datagrams := datagrams c @ [bytes]\<rparr>)"

definition set_handler :: "bool \<Rightarrow> client \<Rightarrow> client" where
  "set_handler h c = c\<lparr>has_handler := h\<rparr>"

definition set_handler_disconnect :: "bool \<Rightarrow> client \<Rightarrow> client" where
  "set_handler_disconnect h c = c\<lparr>has_disc_handler := h\<rparr>"

subsection \<open>Events\<close>

datatype send_state = Sent | LostSuspect | LostDiscarded | Acknowledged | AcknowledgedSpurious | Canceled

datatype conn_event = Connected | ShutdownByTransport | ShutdownByPeer | ShutdownComplete
  | DatagramReceived "u8 list" | DatagramSendState send_state nat | PeerStreamStarted nat | OtherEvent

definition fire_disconnect :: "client \<Rightarrow> client" where
  "fire_disconnect c =
     (let c = c\<lparr>handshake_done := True\<rparr> in
      if handshake_ok c \<and> \<not> disc_notified c then
        let c = c\<lparr>disc_notified := True\<rparr> in
        if has_disc_handler c then c\<lparr>disc_calls := disc_calls c + 1\<rparr> else c
      else c)"

definition deliver_inbound :: "u8 list \<Rightarrow> client \<Rightarrow> client" where
  "deliver_inbound d c =
     (case frame_decode d of
        Inl _ \<Rightarrow> c
      | Inr None \<Rightarrow> c
      | Inr (Some dr) \<Rightarrow>
          if dr_type dr \<noteq> IpPacket then c
          else if has_handler c then c\<lparr>inbound := inbound c @ [dr_payload dr]\<rparr> else c)"

fun on_conn_event :: "conn_event \<Rightarrow> client \<Rightarrow> client" where
  "on_conn_event Connected c = c\<lparr>handshake_ok := True, handshake_done := True\<rparr>"
| "on_conn_event ShutdownByTransport c = fire_disconnect c"
| "on_conn_event ShutdownByPeer c = fire_disconnect c"
| "on_conn_event ShutdownComplete c = fire_disconnect c"
| "on_conn_event (DatagramReceived d) c = deliver_inbound d c"
| "on_conn_event (DatagramSendState st ctx) c =
     (if st = Sent \<or> st = Canceled then c\<lparr>sends := ctx_reclaim ctx (sends c)\<rparr> else c)"
| "on_conn_event (PeerStreamStarted st) c = c\<lparr>peer_streams := peer_streams c @ [st]\<rparr>"
| "on_conn_event OtherEvent c = c"

text \<open>
  The callback of a peer's stream, installed (and the stream aborted) by \<open>PeerStreamStarted\<close>: it closes the handle
  when the shutdown is complete.
\<close>

definition null_stream_event :: "bool \<Rightarrow> nat \<Rightarrow> client \<Rightarrow> client" where
  "null_stream_event complete st c =
     (if complete then c\<lparr>peer_streams := remove1 st (peer_streams c), closed_streams := closed_streams c @ [st]\<rparr> else c)"

subsection \<open>Registration\<close>

text \<open>
  The parameters of the call as the code fills them in, and the outcome of the RPC: an exception, or one of
  the two members of the result union.
\<close>

record register_call =
  rc_account_tag :: string
  rc_tunnel_secret :: "u8 list"
  rc_tunnel_id :: "u8 list"
  rc_conn_index :: u8
  rc_client_id :: "u8 list"
  rc_version :: string
  rc_arch :: string
  rc_features :: "string list"

definition register_params :: "register_request \<Rightarrow> register_call" where
  "register_params req =
     \<lparr>rc_account_tag = account_tag (auth req), rc_tunnel_secret = tunnel_secret (auth req),
      rc_tunnel_id = tunnel_uuid req, rc_conn_index = conn_index req, rc_client_id = tunnel_uuid req,
      rc_version = version req, rc_arch = arch req, rc_features = features req\<rparr>"

datatype rpc_outcome = RpcThrew | RpcDetails "u8 list" string | RpcError string "64 word" bool

text \<open>
  The control stream: the constructor of \<^verbatim>\<open>MsquicAsyncStream\<close> throws (no handle) when the stream cannot be
  opened or, after closing it, started; the destructor closes it.
\<close>

definition rpc_stream_open :: "bool \<Rightarrow> bool \<Rightarrow> nat \<Rightarrow> msquic \<Rightarrow> handle option \<times> msquic" where
  "rpc_stream_open ok_open ok_begin conn m =
     (case open_handle HStream (Some conn) ok_open m of
        (None, m) \<Rightarrow> (None, m)
      | (Some st, m) \<Rightarrow> if \<not> ok_begin then (None, reset_handle (Some st) m) else (Some st, m))"

definition register_connection ::
  "bool \<Rightarrow> bool \<Rightarrow> (register_call \<Rightarrow> rpc_outcome) \<Rightarrow> register_request \<Rightarrow> register_response \<Rightarrow> client \<Rightarrow> msquic \<Rightarrow>
   errc option \<times> register_response \<times> msquic" where
  "register_connection ok_open ok_begin rpc req resp c m =
     (case h_connection c of
        None \<Rightarrow> (Some NotConnected, resp, m)
      | Some conn \<Rightarrow>
     if \<not> handshake_ok c then (Some NotConnected, resp, m)
     else case rpc_stream_open ok_open ok_begin (fst conn) m of
        (None, m) \<Rightarrow> (Some ProtocolError, resp, m)
      | (Some st, m) \<Rightarrow>
         (let m = reset_handle (Some st) m in
          case rpc (register_params req) of
            RpcThrew \<Rightarrow> (Some ProtocolError, resp, m)
          | RpcDetails uid loc \<Rightarrow>
              (let resp = (if length uid = 16 then resp\<lparr>assigned_uuid := uid\<rparr> else resp) in
               (None, resp\<lparr>location_name := c_str loc, resp_ok := True\<rparr>, m))
          | RpcError cause retry again \<Rightarrow>
              (Some PermissionDenied, resp\<lparr>error_cause := c_str cause, retry_after_seconds := retry,
                 should_retry := again, resp_ok := False\<rparr>, m)))"

text \<open>
  Its course in milliseconds. The call is turned away when the client is not connected; an exception leaves it before there is a
  watchdog when the stream, the RPC system on it or the watchdog's thread cannot be set up; else the RPC runs, until
  by itself it is answered or throws, so many milliseconds after the start of the watchdog, or does neither.
\<close>

datatype rpc_end = Answered nat | Threw nat | Silent

datatype register_course = TurnedAway | NoStream | Talks rpc_end

text \<open>When the flag is set: after the answer, or by the deferred action while the exception leaves the scope.\<close>

fun flag_time :: "rpc_end \<Rightarrow> nat option" where
  "flag_time (Answered t) = Some t"
| "flag_time (Threw t) = Some t"
| "flag_time Silent = None"

text \<open>
  The watchdog sleeps the whole timeout, then aborts the stream unless the flag is set, which ends the RPC; the
  scope is left when the RPC has ended and the watchdog is joined. The result is whether it aborted the stream, and how long the call took.
\<close>

fun register_timeline :: "nat \<Rightarrow> register_course \<Rightarrow> bool \<times> nat" where
  "register_timeline timeout_ms TurnedAway = (False, 0)"
| "register_timeline timeout_ms NoStream = (False, 0)"
| "register_timeline timeout_ms (Talks e) =
     (let wakes = timeout_ms;
          flag_set = (case flag_time e of Some t \<Rightarrow> t \<le> wakes | None \<Rightarrow> False);
          aborted = (\<not> flag_set);
          rpc_over = (if aborted then wakes else the (flag_time e));
          joined = max rpc_over wakes
      in (aborted, joined))"

text \<open>Surroundings for the witnesses in which every call succeeds, but the DNS lookup only if \<open>dns\<close>.\<close>

definition answering :: "bool \<Rightarrow> connect_env" where
  "answering dns = \<lparr>ok_api = True, ok_registration = True, ok_configuration = (\<lambda>_ _. True), embedded_ca = None,
     ok_credential = (\<lambda>_. True), ok_connection = True, ok_resolve = (\<lambda>_ _. dns), ok_start = (\<lambda>_ _. True)\<rparr>"

subsection \<open>Specification\<close>

definition quic_idle :: "client \<Rightarrow> bool" where
  "quic_idle c \<longleftrightarrow> h_registration c = None \<and> h_configuration c = None \<and> h_connection c = None"

text \<open>Whether a shutdown event comes after the handshake succeeded.\<close>

fun drops :: "bool \<Rightarrow> conn_event list \<Rightarrow> bool" where
  "drops ok [] = False"
| "drops ok (e # es) =
     (if e = Connected then drops True es
      else (ok \<and> e \<in> {ShutdownByTransport, ShutdownByPeer, ShutdownComplete}) \<or> drops ok es)"

text \<open>
  The contract of msquic's events: it completes only datagrams it holds and hands over each peer stream once; the
  stream callback is called for streams not yet closed. A datagram reported as sent or as canceled is msquic's no longer
  (\<open>hands_back\<close>, before the callback runs); the other states follow later and say nothing of the context.
\<close>

definition event_legal :: "conn_event \<Rightarrow> client \<Rightarrow> bool" where
  "event_legal e c \<longleftrightarrow>
     (case e of
        DatagramSendState st ctx \<Rightarrow> st \<in> {Sent, Canceled} \<longrightarrow> ctx \<in> loaned (sends c)
      | PeerStreamStarted st \<Rightarrow> st \<notin> set (peer_streams c) \<union> set (closed_streams c)
      | _ \<Rightarrow> True)"

fun hands_back :: "conn_event \<Rightarrow> client \<Rightarrow> client" where
  "hands_back (DatagramSendState Sent ctx) c = c\<lparr>sends := ctx_return ctx (sends c)\<rparr>"
| "hands_back (DatagramSendState Canceled ctx) c = c\<lparr>sends := ctx_return ctx (sends c)\<rparr>"
| "hands_back e c = c"

inductive client_step :: "client \<Rightarrow> client \<Rightarrow> bool" where
  connecting: "connect_begin env c m = (r, c1, m1) \<Longrightarrow> client_step c c1"
| closing: "quic_close c m = (c1, m1) \<Longrightarrow> client_step c c1"
| send: "client_step c (send_packet accepted p c)"
| event: "event_legal e c \<Longrightarrow> client_step c (on_conn_event e (hands_back e c))"
| stream_event: "st \<in> set (peer_streams c) \<Longrightarrow> client_step c (null_stream_event complete st c)"
| handlers: "client_step c (set_handler h (set_handler_disconnect d c))"

text \<open>The packets inside the datagrams the connection accepted.\<close>

definition packets_sent :: "client \<Rightarrow> u8 list list" where
  "packets_sent c = map (drop kFrameHeader) (datagrams c)"

definition quic_on_packet :: "(u8 list \<Rightarrow> client \<Rightarrow> bool) \<Rightarrow> u8 list \<Rightarrow> client \<Rightarrow> client" where
  "quic_on_packet accepts p c = send_packet (accepts p c) p c"

text \<open>What \<open>connect_begin\<close> leaves open, as a list of entries under the next free identifier.\<close>

definition connect_entries :: "nat \<Rightarrow> client \<Rightarrow> (nat \<times> handle_kind \<times> nat option) list" where
  "connect_entries n c =
     (case h_registration c of None \<Rightarrow> [] | Some r \<Rightarrow> [(n, HRegistration, None)])
     @ (case h_configuration c of None \<Rightarrow> [] | Some r \<Rightarrow> [(Suc n, HConfiguration, Some n)])
     @ (case h_connection c of None \<Rightarrow> [] | Some r \<Rightarrow> [(Suc (Suc n), HConnection, Some n)])"

definition connect_shape :: "nat \<Rightarrow> client \<Rightarrow> bool" where
  "connect_shape n c \<longleftrightarrow>
     (h_registration c = None \<or> h_registration c = Some (n, HRegistration)) \<and>
     (h_configuration c = None \<or> h_configuration c = Some (Suc n, HConfiguration) \<and> h_registration c \<noteq> None) \<and>
     (h_connection c = None \<or> h_connection c = Some (Suc (Suc n), HConnection) \<and> h_configuration c \<noteq> None)"

text \<open>The connection a client has, as a list.\<close>

definition connection_ids :: "client \<Rightarrow> nat list" where
  "connection_ids c = (case h_connection c of None \<Rightarrow> [] | Some h \<Rightarrow> [fst h])"

section \<open>Lemmas\<close>

inductive_cases client_stepE: "client_step c c'"

subsection \<open>Handles\<close>

lemma handle_delete_last:
  assumes "table m" "opened m = xs @ [(h, k, p)]" "p \<noteq> Some h" "\<forall>(i, k', q) \<in> set xs. i \<noteq> h \<and> q \<noteq> Some h"
  shows "handle_delete (h, k) m = m\<lparr>opened := xs\<rparr>"
proof -
  have "filter (\<lambda>(i, k', q). i \<noteq> h) xs = xs" using assms(4) by (auto simp: filter_id_conv)
  then show ?thesis using assms by (auto simp: handle_delete_close close_call_def)
qed

lemma connect_begin_result:
  assumes "quic_idle c" "connect_begin env c m = (r, c1, m1)"
  shows "connect_shape (next_handle m) c1 \<and> opened m1 = opened m @ connect_entries (next_handle m) c1 \<and>
     misuse m1 = misuse m \<and> shut_down m1 = shut_down m \<and> (r = None \<longrightarrow> h_connection c1 \<noteq> None)"
  using assms
  by (auto simp: connect_begin_def api_table_init_def open_handle_def reset_handle_def quic_idle_def
      connect_shape_def connect_entries_def Let_def split: if_splits)

lemma connect_begin_table:
  assumes "connect_begin env c m = (r, c1, m1)" "quic_idle c" "msquic_ok m" "api_held c \<longrightarrow> table m"
  shows "(api_held c1 \<longrightarrow> table m1) \<and> (api_held c1 \<or> h_registration c1 = None) \<and>
     refcount m1 = refcount m + (if api_held c1 \<and> \<not> api_held c then 1 else 0) \<and>
     (table m1 \<longleftrightarrow> 0 < refcount m1) \<and> next_handle m \<le> next_handle m1"
  using assms
  by (auto simp: connect_begin_def api_table_init_def open_handle_def reset_handle_def quic_idle_def msquic_ok_def
      Let_def split: if_splits)

lemma old_entries_fresh:
  assumes "msquic_ok m" "next_handle m \<le> h"
  shows "\<forall>(i, k, q) \<in> set (opened m). i \<noteq> h \<and> q \<noteq> Some h"
  using assms unfolding msquic_ok_def by fastforce

lemma quic_close_result:
  assumes shape: "connect_shape n c1" and m1: "table m1 \<or> h_registration c1 = None"
    "opened m1 = old @ connect_entries n c1"
    and old: "\<And>h. n \<le> h \<Longrightarrow> \<forall>(i, k, q) \<in> set old. i \<noteq> h \<and> q \<noteq> Some h"
  shows "quic_close c1 m1 =
     (c1\<lparr>h_connection := None, h_configuration := None, h_registration := None\<rparr>,
      m1\<lparr>opened := old, shut_down := shut_down m1 @ connection_ids c1\<rparr>)"
proof -
  consider (none) "h_registration c1 = None" "h_configuration c1 = None" "h_connection c1 = None"
    | (reg) "h_registration c1 = Some (n, HRegistration)" "h_configuration c1 = None" "h_connection c1 = None"
    | (conf) "h_registration c1 = Some (n, HRegistration)" "h_configuration c1 = Some (Suc n, HConfiguration)"
        "h_connection c1 = None"
    | (all) "h_registration c1 = Some (n, HRegistration)" "h_configuration c1 = Some (Suc n, HConfiguration)"
        "h_connection c1 = Some (Suc (Suc n), HConnection)"
    using shape unfolding connect_shape_def by auto
  then show ?thesis
  proof cases
    case none
    then show ?thesis using m1 by (simp add: quic_close_def reset_handle_def connect_entries_def connection_shutdown_def connection_ids_def)
  next
    case reg
    then have "handle_delete (n, HRegistration) m1 = m1\<lparr>opened := old\<rparr>"
      using m1 old [of n] by (intro handle_delete_last) (auto simp: connect_entries_def)
    then show ?thesis using reg by (simp add: quic_close_def reset_handle_def connection_shutdown_def connection_ids_def)
  next
    case conf
    let ?r = "(n, HRegistration, None :: nat option)"
    have 1: "handle_delete (Suc n, HConfiguration) m1 = m1\<lparr>opened := old @ [?r]\<rparr>"
      using conf m1 old [of "Suc n"] by (intro handle_delete_last) (auto simp: connect_entries_def)
    have 2: "handle_delete (n, HRegistration) (m1\<lparr>opened := old @ [?r]\<rparr>) = m1\<lparr>opened := old\<rparr>"
      using conf m1 old [of n] handle_delete_last [of "m1\<lparr>opened := old @ [?r]\<rparr>" old n HRegistration None] by auto
    show ?thesis using conf 1 2 by (simp add: quic_close_def reset_handle_def connection_shutdown_def connection_ids_def)
  next
    case all
    let ?r = "(n, HRegistration, None :: nat option)" and ?f = "(Suc n, HConfiguration, Some n)"
    let ?m = "m1\<lparr>shut_down := shut_down m1 @ [Suc (Suc n)]\<rparr>"
    have 0: "connection_shutdown (Some (Suc (Suc n), HConnection)) m1 = ?m"
      using all m1 by (auto simp: connection_shutdown_def connect_entries_def)
    have 1: "handle_delete (Suc (Suc n), HConnection) ?m = ?m\<lparr>opened := old @ [?r, ?f]\<rparr>"
      using all m1 old [of "Suc (Suc n)"] by (intro handle_delete_last) (auto simp: connect_entries_def)
    have 2: "handle_delete (Suc n, HConfiguration) (?m\<lparr>opened := old @ [?r, ?f]\<rparr>) = ?m\<lparr>opened := old @ [?r]\<rparr>"
      using all m1 old [of "Suc n"]
        handle_delete_last [of "?m\<lparr>opened := old @ [?r, ?f]\<rparr>" "old @ [?r]" "Suc n" HConfiguration "Some n"] by auto
    have 3: "handle_delete (n, HRegistration) (?m\<lparr>opened := old @ [?r]\<rparr>) = ?m\<lparr>opened := old\<rparr>"
      using all m1 old [of n] handle_delete_last [of "?m\<lparr>opened := old @ [?r]\<rparr>" old n HRegistration None] by auto
    show ?thesis using all 1 2 3 by (simp add: quic_close_def reset_handle_def 0 connection_ids_def)
  qed
qed

lemma connect_close:
  assumes "quic_idle c" "msquic_ok m" "api_held c \<longrightarrow> table m" "connect_begin env c m = (r, c1, m1)"
  shows "quic_close c1 m1 =
     (c1\<lparr>h_connection := None, h_configuration := None, h_registration := None\<rparr>,
      m1\<lparr>opened := opened m, shut_down := shut_down m1 @ connection_ids c1\<rparr>)"
proof (rule quic_close_result)
  show "connect_shape (next_handle m) c1" "opened m1 = opened m @ connect_entries (next_handle m) c1"
    using connect_begin_result [OF assms(1,4)] by auto
  show "table m1 \<or> h_registration c1 = None" using connect_begin_table [OF assms(4,1,2,3)] by auto
  show "\<forall>(i, k, q) \<in> set (opened m). i \<noteq> h \<and> q \<noteq> Some h" if "next_handle m \<le> h" for h
    using old_entries_fresh [OF assms(2) that] .
qed

lemma rpc_stream_balanced:
  assumes "msquic_ok m" "table m" "conn < next_handle m"
  shows "case rpc_stream_open ok_open ok_begin conn m of
     (None, m') \<Rightarrow> opened m' = opened m \<and> misuse m' = misuse m \<and> \<not> (ok_open \<and> ok_begin)
   | (Some st, m') \<Rightarrow> opened (handle_delete st m') = opened m \<and> misuse (handle_delete st m') = misuse m \<and> ok_open \<and> ok_begin"
proof (cases ok_open)
  case True
  let ?m = "m\<lparr>opened := opened m @ [(next_handle m, HStream, Some conn)], next_handle := Suc (next_handle m)\<rparr>"
  have "handle_delete (next_handle m, HStream) ?m = ?m\<lparr>opened := opened m\<rparr>"
    using assms(2,3) old_entries_fresh [OF assms(1), of "next_handle m"] by (intro handle_delete_last) auto
  then show ?thesis using True by (simp add: rpc_stream_open_def open_handle_def reset_handle_def)
qed (simp add: rpc_stream_open_def open_handle_def)

subsection \<open>Events\<close>

lemma disc_calls_run:
  assumes "disc_notified c = False"
  shows "disc_calls (fold on_conn_event es c) = disc_calls c + (if has_disc_handler c \<and> drops (handshake_ok c) es then 1 else 0)"
proof -
  have quiet: "disc_calls (fold on_conn_event es d) = disc_calls d" if "disc_notified d" for es d
    using that
  proof (induction es arbitrary: d)
    case (Cons e es)
    then show ?case
      by (cases e) (auto simp: fire_disconnect_def deliver_inbound_def Let_def split: sum.split option.split)
  qed simp
  show ?thesis using assms
  proof (induction es arbitrary: c)
    case (Cons e es)
    show ?case
    proof (cases "e \<in> {ShutdownByTransport, ShutdownByPeer, ShutdownComplete}")
      case True
      then have e: "on_conn_event e c = fire_disconnect c" "e \<noteq> Connected" by auto
      show ?thesis
        using True e(2) Cons quiet [of "fire_disconnect c" es]
        by (auto simp: e(1) fire_disconnect_def Let_def)
    next
      case False
      then have "disc_notified (on_conn_event e c) = disc_notified c" "has_disc_handler (on_conn_event e c) = has_disc_handler c"
        "disc_calls (on_conn_event e c) = disc_calls c" "handshake_ok (on_conn_event e c) = (e = Connected \<or> handshake_ok c)"
        by (cases e; auto simp: deliver_inbound_def split: sum.split option.split)+
      then show ?thesis using Cons False by auto
    qed
  qed simp
qed

lemma handshake_run: "handshake_ok (fold on_conn_event es c) \<longleftrightarrow> handshake_ok c \<or> Connected \<in> set es"
proof (induction es arbitrary: c)
  case (Cons e es)
  have "handshake_ok (on_conn_event e c) \<longleftrightarrow> e = Connected \<or> handshake_ok c"
    by (cases e) (auto simp: fire_disconnect_def deliver_inbound_def Let_def split: sum.split option.split)
  then show ?case using Cons by auto
qed simp

subsection \<open>Datagrams\<close>

lemma send_packet_ledger: "ledger_ok (sends c) \<Longrightarrow> ledger_ok (sends (send_packet accepted p c))"
  using ctx_release_lend [of "sends c"] ctx_release_reclaim [of "sends c"]
  by (auto simp: send_packet_def Let_def split_beta ctx_release_fields)

lemma hands_back_keeps:
  "peer_streams (hands_back e c) = peer_streams c" "closed_streams (hands_back e c) = closed_streams c"
  by (induction e c rule: hands_back.induct) simp_all

lemma connect_begin_keeps:
  assumes "connect_begin env c m = (r, c1, m1)"
  shows "sends c1 = sends c \<and> peer_streams c1 = peer_streams c \<and> closed_streams c1 = closed_streams c"
  using assms by (auto simp: connect_begin_def Let_def split: if_splits prod.splits option.splits)

lemma quic_close_keeps:
  assumes "quic_close c m = (c1, m1)"
  shows "sends c1 = sends c \<and> peer_streams c1 = peer_streams c \<and> closed_streams c1 = closed_streams c"
  using assms by (auto simp: quic_close_def Let_def)

lemma client_step_ledger: "client_step c c' \<Longrightarrow> ledger_ok (sends c) \<Longrightarrow> ledger_ok (sends c')"
proof (erule client_stepE)
  fix e
  assume "event_legal e c" "c' = on_conn_event e (hands_back e c)" "ledger_ok (sends c)"
  then show "ledger_ok (sends c')"
    by (induction e c rule: hands_back.induct)
      (auto simp: event_legal_def fire_disconnect_def deliver_inbound_def Let_def ctx_return_reclaim
        split: sum.split option.split)
qed (auto simp: send_packet_ledger set_handler_def set_handler_disconnect_def null_stream_event_def
      dest: connect_begin_keeps quic_close_keeps)

lemma client_step_streams:
  "client_step c c' \<Longrightarrow> distinct (peer_streams c @ closed_streams c) \<Longrightarrow> distinct (peer_streams c' @ closed_streams c')"
proof (erule client_stepE)
  fix e
  assume "event_legal e c" "c' = on_conn_event e (hands_back e c)" "distinct (peer_streams c @ closed_streams c)"
  then show "distinct (peer_streams c' @ closed_streams c')"
    by (cases e) (auto simp: event_legal_def fire_disconnect_def deliver_inbound_def Let_def hands_back_keeps
        split: sum.split option.split)
qed (simp_all add: connect_begin_keeps quic_close_keeps,
    (auto simp: send_packet_def set_handler_def set_handler_disconnect_def null_stream_event_def Let_def split_beta
      set_remove1_eq distinct_remove1)[3])

lemma client_steps_streams:
  assumes "client_step\<^sup>*\<^sup>* c c'" "distinct (peer_streams c @ closed_streams c)"
  shows "distinct (peer_streams c' @ closed_streams c')"
  using assms by (induction rule: rtranclp_induct) (blast intro: client_step_streams)+

lemma client_steps_ledger: "client_step\<^sup>*\<^sup>* c c' \<Longrightarrow> ledger_ok (sends c) \<Longrightarrow> ledger_ok (sends c')"
  by (induction rule: rtranclp_induct) (auto intro: client_step_ledger)

lemma send_packet_sent:
  "packets_sent (send_packet accepted p c) =
     packets_sent c @ (if h_connection c \<noteq> None \<and> handshake_ok c \<and> accepted then [p] else [])"
  by (auto simp: send_packet_def packets_sent_def frame_encode_bytes kFrameHeader_def Let_def split_beta)

interpretation quic_sink: packet_sink "quic_on_packet accepts" packets_sent "\<lambda>c. ledger_ok (sends c)" for accepts
  by unfold_locales (auto simp: quic_on_packet_def send_packet_sent send_packet_ledger)

lemma deliver_sent:
  "deliver_inbound (fst (frame_encode \<lparr>frame_type = IpPacket, flow_id = 0, payload = p\<rparr> [])) c =
     (if has_handler c then c\<lparr>inbound := inbound c @ [p]\<rparr> else c)"
  by (simp add: deliver_inbound_def frame_decode_encode frame_result_def)

section \<open>Properties\<close>

text \<open>
  C5: whichever call of \<^verbatim>\<open>connect\<close> fails, and also when none does, closing the client afterwards leaves exactly
  the handles open that were open before: each one opened is closed once, with the Close function of its
  kind, children before the registration; a connection that was opened is told to shut down first; the table keeps one more holder exactly when the client first
  acquired it.
\<close>

theorem quic_connect_close_balanced:
  assumes "quic_idle c" and "msquic_ok m" and "api_held c \<longrightarrow> table m"
    and "connect_begin env c m = (r, c1, m1)"
  shows "case quic_close c1 m1 of (c2, m2) \<Rightarrow>
     quic_idle c2 \<and> opened m2 = opened m \<and> \<not> misuse m2 \<and>
     refcount m2 = refcount m + (if api_held c2 \<and> \<not> api_held c then 1 else 0) \<and>
     shut_down m2 = shut_down m @ connection_ids c1 \<and>
     (r = None \<longrightarrow> h_connection c1 \<noteq> None)"
  using connect_close [OF assms] connect_begin_result [OF assms(1,4)] connect_begin_table [OF assms(4,1,2,3)] assms(2)
  by (simp add: quic_idle_def msquic_ok_def)

lemma quic_connect_close_balanced_witness:
  "\<exists>r c1 m1. connect_begin (answering False) (client_init quic_config_init) msquic_init = (r, c1, m1) \<and>
     length (opened m1) = 3 \<and> opened (snd (quic_close c1 m1)) = []"
proof -
  let ?env = "answering False"
  obtain r c1 m1 where run: "connect_begin ?env (client_init quic_config_init) msquic_init = (r, c1, m1)"
    by (cases "connect_begin ?env (client_init quic_config_init) msquic_init")
  have "length (opened m1) = 3" using run
    by (auto simp: connect_begin_def connect_start_def answering_def client_init_def msquic_init_def api_table_init_def open_handle_def reset_handle_def Let_def)
  moreover have "quic_idle (client_init quic_config_init)" "msquic_ok msquic_init"
    "api_held (client_init quic_config_init) \<longrightarrow> table msquic_init"
    by (simp_all add: quic_idle_def client_init_def msquic_ok_def msquic_init_def)
  note quic_connect_close_balanced [OF this run]
  ultimately show ?thesis using run by (intro exI [of _ r] exI [of _ c1] exI [of _ m1]) (auto simp: msquic_init_def)
qed

text \<open>
  C21: after \<^verbatim>\<open>connect\<close> has started the connection, whatever events arrive in whatever order, it reports success
  exactly when the handshake completed among them, and the disconnect handler is called at most once: exactly
  when one is set and a shutdown event comes after the handshake.
\<close>

theorem quic_handshake_and_disconnect:
  assumes "connect_begin env c m = (None, c1, m1)"
  shows "(connect_finish (fold on_conn_event es c1) = None \<longleftrightarrow> Connected \<in> set es) \<and>
     disc_calls (fold on_conn_event es c1) =
       disc_calls c + (if has_disc_handler c \<and> drops False es then 1 else 0)"
proof -
  have flags: "\<not> handshake_ok c1" "disc_notified c1 = False" "has_disc_handler c1 = has_disc_handler c"
    "disc_calls c1 = disc_calls c"
    using assms by (auto simp: connect_begin_def Let_def split: if_splits prod.splits option.splits)
  show ?thesis
    using handshake_run [of es c1] disc_calls_run [OF flags(2), of es] flags by (simp add: connect_finish_def)
qed

lemma quic_handshake_and_disconnect_witness:
  "\<exists>c1 m1. connect_begin (answering True)
      (set_handler_disconnect True (client_init quic_config_init)) msquic_init = (None, c1, m1) \<and>
     disc_calls (fold on_conn_event [Connected, ShutdownByPeer, ShutdownComplete] c1) = 1"
proof -
  let ?env = "answering True"
  let ?c = "set_handler_disconnect True (client_init quic_config_init)"
  obtain r c1 m1 where run: "connect_begin ?env ?c msquic_init = (r, c1, m1)"
    by (cases "connect_begin ?env ?c msquic_init")
  then have "r = None"
    by (auto simp: connect_begin_def connect_start_def answering_def set_handler_disconnect_def client_init_def msquic_init_def api_table_init_def
        open_handle_def reset_handle_def Let_def)
  then have none: "connect_begin ?env ?c msquic_init = (None, c1, m1)" using run by simp
  from quic_handshake_and_disconnect [OF none, of "[Connected, ShutdownByPeer, ShutdownComplete]"]
  have "disc_calls (fold on_conn_event [Connected, ShutdownByPeer, ShutdownComplete] c1) = 1"
    by (simp only: set_handler_disconnect_def) (simp add: client_init_def)
  with none show ?thesis by blast
qed

text \<open>
  C20: as long as msquic completes only datagrams it holds, no send context is deleted twice, none is leaked and none is
  freed under msquic: in every sequence of connects, closes, sends, events and handler changes the contexts the code has allocated and
  not deleted are exactly those of the sends msquic has accepted and not reported as sent or canceled.
\<close>

theorem quic_send_contexts_owned:
  assumes "client_step\<^sup>*\<^sup>* (client_init cfg) c"
  shows "\<not> double_free (sends c) \<and> dom (live_ctx (sends c)) = loaned (sends c)"
proof -
  have "ledger_ok (sends c)"
    using client_steps_ledger [OF assms] ledger_init_ok by (simp add: client_init_def)
  then show ?thesis by (simp add: ledger_ok_def)
qed

lemma connected_example:
  obtains c1 m1 where "client_step (client_init quic_config_init) c1" "h_connection c1 \<noteq> None"
    "sends c1 = ledger_init" "peer_streams c1 = []" "closed_streams c1 = []"
    "connect_begin (answering True) (client_init quic_config_init) msquic_init = (None, c1, m1)"
proof -
  obtain r c1 m1 where run: "connect_begin (answering True) (client_init quic_config_init) msquic_init = (r, c1, m1)"
    by (cases "connect_begin (answering True) (client_init quic_config_init) msquic_init")
  then have r: "r = None" "h_connection c1 \<noteq> None"
    by (auto simp: connect_begin_def connect_start_def answering_def client_init_def msquic_init_def api_table_init_def
        open_handle_def reset_handle_def Let_def)
  show ?thesis
    using that [OF connecting [OF run] r(2)] connect_begin_keeps [OF run] run r(1) by (simp add: client_init_def)
qed

text \<open>Of three datagrams one is refused and one reported as sent; the third is what msquic still holds.\<close>

lemma quic_send_contexts_owned_witness:
  "\<exists>c. client_step\<^sup>*\<^sup>* (client_init quic_config_init) c \<and> next_ctx (sends c) = 3 \<and> loaned (sends c) = {2} \<and> dom (live_ctx (sends c)) = {2}"
proof -
  obtain c1 m1 where c1: "client_step (client_init quic_config_init) c1" "h_connection c1 \<noteq> None" "sends c1 = ledger_init"
    by (rule connected_example)
  let ?c2 = "on_conn_event Connected (hands_back Connected c1)"
  let ?c5 = "send_packet True [3] (send_packet False [2] (send_packet True [1] ?c2))"
  let ?c6 = "on_conn_event (DatagramSendState Sent 0) (hands_back (DatagramSendState Sent 0) ?c5)"
  have up: "h_connection ?c2 \<noteq> None" "handshake_ok ?c2" "sends ?c2 = ledger_init" using c1 by simp_all
  have "client_step c1 ?c2" by (rule event) (simp add: event_legal_def)
  with c1(1) have "client_step\<^sup>*\<^sup>* (client_init quic_config_init) ?c2" by (rule converse_rtranclp_into_rtranclp [OF _ r_into_rtranclp])
  then have "client_step\<^sup>*\<^sup>* (client_init quic_config_init) ?c5" by (meson rtranclp.rtrancl_into_rtrancl send)
  moreover have l: "loaned (sends ?c5) = {0, 2}" "next_ctx (sends ?c5) = 3"
    using up by (auto simp: send_packet_def ctx_release_def ctx_reclaim_def ctx_lend_def ledger_init_def Let_def)
  then have "client_step ?c5 ?c6" by (intro event) (simp add: event_legal_def)
  ultimately have run: "client_step\<^sup>*\<^sup>* (client_init quic_config_init) ?c6" by (rule rtranclp.rtrancl_into_rtrancl)
  have "loaned (sends ?c6) = {2}" "next_ctx (sends ?c6) = 3" using l by (auto simp: ctx_reclaim_def ctx_return_def)
  with quic_send_contexts_owned [OF run] run show ?thesis by metis
qed

text \<open>
  Every stream the edge opens is aborted and its handle closed exactly once, in its own callback: in any
  sequence of steps no stream is closed twice or used after, and the completion of an open one closes it.
\<close>

theorem peer_streams_closed_once:
  assumes "client_step\<^sup>*\<^sup>* (client_init cfg) c" and "st \<in> set (peer_streams c)"
  shows "distinct (closed_streams c) \<and> st \<notin> set (closed_streams c) \<and>
     closed_streams (null_stream_event True st c) = closed_streams c @ [st] \<and>
     st \<notin> set (peer_streams (null_stream_event True st c))"
  using client_steps_streams [OF assms(1)] assms(2)
  by (auto simp: client_init_def null_stream_event_def)

lemma peer_streams_closed_once_witness:
  "closed_streams (null_stream_event True 9 (on_conn_event (PeerStreamStarted 9) (client_init quic_config_init))) = [9]"
proof -
  let ?c = "on_conn_event (PeerStreamStarted 9) (client_init quic_config_init)"
  have "client_step (client_init quic_config_init) ?c"
    using event [of "PeerStreamStarted 9" "client_init quic_config_init"] by (simp add: event_legal_def client_init_def)
  from peer_streams_closed_once [OF r_into_rtranclp, OF this, of 9] show ?thesis by (simp add: client_init_def)
qed

text \<open>
  A packet given to a connected client and accepted by its connection arrives unchanged at the inbound
  handler of the peer that receives the datagram; a client without a completed handshake drops the packet and
  changes nothing.
\<close>

theorem quic_packet_end_to_end:
  assumes "has_handler d"
  shows "(if h_connection c \<noteq> None \<and> handshake_ok c
      then inbound (on_conn_event (DatagramReceived (last (datagrams (send_packet True p c)))) d) = inbound d @ [p]
      else send_packet accepted p c = c)"
proof -
  have "last (datagrams (send_packet True p c)) = fst (frame_encode \<lparr>frame_type = IpPacket, flow_id = 0, payload = p\<rparr> [])"
    if "h_connection c \<noteq> None \<and> handshake_ok c"
    using that by (auto simp: send_packet_def Let_def split_beta)
  then show ?thesis using assms by (auto simp: deliver_sent send_packet_def)
qed

lemma quic_packet_end_to_end_witness:
  "send_packet True [1, 2] (client_init quic_config_init) = client_init quic_config_init"
proof -
  have "has_handler (set_handler True (client_init quic_config_init))" by (simp add: set_handler_def)
  from quic_packet_end_to_end [OF this, of "client_init quic_config_init" "[1, 2]" True] show ?thesis
    by (simp add: client_init_def)
qed

text \<open>
  The TLS policy: certificate validation is switched off exactly for the bundle path \<^verbatim>\<open>INSECURE\<close>; otherwise a
  named bundle is the trust anchor, and without one the embedded CA whenever its file could be made. A
  client certificate is presented exactly when both of its paths are set.
\<close>

theorem tls_policy:
  "(cr_no_validation (tls_credential emb cfg) \<longleftrightarrow> q_ca_bundle_path cfg = ''INSECURE'') \<and>
   cr_ca_file (tls_credential emb cfg) =
     (if q_ca_bundle_path cfg = ''INSECURE'' then None
      else if q_ca_bundle_path cfg = [] then emb else Some (q_ca_bundle_path cfg)) \<and>
   (cr_set_ca (tls_credential emb cfg) \<longleftrightarrow> cr_ca_file (tls_credential emb cfg) \<noteq> None) \<and>
   (cr_certificate (tls_credential emb cfg) \<noteq> None \<longleftrightarrow> q_client_cert_path cfg \<noteq> [] \<and> q_client_key_path cfg \<noteq> []) \<and>
   cr_client (tls_credential emb cfg) \<and> cr_builtin_validation (tls_credential emb cfg)"
  by (auto simp: tls_credential_def Let_def split: option.split)

text \<open>
  A registration call sends the request's own fields (the tunnel's UUID also as the client id) and succeeds
  exactly when the control stream opens and the edge answers with connection details; a rejection passes on the
  cause and retry advice. On every path the control stream it opened is closed again, and nothing else.
\<close>

theorem register_connection_outcome:
  assumes "h_connection c = Some conn" and "handshake_ok c" and "msquic_ok m" and "table m" and "fst conn < next_handle m"
  shows "case register_connection ok_open ok_begin rpc req resp c m of (ec, resp', m') \<Rightarrow>
     opened m' = opened m \<and> \<not> misuse m' \<and>
     (ec = None \<longleftrightarrow> ok_open \<and> ok_begin \<and> (\<exists>uid loc. rpc (register_params req) = RpcDetails uid loc)) \<and>
     (\<forall>uid loc. ok_open \<and> ok_begin \<and> rpc (register_params req) = RpcDetails uid loc \<longrightarrow>
        resp_ok resp' \<and> location_name resp' = c_str loc \<and>
        assigned_uuid resp' = (if length uid = 16 then uid else assigned_uuid resp)) \<and>
     (\<forall>cause n again. ok_open \<and> ok_begin \<and> rpc (register_params req) = RpcError cause n again \<longrightarrow>
        ec = Some PermissionDenied \<and> error_cause resp' = c_str cause \<and> retry_after_seconds resp' = n \<and> should_retry resp' = again) \<and>
     rc_tunnel_id (register_params req) = tunnel_uuid req \<and> rc_client_id (register_params req) = tunnel_uuid req \<and>
     rc_conn_index (register_params req) = conn_index req"
  using assms(1,2) rpc_stream_balanced [OF assms(3-5), of ok_open ok_begin] assms(3)
  by (auto simp: register_connection_def register_params_def reset_handle_def msquic_ok_def Let_def
      split: rpc_outcome.splits option.splits prod.splits)

lemma register_connection_outcome_witness:
  "\<exists>c1 m1. connect_begin (answering True) (client_init quic_config_init) msquic_init = (None, c1, m1) \<and>
     (case register_connection True True (\<lambda>_. RpcDetails [] ''lax01'') register_request_init register_response_init
        (on_conn_event Connected c1) m1 of (ec, resp, m2) \<Rightarrow> ec = None \<and> location_name resp = ''lax01'' \<and> opened m2 = opened m1)"
proof -
  obtain c1 m1 where run: "connect_begin (answering True) (client_init quic_config_init) msquic_init = (None, c1, m1)"
    by (rule connected_example)
  then have m1: "msquic_ok m1" "table m1" "h_connection c1 = Some (2, HConnection)" "2 < next_handle m1"
    by (auto simp: connect_begin_def connect_start_def answering_def client_init_def msquic_init_def api_table_init_def
        open_handle_def reset_handle_def Let_def msquic_ok_def)
  have "h_connection (on_conn_event Connected c1) = Some (2, HConnection)" "handshake_ok (on_conn_event Connected c1)"
    using m1(3) by simp_all
  from register_connection_outcome [OF this m1(1,2), of True True "\<lambda>_. RpcDetails [] ''lax01''" register_request_init register_response_init]
  show ?thesis using run m1(4) by (intro exI [of _ c1] exI [of _ m1]) (auto simp: c_str_def)
qed

text \<open>
  The watchdog aborts a registration exactly when its RPC has neither been answered nor thrown within the timeout; but whenever
  there is a watchdog, the call lasts the whole timeout, however fast the RPC ends: leaving its scope joins the watchdog, which sleeps it out.
\<close>

theorem register_waits_out_timeout:
  "register_timeline timeout_ms (Talks e) = (case flag_time e of None \<Rightarrow> True | Some t \<Rightarrow> timeout_ms < t, timeout_ms)"
  by (auto simp: Let_def split: option.split)

lemma register_waits_out_timeout_witness:
  "register_timeline 15000 (Talks (Answered 40)) = (False, 15000)"
  by (subst register_waits_out_timeout) simp

end
