(* ===== verification/Close_Race.thy ===== *)
theory Close_Race
  imports Quic_Client
begin

text \<open>
  Two threads on one client: a connection thread of \<^verbatim>\<open>main.cpp\<close> inside \<^verbatim>\<open>connect\<close>, and the main thread that closes the client
  while it ends the program. \<^verbatim>\<open>close\<close> holds \<^verbatim>\<open>close_mu_\<close>, \<^verbatim>\<open>connect\<close> does not; both change the client's handles.

  \<^item> \<open>connect_move\<close> is \<open>connect_begin\<close> one call at a time, \<open>close_move\<close> is \<open>quic_close\<close> one call at a time (lemmas
    \<open>connect_moves\<close>, \<open>close_moves\<close>). A step reads a member and makes the call with it.
  \<^item> msquic's documentation says that \<^verbatim>\<open>RegistrationClose\<close> waits until the objects opened under the registration are
    closed, so the step has to wait; and that a null handle is refused.
  \<^item> \<open>race_step\<close> interleaves them as the program is written.
  \<^item> The stop flag is set, so after \<^verbatim>\<open>connect\<close> the connection thread leaves its loop and closes. What it does between a
    successful handshake and that close is in \<open>Conn_Thread\<close> and \<open>Shutdown\<close>.
\<close>

section \<open>Definitions\<close>

subsection \<open>Connecting, call by call\<close>

text \<open>\<open>NReturn None\<close> is the point where \<^verbatim>\<open>connect\<close> waits for the handshake, \<open>NReturn (Some e)\<close> its return with an error.\<close>

datatype connect_pc = NFlags | NApi | NRegistration | NConfiguration | NCredential | NConnection | NResolve | NStart
  | NReturn "errc option"

fun connect_move :: "connect_env \<Rightarrow> connect_pc \<times> client \<times> msquic \<Rightarrow> connect_pc \<times> client \<times> msquic" where
  "connect_move env (NFlags, c, m) = (NApi, c\<lparr>handshake_done := False, handshake_ok := False, disc_notified := False\<rparr>, m)"
| "connect_move env (NApi, c, m) =
     (if api_held c then (NRegistration, c, m)
      else let (ok, m) = api_table_init (ok_api env) m in
        if \<not> ok then (NReturn (Some ProtocolError), c, m) else (NRegistration, c\<lparr>api_held := True\<rparr>, m))"
| "connect_move env (NRegistration, c, m) =
     (case open_handle HRegistration None (ok_registration env) m of
        (None, m) \<Rightarrow> (NReturn (Some ProtocolError), c, m)
      | (Some reg, m) \<Rightarrow> (NConfiguration, c\<lparr>h_registration := Some reg\<rparr>, reset_handle (h_registration c) m))"
| "connect_move env (NConfiguration, c, m) =
     (case h_registration c of
        None \<Rightarrow> (NReturn (Some ProtocolError), c, m)
      | Some reg \<Rightarrow>
     case open_handle HConfiguration (Some (fst reg)) (ok_configuration env (q_alpn (q_cfg c)) connect_settings) m of
        (None, m) \<Rightarrow> (NReturn (Some ProtocolError), c, m)
      | (Some conf, m) \<Rightarrow> (NCredential, c\<lparr>h_configuration := Some conf\<rparr>, reset_handle (h_configuration c) m))"
| "connect_move env (NCredential, c, m) =
     (if h_configuration c = None \<or> \<not> ok_credential env (tls_credential (embedded_ca env) (q_cfg c))
      then (NReturn (Some ProtocolError), c, m) else (NConnection, c, m))"
| "connect_move env (NConnection, c, m) =
     (case h_registration c of
        None \<Rightarrow> (NReturn (Some ProtocolError), c, m)
      | Some reg \<Rightarrow>
     case open_handle HConnection (Some (fst reg)) (ok_connection env) m of
        (None, m) \<Rightarrow> (NReturn (Some ProtocolError), c, m)
      | (Some conn, m) \<Rightarrow> (NResolve, c\<lparr>h_connection := Some conn\<rparr>, reset_handle (h_connection c) m))"
| "connect_move env (NResolve, c, m) =
     (if \<not> ok_resolve env (q_edge_host (q_cfg c)) (q_edge_port (q_cfg c)) then (NReturn (Some HostUnreachable), c, m)
      else (NStart, c, m))"
| "connect_move env (NStart, c, m) =
     (if h_connection c = None \<or> h_configuration c = None \<or> \<not> ok_start env (sni_name (q_cfg c)) (q_edge_port (q_cfg c))
      then (NReturn (Some ConnectionRefused), c, m) else (NReturn None, c, m))"
| "connect_move env (NReturn r, c, m) = (NReturn r, c, m)"

fun returned :: "connect_pc \<Rightarrow> bool" where
  "returned (NReturn r) = True"
| "returned pc = False"

subsection \<open>Closing, call by call\<close>

text \<open>
  \<open>KLock\<close> is before the mutex, \<open>KClosing h\<close> inside \<^verbatim>\<open>RegistrationClose\<close> with the member already null; \<open>None\<close> is a call that
  has to wait, or none at all.
\<close>

datatype close_pc = KLock | KShutdown | KConnection | KConfiguration | KRegistration | KClosing handle | KUnlock | KDone

definition has_children :: "nat \<Rightarrow> msquic \<Rightarrow> bool" where
  "has_children h m \<longleftrightarrow> list_ex (\<lambda>(i, k, p). p = Some h) (opened m)"

fun close_move :: "close_pc \<times> client \<times> msquic \<Rightarrow> (close_pc \<times> client \<times> msquic) option" where
  "close_move (KShutdown, c, m) = Some (KConnection, c, connection_shutdown (h_connection c) m)"
| "close_move (KConnection, c, m) = Some (KConfiguration, c\<lparr>h_connection := None\<rparr>, reset_handle (h_connection c) m)"
| "close_move (KConfiguration, c, m) = Some (KRegistration, c\<lparr>h_configuration := None\<rparr>, reset_handle (h_configuration c) m)"
| "close_move (KRegistration, c, m) =
     (case h_registration c of
        None \<Rightarrow> Some (KUnlock, c, m)
      | Some h \<Rightarrow> Some (KClosing h, c\<lparr>h_registration := None\<rparr>, m))"
| "close_move (KClosing h, c, m) =
     (if table m \<and> has_children (fst h) m then None else Some (KUnlock, c, handle_delete h m))"
| "close_move (KLock, c, m) = None"
| "close_move (KUnlock, c, m) = None"
| "close_move (KDone, c, m) = None"

subsection \<open>Both threads\<close>

datatype party = ConnThread | MainThread

datatype attempt_pc = Entering | Connecting connect_pc | Closing close_pc

record race =
  cl :: client
  api :: msquic
  holder :: "party option"
  conn_at :: attempt_pc
  main_close :: close_pc

definition race_init :: "client \<Rightarrow> msquic \<Rightarrow> race" where
  "race_init c m = \<lparr>cl = c, api = m, holder = None, conn_at = Entering, main_close = KLock\<rparr>"

fun closing_at :: "party \<Rightarrow> race \<Rightarrow> close_pc option" where
  "closing_at ConnThread s = (case conn_at s of Closing k \<Rightarrow> Some k | _ \<Rightarrow> None)"
| "closing_at MainThread s = Some (main_close s)"

fun put_close :: "party \<Rightarrow> close_pc \<Rightarrow> race \<Rightarrow> race" where
  "put_close ConnThread k s = s\<lparr>conn_at := Closing k\<rparr>"
| "put_close MainThread k s = s\<lparr>main_close := k\<rparr>"

inductive race_step :: "connect_env \<Rightarrow> race \<Rightarrow> race \<Rightarrow> bool" for env where
  enter: "conn_at s = Entering \<Longrightarrow> race_step env s (s\<lparr>conn_at := Connecting NFlags\<rparr>)"
| connect_call: "conn_at s = Connecting pc \<Longrightarrow> \<not> returned pc \<Longrightarrow> connect_move env (pc, cl s, api s) = (pc', c, m) \<Longrightarrow>
    race_step env s (s\<lparr>cl := c, api := m, conn_at := Connecting pc'\<rparr>)"
| leave_loop: "conn_at s = Connecting (NReturn r) \<Longrightarrow> race_step env s (s\<lparr>conn_at := Closing KLock\<rparr>)"
| close_lock: "closing_at p s = Some KLock \<Longrightarrow> holder s = None \<Longrightarrow>
    race_step env s (put_close p KShutdown (s\<lparr>holder := Some p\<rparr>))"
| close_call: "closing_at p s = Some k \<Longrightarrow> close_move (k, cl s, api s) = Some (k', c, m) \<Longrightarrow>
    race_step env s (put_close p k' (s\<lparr>cl := c, api := m\<rparr>))"
| close_unlock: "closing_at p s = Some KUnlock \<Longrightarrow> race_step env s (put_close p KDone (s\<lparr>holder := None\<rparr>))"

text \<open>The same as a function: the turn of a thread, \<open>None\<close> if it cannot step, and the turns of a schedule.\<close>

fun close_turn :: "party \<Rightarrow> close_pc \<Rightarrow> race \<Rightarrow> race option" where
  "close_turn p KLock s = (if holder s = None then Some (put_close p KShutdown (s\<lparr>holder := Some p\<rparr>)) else None)"
| "close_turn p KUnlock s = Some (put_close p KDone (s\<lparr>holder := None\<rparr>))"
| "close_turn p k s = map_option (\<lambda>(k', c, m). put_close p k' (s\<lparr>cl := c, api := m\<rparr>)) (close_move (k, cl s, api s))"

fun race_turn :: "connect_env \<Rightarrow> party \<Rightarrow> race \<Rightarrow> race option" where
  "race_turn env MainThread s = close_turn MainThread (main_close s) s"
| "race_turn env ConnThread s =
     (case conn_at s of
        Entering \<Rightarrow> Some (s\<lparr>conn_at := Connecting NFlags\<rparr>)
      | Connecting pc \<Rightarrow>
          if returned pc then Some (s\<lparr>conn_at := Closing KLock\<rparr>)
          else (case connect_move env (pc, cl s, api s) of (pc', c, m) \<Rightarrow> Some (s\<lparr>cl := c, api := m, conn_at := Connecting pc'\<rparr>))
      | Closing k \<Rightarrow> close_turn ConnThread k s)"

fun race_run :: "connect_env \<Rightarrow> party list \<Rightarrow> race \<Rightarrow> race option" where
  "race_run env [] s = Some s"
| "race_run env (p # ps) s = Option.bind (race_turn env p s) (race_run env ps)"

subsection \<open>Specification\<close>

text \<open>
  The turns that lead to a deadlock: the thread opens its registration and its configuration, main's close has passed the
  connection, the thread opens one, and main's close reaches the registration.
\<close>

definition hang_schedule :: "party list" where
  "hang_schedule = replicate 6 ConnThread @ replicate 3 MainThread @ [ConnThread] @ replicate 2 MainThread @ replicate 3 ConnThread"

text \<open>The turns of a run in which main closes a client whose connection is open already, and the thread closes it again.\<close>

definition late_schedule :: "party list" where
  "late_schedule = replicate 10 ConnThread @ replicate 7 MainThread @ replicate 6 ConnThread"

text \<open>No identifier from \<open>n\<close> on occurs among the old handles.\<close>

definition fresh_from :: "nat \<Rightarrow> (nat \<times> handle_kind \<times> nat option) list \<Rightarrow> bool" where
  "fresh_from n old \<longleftrightarrow> (\<forall>h \<ge> n. \<forall>(i, k, q) \<in> set old. i \<noteq> h \<and> q \<noteq> Some h)"

text \<open>How many steps are left at most.\<close>

fun connect_left :: "connect_pc \<Rightarrow> nat" where
  "connect_left NFlags = 9" | "connect_left NApi = 8" | "connect_left NRegistration = 7" | "connect_left NConfiguration = 6"
| "connect_left NCredential = 5" | "connect_left NConnection = 4" | "connect_left NResolve = 3" | "connect_left NStart = 2"
| "connect_left (NReturn r) = 1"

fun close_left :: "close_pc \<Rightarrow> nat" where
  "close_left KLock = 7" | "close_left KShutdown = 6" | "close_left KConnection = 5" | "close_left KConfiguration = 4"
| "close_left KRegistration = 3" | "close_left (KClosing h) = 2" | "close_left KUnlock = 1" | "close_left KDone = 0"

fun attempt_left :: "attempt_pc \<Rightarrow> nat" where
  "attempt_left Entering = 17"
| "attempt_left (Connecting pc) = 7 + connect_left pc"
| "attempt_left (Closing k) = close_left k"

definition race_left :: "race \<Rightarrow> nat" where
  "race_left s = attempt_left (conn_at s) + close_left (main_close s)"

text \<open>The client holds its first \<open>j\<close> handles, opened one after another from \<open>n\<close> on top of \<open>old\<close>.\<close>

definition client_entries :: "nat \<Rightarrow> (nat \<times> handle_kind \<times> nat option) list" where
  "client_entries n = [(n, HRegistration, None), (Suc n, HConfiguration, Some n), (Suc (Suc n), HConnection, Some n)]"

definition holding :: "(nat \<times> handle_kind \<times> nat option) list \<Rightarrow> nat \<Rightarrow> nat \<Rightarrow> client \<Rightarrow> msquic \<Rightarrow> bool" where
  "holding old n j c m \<longleftrightarrow> j \<le> 3 \<and> opened m = old @ take j (client_entries n) \<and> (0 < j \<longrightarrow> table m) \<and>
     h_registration c = (if 0 < j then Some (n, HRegistration) else None) \<and>
     h_configuration c = (if 1 < j then Some (Suc n, HConfiguration) else None) \<and>
     h_connection c = (if 2 < j then Some (Suc (Suc n), HConnection) else None)"

fun held_at :: "connect_pc \<Rightarrow> nat" where
  "held_at NConfiguration = 1" | "held_at NCredential = 2" | "held_at NConnection = 2" | "held_at NResolve = 3"
| "held_at NStart = 3" | "held_at pc = 0"

fun close_ok :: "(nat \<times> handle_kind \<times> nat option) list \<Rightarrow> nat \<Rightarrow> close_pc \<Rightarrow> client \<Rightarrow> msquic \<Rightarrow> bool" where
  "close_ok old n KConfiguration c m = (\<exists>j \<le> 2. holding old n j c m)"
| "close_ok old n KRegistration c m = (\<exists>j \<le> 1. holding old n j c m)"
| "close_ok old n (KClosing h) c m =
     (h = (n, HRegistration) \<and> quic_idle c \<and> opened m = old @ [(n, HRegistration, None)] \<and> table m)"
| "close_ok old n KUnlock c m = holding old n 0 c m"
| "close_ok old n k c m = (\<exists>j. holding old n j c m)"

definition api_ok :: "client \<Rightarrow> msquic \<Rightarrow> bool" where
  "api_ok c m \<longleftrightarrow> \<not> misuse m \<and> 0 \<le> refcount m \<and> (table m \<longleftrightarrow> 0 < refcount m) \<and> (api_held c \<longrightarrow> table m)"

fun inside :: "close_pc \<Rightarrow> bool" where
  "inside KLock = False" | "inside KDone = False" | "inside k = True"

text \<open>
  Which of the three handles opened from \<open>n\<close> on are still open, and that the client's members say so; the registration's is
  null already while it is being closed (\<open>u\<close>).
\<close>

definition open_entries :: "nat \<Rightarrow> bool \<Rightarrow> bool \<Rightarrow> bool \<Rightarrow> (nat \<times> handle_kind \<times> nat option) list" where
  "open_entries n r f d = (if r then [(n, HRegistration, None)] else []) @ (if f then [(Suc n, HConfiguration, Some n)] else []) @
     (if d then [(Suc (Suc n), HConnection, Some n)] else [])"

definition handles_ok :: "(nat \<times> handle_kind \<times> nat option) list \<Rightarrow> nat \<Rightarrow> bool \<Rightarrow> bool \<Rightarrow> bool \<Rightarrow> bool \<Rightarrow> client \<Rightarrow> msquic \<Rightarrow> bool" where
  "handles_ok old n u r f d c m \<longleftrightarrow> api_ok c m \<and> opened m = old @ open_entries n r f d \<and> (u \<or> f \<or> d \<longrightarrow> r) \<and> (r \<longrightarrow> table m) \<and>
     h_registration c = (if r \<and> \<not> u then Some (n, HRegistration) else None) \<and>
     h_configuration c = (if f then Some (Suc n, HConfiguration) else None) \<and>
     h_connection c = (if d then Some (Suc (Suc n), HConnection) else None)"

text \<open>What the connection thread's own point in the program says of them.\<close>

fun phase_ok :: "nat \<Rightarrow> attempt_pc \<Rightarrow> msquic \<Rightarrow> bool \<Rightarrow> bool \<Rightarrow> bool \<Rightarrow> bool" where
  "phase_ok n Entering m r f d \<longleftrightarrow> next_handle m = n \<and> \<not> r \<and> \<not> f \<and> \<not> d"
| "phase_ok n (Connecting pc) m r f d \<longleftrightarrow> returned pc \<or>
     (next_handle m = n + held_at pc \<and> (held_at pc < 1 \<longrightarrow> \<not> r) \<and> (held_at pc < 2 \<longrightarrow> \<not> f) \<and> (held_at pc < 3 \<longrightarrow> \<not> d) \<and>
      (pc \<notin> {NFlags, NApi} \<longrightarrow> table m))"
| "phase_ok n (Closing k) m r f d \<longleftrightarrow> (close_left k \<le> 4 \<longrightarrow> \<not> d) \<and> (close_left k \<le> 3 \<longrightarrow> \<not> f) \<and> (close_left k \<le> 1 \<longrightarrow> \<not> r)"

fun is_closing :: "close_pc \<Rightarrow> bool" where
  "is_closing (KClosing h) = True" | "is_closing k = False"

definition unregistering :: "race \<Rightarrow> bool" where
  "unregistering s \<longleftrightarrow> (\<exists>p h. closing_at p s = Some (KClosing h))"

definition race_inv :: "(nat \<times> handle_kind \<times> nat option) list \<Rightarrow> nat \<Rightarrow> race \<Rightarrow> bool" where
  "race_inv old n s \<longleftrightarrow>
     (\<forall>p. holder s = Some p \<longleftrightarrow> (\<exists>k. closing_at p s = Some k \<and> inside k)) \<and>
     (\<forall>p h. closing_at p s = Some (KClosing h) \<longrightarrow> h = (n, HRegistration)) \<and>
     (\<exists>r f d. handles_ok old n (unregistering s) r f d (cl s) (api s) \<and> phase_ok n (conn_at s) (api s) r f d)"

text \<open>Main waits in \<^verbatim>\<open>RegistrationClose\<close>, the thread for the mutex.\<close>

definition deadlocked :: "race \<Rightarrow> bool" where
  "deadlocked s \<longleftrightarrow> holder s = Some MainThread \<and> conn_at s = Closing KLock \<and>
     (\<exists>h. main_close s = KClosing h \<and> table (api s) \<and> has_children (fst h) (api s))"

section \<open>Lemmas\<close>

inductive_cases race_stepE: "race_step env s t"

lemmas handle_call_defs = open_handle_def reset_handle_def api_table_init_def

subsection \<open>The same as the calls in one piece\<close>

lemma connect_moves:
  "(connect_move env ^^ 8) (NFlags, c, m) = (case connect_begin env c m of (r, c', m') \<Rightarrow> (NReturn r, c', m'))"
  by (simp add: eval_nat_numeral connect_begin_def connect_start_def Let_def split_beta open_handle_def)

lemma close_moves:
  assumes "\<And>h. h_registration c = Some h \<Longrightarrow> \<not> has_children (fst h)
     (reset_handle (h_configuration c) (reset_handle (h_connection c) (connection_shutdown (h_connection c) m)))"
  shows "Option.bind (close_move (KShutdown, c, m)) (\<lambda>s. Option.bind (close_move s) (\<lambda>s. Option.bind (close_move s) (\<lambda>s.
      Option.bind (close_move s) (\<lambda>s. if fst s = KUnlock then Some s else close_move s)))) =
    (case quic_close c m of (c', m') \<Rightarrow> Some (KUnlock, c', m'))"
proof (cases "h_registration c")
  case None
  then have "c\<lparr>h_connection := None, h_configuration := None, h_registration := None\<rparr> =
      c\<lparr>h_connection := None, h_configuration := None\<rparr>" by (cases c) simp
  with None show ?thesis by (simp add: quic_close_def Let_def reset_handle_def [of None])
next
  case (Some h)
  then show ?thesis using assms [OF Some] by (simp add: quic_close_def Let_def reset_handle_def [of "Some h"])
qed

subsection \<open>Closing on its own\<close>

text \<open>What a holding does not depend on.\<close>

lemma holding_fields:
  "holding old n j (c\<lparr>handshake_done := a, handshake_ok := b, disc_notified := d\<rparr>) m = holding old n j c m"
  "holding old n j (c\<lparr>api_held := a\<rparr>) m = holding old n j c m"
  "holding old n j c (m\<lparr>refcount := r\<rparr>) = holding old n j c m"
  "holding old n j c (m\<lparr>shut_down := x\<rparr>) = holding old n j c m"
  "holding old n 0 c (m\<lparr>refcount := r, table := t\<rparr>) = holding old n 0 c m"
  by (simp_all add: holding_def)

text \<open>Each call of a close removes the handle it is for.\<close>

lemma holding_shutdown:
  assumes "holding old n j c m"
  shows "\<exists>x. connection_shutdown (h_connection c) m = m\<lparr>shut_down := x\<rparr>"
proof (cases "h_connection c")
  case None
  then show ?thesis by (intro exI [of _ "shut_down m"]) (simp add: connection_shutdown_def)
next
  case (Some h)
  then have "j = 3" "h = (Suc (Suc n), HConnection)" using assms by (auto simp: holding_def split: if_splits)
  then show ?thesis using assms Some by (auto simp: connection_shutdown_def holding_def client_entries_def)
qed

lemma fresh_fromD: "fresh_from n old \<Longrightarrow> n \<le> h \<Longrightarrow> \<forall>(i, k, q) \<in> set old. i \<noteq> h \<and> q \<noteq> Some h"
  by (simp add: fresh_from_def)

lemma holding_reset_connection:
  assumes "holding old n j c m" "fresh_from n old"
  shows "reset_handle (h_connection c) m = m\<lparr>opened := old @ take (min j 2) (client_entries n)\<rparr>"
    and "holding old n (min j 2) (c\<lparr>h_connection := None\<rparr>) (reset_handle (h_connection c) m)"
proof -
  show r: "reset_handle (h_connection c) m = m\<lparr>opened := old @ take (min j 2) (client_entries n)\<rparr>"
  proof (cases "2 < j")
    case True
    then have "j = 3" using assms by (simp add: holding_def)
    moreover have "handle_delete (Suc (Suc n), HConnection) m = m\<lparr>opened := old @ take 2 (client_entries n)\<rparr>"
      using assms \<open>j = 3\<close> fresh_fromD [OF assms(2), of "Suc (Suc n)"] by (intro handle_delete_last) (auto simp: holding_def client_entries_def)
    ultimately show ?thesis using assms by (simp add: holding_def reset_handle_def)
  qed (use assms in \<open>simp add: holding_def reset_handle_def min_def\<close>)
  show "holding old n (min j 2) (c\<lparr>h_connection := None\<rparr>) (reset_handle (h_connection c) m)"
    using assms unfolding r by (auto simp: holding_def)
qed

lemma holding_reset_configuration:
  assumes "holding old n j c m" "j \<le> 2" "fresh_from n old"
  shows "reset_handle (h_configuration c) m = m\<lparr>opened := old @ take (min j 1) (client_entries n)\<rparr>"
    and "holding old n (min j 1) (c\<lparr>h_configuration := None\<rparr>) (reset_handle (h_configuration c) m)"
proof -
  show r: "reset_handle (h_configuration c) m = m\<lparr>opened := old @ take (min j 1) (client_entries n)\<rparr>"
  proof (cases "1 < j")
    case True
    then have "j = 2" using assms(2) by simp
    moreover have "handle_delete (Suc n, HConfiguration) m = m\<lparr>opened := old @ take 1 (client_entries n)\<rparr>"
      using assms \<open>j = 2\<close> fresh_fromD [OF assms(3), of "Suc n"] by (intro handle_delete_last) (auto simp: holding_def client_entries_def)
    ultimately show ?thesis using assms by (simp add: holding_def reset_handle_def)
  qed (use assms in \<open>simp add: holding_def reset_handle_def min_def\<close>)
  show "holding old n (min j 1) (c\<lparr>h_configuration := None\<rparr>) (reset_handle (h_configuration c) m)"
    using assms unfolding r by (auto simp: holding_def)
qed

lemma registration_childless:
  assumes "opened m = old @ [(n, HRegistration, None)]" "table m" "fresh_from n old"
  shows "\<not> has_children n m" and "handle_delete (n, HRegistration) m = m\<lparr>opened := old\<rparr>"
proof -
  show "\<not> has_children n m" using assms(1,2) fresh_fromD [OF assms(3), of n] by (auto simp: has_children_def list_ex_iff)
  show "handle_delete (n, HRegistration) m = m\<lparr>opened := old\<rparr>"
    using assms(1,2) fresh_fromD [OF assms(3), of n] by (intro handle_delete_last) auto
qed

lemma close_move_ok:
  assumes "close_ok old n k c m" "api_ok c m" "inside k" "k \<noteq> KUnlock" and fresh: "fresh_from n old"
  shows "\<exists>k' c' m'. close_move (k, c, m) = Some (k', c', m') \<and> close_ok old n k' c' m' \<and> api_ok c' m' \<and> inside k' \<and>
     close_left k' < close_left k \<and> next_handle m' = next_handle m \<and> (holding old n 0 c m \<longrightarrow> holding old n 0 c' m')"
proof (cases k)
  case KShutdown
  then obtain j where "holding old n j c m" using assms(1) by auto
  moreover from holding_shutdown [OF this] obtain x where "connection_shutdown (h_connection c) m = m\<lparr>shut_down := x\<rparr>" by blast
  ultimately show ?thesis using KShutdown assms(2) by (auto simp: holding_fields api_ok_def)
next
  case KConnection
  then obtain j where j: "holding old n j c m" using assms(1) by auto
  have "holding old n 0 c m \<longrightarrow> holding old n 0 (c\<lparr>h_connection := None\<rparr>) (reset_handle (h_connection c) m)"
    using holding_reset_connection(2) [of old n 0 c m] fresh by simp
  moreover have "\<exists>i \<le> 2. holding old n i (c\<lparr>h_connection := None\<rparr>) (reset_handle (h_connection c) m)"
    using holding_reset_connection(2) [OF j fresh] by (intro exI [of _ "min j 2"]) simp
  ultimately show ?thesis using KConnection assms(2) holding_reset_connection(1) [OF j fresh] by (auto simp: api_ok_def)
next
  case KConfiguration
  then obtain j where j: "holding old n j c m" "j \<le> 2" using assms(1) by auto
  have "holding old n 0 c m \<longrightarrow> holding old n 0 (c\<lparr>h_configuration := None\<rparr>) (reset_handle (h_configuration c) m)"
    using holding_reset_configuration(2) [of old n 0 c m] fresh by simp
  moreover have "\<exists>i \<le> 1. holding old n i (c\<lparr>h_configuration := None\<rparr>) (reset_handle (h_configuration c) m)"
    using holding_reset_configuration(2) [OF j fresh] by (intro exI [of _ "min j 1"]) simp
  ultimately show ?thesis using KConfiguration assms(2) holding_reset_configuration(1) [OF j fresh] by (auto simp: api_ok_def)
next
  case KRegistration
  then obtain j where j: "holding old n j c m" "j \<le> 1" using assms(1) by auto
  then consider "holding old n 0 c m" | "holding old n (Suc 0) c m" by (cases j) auto
  then show ?thesis
    using KRegistration assms(2)
    by cases (auto simp: api_ok_def holding_def client_entries_def quic_idle_def)
next
  case (KClosing h)
  then have h: "h = (n, HRegistration)" "quic_idle c" "opened m = old @ [(n, HRegistration, None)]" "table m"
    using assms(1) by auto
  then show ?thesis using KClosing registration_childless [OF h(3,4) fresh] assms(2)
    by (auto simp: api_ok_def holding_def quic_idle_def)
qed (use assms in auto)

lemma close_move_inside: "close_move (k, c, m) = Some s' \<Longrightarrow> inside k \<and> k \<noteq> KUnlock"
  by (cases k) auto

lemma returned_iff: "returned pc \<longleftrightarrow> (\<exists>r. pc = NReturn r)"
  by (cases pc) auto

subsection \<open>Both threads\<close>

lemma old_kept:
  assumes "fresh_from n old" "n \<le> h"
  shows "filter (\<lambda>(i, k, p). i \<noteq> h) old = old" "(\<forall>(i, k, p) \<in> set old. i \<noteq> h)" "\<not> (\<exists>(i, k, p) \<in> set old. p = Some h)"
  using fresh_fromD [OF assms] by (auto simp: filter_id_conv)

lemma delete_connection:
  assumes "handles_ok old n u r f d c m" "fresh_from n old"
  shows "reset_handle (h_connection c) m = m\<lparr>opened := old @ open_entries n r f False\<rparr>"
proof (cases d)
  case True
  then show ?thesis using assms old_kept [OF assms(2), of "Suc (Suc n)"]
    by (auto simp: handles_ok_def open_entries_def reset_handle_def handle_delete_close close_call_def)
qed (use assms in \<open>simp add: handles_ok_def reset_handle_def\<close>)

lemma delete_configuration:
  assumes "handles_ok old n u r f d c m" "fresh_from n old"
  shows "reset_handle (h_configuration c) m = m\<lparr>opened := old @ open_entries n r False d\<rparr>"
proof (cases f)
  case True
  then show ?thesis using assms old_kept [OF assms(2), of "Suc n"]
    by (auto simp: handles_ok_def open_entries_def reset_handle_def handle_delete_close close_call_def)
qed (use assms in \<open>simp add: handles_ok_def reset_handle_def\<close>)

lemma registration_children:
  assumes "handles_ok old n u r f d c m" "fresh_from n old"
  shows "has_children n m \<longleftrightarrow> f \<or> d"
  using assms old_kept [OF assms(2), of n] by (auto simp: handles_ok_def open_entries_def has_children_def list_ex_iff)

lemma shutdown_handles:
  assumes "handles_ok old n u r f d c m"
  shows "\<exists>x. connection_shutdown (h_connection c) m = m\<lparr>shut_down := x\<rparr>"
proof (cases d)
  case True
  then show ?thesis using assms by (auto simp: handles_ok_def open_entries_def connection_shutdown_def)
next
  case False
  then show ?thesis using assms by (intro exI [of _ "shut_down m"]) (simp add: handles_ok_def connection_shutdown_def)
qed

lemma ex3I: "P r f d \<Longrightarrow> \<exists>r f d. P r f d"
  by blast

text \<open>A call of a close: it waits exactly where the registration has children, and what it has passed is gone.\<close>

lemma close_move_handles:
  assumes ok: "handles_ok old n (is_closing k) r f d c m" and fresh: "fresh_from n old" and "\<forall>h. k = KClosing h \<longrightarrow> h = (n, HRegistration)"
    and move: "close_move (k, c, m) = Some (k', c', m')"
  shows "\<exists>r' f' d'. handles_ok old n (is_closing k') r' f' d' c' m' \<and> (r' \<longrightarrow> r) \<and> (f' \<longrightarrow> f) \<and> (d' \<longrightarrow> d) \<and>
     (phase_ok n (Closing k) m r f d \<longrightarrow> phase_ok n (Closing k') m' r' f' d') \<and> (\<forall>h. k' = KClosing h \<longrightarrow> h = (n, HRegistration)) \<and> next_handle m' = next_handle m \<and> table m' = table m \<and>
     inside k' \<and> close_left k' < close_left k"
proof (cases k)
  case KShutdown
  then obtain x where "m' = m\<lparr>shut_down := x\<rparr>" "k' = KConnection" "c' = c" using shutdown_handles [OF ok] move by auto
  then show ?thesis using ok KShutdown by (intro ex3I [of _ r f d]) (auto simp: handles_ok_def api_ok_def)
next
  case KConnection
  then show ?thesis using ok move delete_connection [OF ok fresh]
    by (intro ex3I [of _ r f False]) (auto simp: handles_ok_def api_ok_def)
next
  case KConfiguration
  then show ?thesis using ok move delete_configuration [OF ok fresh]
    by (intro ex3I [of _ r False d]) (auto simp: handles_ok_def api_ok_def)
next
  case KRegistration
  then show ?thesis using ok move
    by (intro ex3I [of _ r f d]) (auto simp: handles_ok_def api_ok_def split: option.splits if_splits)
next
  case (KClosing h)
  then have h: "h = (n, HRegistration)" using assms(3) by simp
  have r: "r" "table m" using ok KClosing by (auto simp: handles_ok_def)
  then have "\<not> f" "\<not> d" "k' = KUnlock" "c' = c" "m' = handle_delete (n, HRegistration) m"
    using move registration_children [OF ok fresh] KClosing h by (auto split: if_splits)
  moreover from this have "handle_delete (n, HRegistration) m = m\<lparr>opened := old\<rparr>"
    using ok r fresh by (intro registration_childless(2)) (auto simp: handles_ok_def open_entries_def)
  ultimately show ?thesis using ok KClosing
    by (intro ex3I [of _ False False False]) (auto simp: handles_ok_def api_ok_def open_entries_def)
qed (use move in auto)

text \<open>A call of a connect: it opens the next of the three handles or changes none.\<close>

lemma connect_move_handles:
  assumes ok: "handles_ok old n u r f d c m" and phase: "phase_ok n (Connecting pc) m r f d" and "\<not> returned pc"
    and move: "connect_move env (pc, c, m) = (pc', c', m')"
  shows "\<exists>r' f' d'. handles_ok old n u r' f' d' c' m' \<and> phase_ok n (Connecting pc') m' r' f' d' \<and>
     connect_left pc' < connect_left pc"
proof (cases pc)
  case NFlags
  then show ?thesis using assms
    by (intro ex3I [of _ r f d]) (auto simp: handles_ok_def api_ok_def)
next
  case NApi
  then show ?thesis using assms
    by (intro ex3I [of _ r f d]) (auto simp: handles_ok_def api_ok_def api_table_init_def Let_def split: if_splits)
next
  case NRegistration
  let ?o = "ok_registration env"
  show ?thesis using assms NRegistration
    by (cases ?o; intro ex3I [of _ "r \<or> ?o" f d]) (auto simp: handles_ok_def api_ok_def open_entries_def open_handle_def reset_handle_def)
next
  case NConfiguration
  let ?o = "h_registration c \<noteq> None \<and> ok_configuration env (q_alpn (q_cfg c)) connect_settings"
  show ?thesis using assms NConfiguration
    by (cases ?o; intro ex3I [of _ r "f \<or> ?o" d]) (auto simp: handles_ok_def api_ok_def open_entries_def open_handle_def reset_handle_def split: option.splits if_splits)
next
  case NCredential
  then show ?thesis using assms
    by (intro ex3I [of _ r f d]) (auto split: if_splits)
next
  case NConnection
  let ?o = "h_registration c \<noteq> None \<and> ok_connection env"
  show ?thesis using assms NConnection
    by (cases ?o; intro ex3I [of _ r f "d \<or> ?o"]) (auto simp: handles_ok_def api_ok_def open_entries_def open_handle_def reset_handle_def split: option.splits if_splits)
next
  case NResolve
  then show ?thesis using assms
    by (intro ex3I [of _ r f d]) (auto split: if_splits)
next
  case NStart
  then show ?thesis using assms
    by (intro ex3I [of _ r f d]) (auto split: if_splits)
qed (use assms in auto)

lemma phase_mono:
  "phase_ok n a m r f d \<Longrightarrow> (r' \<longrightarrow> r) \<and> (f' \<longrightarrow> f) \<and> (d' \<longrightarrow> d) \<Longrightarrow> next_handle m' = next_handle m \<and> table m' = table m \<Longrightarrow>
     phase_ok n a m' r' f' d'"
  by (cases a) auto

lemma all_party: "(\<forall>p. P p) \<longleftrightarrow> P ConnThread \<and> P MainThread"
  by (metis party.exhaust)

lemma ex_party: "(\<exists>p. P p) \<longleftrightarrow> P ConnThread \<or> P MainThread"
  by (metis party.exhaust)

lemmas party_simps = all_party ex_party unregistering_def

lemma race_invD:
  assumes "race_inv old n s"
  obtains r f d where "handles_ok old n (unregistering s) r f d (cl s) (api s)" "phase_ok n (conn_at s) (api s) r f d"
  using assms unfolding race_inv_def by blast

lemma holder_inside: "race_inv old n s \<Longrightarrow> holder s = Some p \<longleftrightarrow> (\<exists>k. closing_at p s = Some k \<and> inside k)"
  unfolding race_inv_def by blast

lemma closing_inside:
  assumes "race_inv old n s" "closing_at p s = Some k" "inside k"
  shows "holder s = Some p" "unregistering s \<longleftrightarrow> is_closing k" "\<forall>h. k = KClosing h \<longrightarrow> h = (n, HRegistration)"
proof -
  show h: "holder s = Some p" using assms unfolding race_inv_def by blast
  then have "q = p" if "closing_at q s = Some (KClosing h)" for q h
    using assms(1) that unfolding race_inv_def by (metis inside.simps(7) option.inject)
  then show "unregistering s \<longleftrightarrow> is_closing k" using assms(2) by (cases k) (auto simp: unregistering_def)
  show "\<forall>h. k = KClosing h \<longrightarrow> h = (n, HRegistration)" using assms unfolding race_inv_def by blast
qed

lemma close_call_inv:
  assumes inv: "race_inv old n s" and fresh: "fresh_from n old" and at: "closing_at p s = Some k"
    and move: "close_move (k, cl s, api s) = Some (k', c, m)"
  shows "race_inv old n (put_close p k' (s\<lparr>cl := c, api := m\<rparr>)) \<and> close_left k' < close_left k"
proof -
  have k: "inside k" "k \<noteq> KUnlock" using close_move_inside [OF move] by auto
  note h = closing_inside [OF inv at k(1)]
  obtain r f d where ok: "handles_ok old n (is_closing k) r f d (cl s) (api s)" and phase: "phase_ok n (conn_at s) (api s) r f d"
    by (rule race_invD [OF inv, unfolded h(2)])
  obtain r' f' d' where ok': "handles_ok old n (is_closing k') r' f' d' c m" and le: "(r' \<longrightarrow> r) \<and> (f' \<longrightarrow> f) \<and> (d' \<longrightarrow> d)"
    and step: "phase_ok n (Closing k) (api s) r f d \<longrightarrow> phase_ok n (Closing k') m r' f' d'"
    and k': "\<forall>h. k' = KClosing h \<longrightarrow> h = (n, HRegistration)" "inside k'" "close_left k' < close_left k"
    and frame: "next_handle m = next_handle (api s) \<and> table m = table (api s)"
    using close_move_handles [OF ok fresh h(3) move] by blast
  let ?t = "put_close p k' (s\<lparr>cl := c, api := m\<rparr>)"
  have "phase_ok n (conn_at ?t) m r' f' d'"
    using step phase at phase_mono [OF phase le frame] by (cases p) (auto split: attempt_pc.splits)
  moreover have inv': "\<forall>q. holder ?t = Some q \<longleftrightarrow> (\<exists>k. closing_at q ?t = Some k \<and> inside k)"
    using inv h(1) k(1) k'(2) at unfolding race_inv_def by (cases p) (auto simp: all_party split: attempt_pc.splits)
  moreover have "\<forall>q h. closing_at q ?t = Some (KClosing h) \<longrightarrow> h = (n, HRegistration)"
    using inv k'(1) unfolding race_inv_def by (cases p) (auto simp: all_party)
  moreover have "unregistering ?t \<longleftrightarrow> is_closing k'"
    using h(1) k'(2) inv' by (cases p; cases k') (auto simp: party_simps split: attempt_pc.splits)
  moreover have "cl ?t = c" "api ?t = m" by (cases p; simp)+
  ultimately have "race_inv old n ?t" using ok' unfolding race_inv_def by (intro conjI) (simp, simp, auto)
  then show ?thesis using k'(3) by simp
qed

lemma connect_call_inv:
  assumes inv: "race_inv old n s" and at: "conn_at s = Connecting pc" "\<not> returned pc"
    and move: "connect_move env (pc, cl s, api s) = (pc', c, m)"
  shows "race_inv old n (s\<lparr>cl := c, api := m, conn_at := Connecting pc'\<rparr>) \<and> connect_left pc' < connect_left pc"
proof -
  obtain r f d where ok: "handles_ok old n (unregistering s) r f d (cl s) (api s)" "phase_ok n (Connecting pc) (api s) r f d"
    by (rule race_invD [OF inv, unfolded at(1)])
  from connect_move_handles [OF ok at(2) move] obtain r' f' d' where
    ok': "handles_ok old n (unregistering s) r' f' d' c m" "phase_ok n (Connecting pc') m r' f' d'" "connect_left pc' < connect_left pc"
    by blast
  let ?t = "s\<lparr>cl := c, api := m, conn_at := Connecting pc'\<rparr>"
  have "unregistering ?t \<longleftrightarrow> unregistering s" using at(1) by (simp add: party_simps)
  then have "handles_ok old n (unregistering ?t) r' f' d' (cl ?t) (api ?t) \<and> phase_ok n (conn_at ?t) (api ?t) r' f' d'"
    using ok' by simp
  moreover have "closing_at p ?t = closing_at p s" for p using at(1) by (cases p) simp_all
  ultimately have "race_inv old n ?t" using inv unfolding race_inv_def by (intro conjI) (simp, simp, blast)
  then show ?thesis using ok'(3) by simp
qed

lemma race_step_inv:
  assumes "race_step env s t" "race_inv old n s" "fresh_from n old"
  shows "race_inv old n t \<and> race_left t < race_left s"
  using assms(1)
proof (cases rule: race_step.cases)
  case (connect_call pc pc' c m)
  then show ?thesis using connect_call_inv [OF assms(2) connect_call(2-4)] by (simp add: race_left_def)
next
  case (close_call p k k' c m)
  then show ?thesis using close_call_inv [OF assms(2,3) close_call(2,3)]
    by (cases p) (auto simp: race_left_def split: attempt_pc.splits)
next
  case (close_lock p)
  then show ?thesis using assms(2)
    by (cases p) (auto simp: race_inv_def race_left_def party_simps split: attempt_pc.splits)
next
  case (close_unlock p)
  then show ?thesis using assms(2)
    by (cases p) (auto simp: race_inv_def race_left_def party_simps split: attempt_pc.splits)
next
  case enter
  then show ?thesis using assms(2) by (auto simp: race_inv_def race_left_def party_simps)
next
  case (leave_loop r)
  then show ?thesis using assms(2) by (auto simp: race_inv_def race_left_def party_simps)
qed

text \<open>Where neither thread can step.\<close>

lemma blocked_iff: "inside k \<Longrightarrow> k \<noteq> KUnlock \<Longrightarrow>
    close_move (k, c, m) = None \<longleftrightarrow> (\<exists>h. k = KClosing h \<and> table m \<and> has_children (fst h) m)"
  by (cases k) (auto split: option.splits)

lemma stuck_inside:
  assumes "\<forall>t. \<not> race_step env s t" "closing_at p s = Some k" "inside k"
  shows "\<exists>h. k = KClosing h \<and> table (api s) \<and> has_children (fst h) (api s)"
proof -
  have "k \<noteq> KUnlock" using assms close_unlock by blast
  moreover have "close_move (k, cl s, api s) = None"
    using assms close_call [OF assms(2), of _ _ _ env] by (cases "close_move (k, cl s, api s)") auto
  ultimately show ?thesis using blocked_iff [OF assms(3)] by blast
qed

lemma stuck_conn:
  assumes inv: "race_inv old n s" and fresh: "fresh_from n old" and stuck: "\<forall>t. \<not> race_step env s t"
  shows "conn_at s = Closing KDone \<or> conn_at s = Closing KLock \<and> holder s = Some MainThread"
proof (cases "conn_at s")
  case Entering
  then show ?thesis using stuck enter by blast
next
  case (Connecting pc)
  then show ?thesis using stuck connect_call [of s pc env] leave_loop [of s _ env]
    by (cases "connect_move env (pc, cl s, api s)"; cases pc) auto
next
  case (Closing k)
  then have at: "closing_at ConnThread s = Some k" by simp
  obtain r f d where ok: "handles_ok old n (unregistering s) r f d (cl s) (api s)" "phase_ok n (Closing k) (api s) r f d"
    by (rule race_invD [OF inv, unfolded Closing])
  have "\<not> inside k"
  proof
    assume k: "inside k"
    from stuck_inside [OF stuck at k] obtain h where h: "k = KClosing h" "has_children (fst h) (api s)" by blast
    then have "has_children n (api s)" using closing_inside(3) [OF inv at k] by simp
    then show False using registration_children [OF ok(1) fresh] ok(2) h(1) by simp
  qed
  moreover have "holder s = Some MainThread" if "k = KLock"
  proof -
    have "holder s \<noteq> None" using stuck close_lock [OF at [unfolded that], of env] by blast
    moreover have "holder s \<noteq> Some ConnThread" using holder_inside [OF inv, of ConnThread] at that by simp
    ultimately show ?thesis by (metis option.exhaust party.exhaust)
  qed
  ultimately show ?thesis using Closing by (cases k) auto
qed

lemma stuck_cases:
  assumes inv: "race_inv old n s" and fresh: "fresh_from n old" and stuck: "\<forall>t. \<not> race_step env s t"
  shows "conn_at s = Closing KDone \<and> main_close s = KDone \<or> deadlocked s"
proof -
  have main: "inside (main_close s) \<Longrightarrow> \<exists>h. main_close s = KClosing h \<and> table (api s) \<and> has_children (fst h) (api s)"
    using stuck_inside [OF stuck, of MainThread] by simp
  have held: "holder s = Some MainThread \<longleftrightarrow> inside (main_close s)" using holder_inside [OF inv, of MainThread] by simp
  obtain r f d where ok: "handles_ok old n (unregistering s) r f d (cl s) (api s)" "phase_ok n (conn_at s) (api s) r f d"
    by (rule race_invD [OF inv])
  show ?thesis using stuck_conn [OF inv fresh stuck]
  proof
    assume conn: "conn_at s = Closing KDone"
    then have "\<not> r" using ok(2) by simp
    then have "\<not> unregistering s" using ok(1) by (simp add: handles_ok_def)
    then have "\<not> inside (main_close s)" using main by (auto simp: party_simps)
    moreover have "holder s \<noteq> Some ConnThread" using holder_inside [OF inv, of ConnThread] conn by simp
    ultimately have "holder s = None" using held by (metis option.exhaust party.exhaust)
    then have "main_close s \<noteq> KLock" using stuck close_lock [of MainThread s env] by auto
    then show ?thesis using conn \<open>\<not> inside (main_close s)\<close> by (cases "main_close s") auto
  next
    assume "conn_at s = Closing KLock \<and> holder s = Some MainThread"
    then show ?thesis using main held by (simp add: deadlocked_def)
  qed
qed

lemma no_step_cases:
  assumes "conn_at s = Closing KDone \<and> main_close s = KDone \<or> deadlocked s"
  shows "\<not> race_step env s t"
proof
  assume "race_step env s t"
  then show False using assms
  proof cases
    case (close_lock p)
    then show False using assms by (cases p) (auto simp: deadlocked_def)
  next
    case (close_call p)
    then show False using assms by (cases p) (auto simp: deadlocked_def)
  next
    case (close_unlock p)
    then show False using assms by (cases p) (auto simp: deadlocked_def)
  qed (auto simp: deadlocked_def)
qed

lemma done_idle:
  assumes "race_inv old n s" "conn_at s = Closing KDone"
  shows "quic_idle (cl s) \<and> opened (api s) = old"
proof -
  obtain r f d where "handles_ok old n (unregistering s) r f d (cl s) (api s)" "phase_ok n (Closing KDone) (api s) r f d"
    by (rule race_invD [OF assms(1), unfolded assms(2)])
  then show ?thesis by (auto simp: handles_ok_def open_entries_def quic_idle_def)
qed

lemma deadlocked_members:
  assumes "race_inv old n s" "fresh_from n old" "deadlocked s"
  shows "main_close s = KClosing (n, HRegistration) \<and> (h_configuration (cl s) \<noteq> None \<or> h_connection (cl s) \<noteq> None)"
proof -
  obtain h where h: "main_close s = KClosing h" "has_children (fst h) (api s)" using assms(3) by (auto simp: deadlocked_def)
  then have n: "h = (n, HRegistration)" using assms(1) unfolding race_inv_def by (metis closing_at.simps(2))
  obtain r f d where ok: "handles_ok old n (unregistering s) r f d (cl s) (api s)" by (rule race_invD [OF assms(1)])
  then show ?thesis using registration_children [OF ok assms(2)] h n by (auto simp: handles_ok_def)
qed


subsection \<open>The step relation as a function\<close>

lemma close_turn_call: "k \<notin> {KLock, KUnlock} \<Longrightarrow> close_turn p k s =
    map_option (\<lambda>(k', c, m). put_close p k' (s\<lparr>cl := c, api := m\<rparr>)) (close_move (k, cl s, api s))"
  by (cases k) auto

lemma close_turn_step:
  assumes "closing_at p s = Some k" "close_turn p k s = Some t"
  shows "race_step env s t"
proof (cases "k \<in> {KLock, KUnlock}")
  case True
  then show ?thesis using assms close_lock [of p s env] close_unlock [of p s env] by (auto split: if_splits)
next
  case False
  then obtain k' c m where "close_move (k, cl s, api s) = Some (k', c, m)" "t = put_close p k' (s\<lparr>cl := c, api := m\<rparr>)"
    using assms(2) unfolding close_turn_call [OF False] by auto
  then show ?thesis using close_call [OF assms(1)] by blast
qed

lemma step_close_turn:
  "closing_at p s = Some k \<Longrightarrow> close_move (k, cl s, api s) = Some (k', c, m) \<Longrightarrow>
     close_turn p k s = Some (put_close p k' (s\<lparr>cl := c, api := m\<rparr>))"
  by (cases k) auto

lemma race_turn_close:
  "closing_at p s = Some k \<Longrightarrow> race_turn env p s = close_turn p k s"
  by (cases p) (auto split: attempt_pc.splits)

lemma race_step_iff: "race_step env s t \<longleftrightarrow> (\<exists>p. race_turn env p s = Some t)"
proof
  assume "race_step env s t"
  then show "\<exists>p. race_turn env p s = Some t"
  proof cases
    case (close_lock p)
    then show ?thesis using race_turn_close [OF close_lock(2)] by (intro exI [of _ p]) simp
  next
    case (close_call p k k' c m)
    then show ?thesis using race_turn_close [OF close_call(2)] step_close_turn [OF close_call(2,3)] by (intro exI [of _ p]) simp
  next
    case (close_unlock p)
    then show ?thesis using race_turn_close [OF close_unlock(2)] by (intro exI [of _ p]) simp
  qed (intro exI [of _ ConnThread], auto)+
next
  assume "\<exists>p. race_turn env p s = Some t"
  then obtain p where p: "race_turn env p s = Some t" by blast
  show "race_step env s t"
  proof (cases "closing_at p s")
    case None
    then have conn: "p = ConnThread" by (cases p) auto
    show ?thesis
    proof (cases "conn_at s")
      case Entering
      then show ?thesis using p conn enter [of s env] by (auto split: if_splits)
    next
      case (Connecting pc)
      obtain pc' c m where move: "connect_move env (pc, cl s, api s) = (pc', c, m)" by (cases "connect_move env (pc, cl s, api s)")
      show ?thesis
        using p conn Connecting move leave_loop [of s _ env] connect_call [OF Connecting _ move]
        by (cases pc) auto
    next
      case (Closing k)
      then show ?thesis using None conn by simp
    qed
  next
    case (Some k)
    then show ?thesis using p race_turn_close [OF Some] by (auto intro: close_turn_step)
  qed
qed

lemma race_run_steps: "race_run env ps s = Some t \<Longrightarrow> (race_step env)\<^sup>*\<^sup>* s t"
proof (induction ps arbitrary: s)
  case (Cons p ps)
  then obtain u where u: "race_turn env p s = Some u" "race_run env ps u = Some t"
    by (auto split: bind_splits)
  then have "race_step env s u" by (auto simp: race_step_iff)
  then show ?case using Cons.IH [OF u(2)] by (rule converse_rtranclp_into_rtranclp)
qed simp

lemma hang_state:
  "case race_run (answering True) hang_schedule (race_init (client_init cfg) msquic_init) of
     None \<Rightarrow> False
   | Some s \<Rightarrow> holder s = Some MainThread \<and> main_close s = KClosing (0, HRegistration) \<and> conn_at s = Closing KLock \<and>
      h_connection (cl s) = Some (2, HConnection) \<and>
      list_all (\<lambda>p. Option.is_none (race_turn (answering True) p s)) [ConnThread, MainThread]"
  by code_simp

lemma race_run_length: "race_run env ps s = Some t \<Longrightarrow> (race_step env ^^ length ps) s t"
proof (induction ps arbitrary: s)
  case (Cons p ps)
  then obtain u where u: "race_turn env p s = Some u" "race_run env ps u = Some t"
    by (auto split: bind_splits)
  then have "race_step env s u" by (auto simp: race_step_iff)
  then show ?case using Cons.IH [OF u(2)] by (simp add: relpowp_Suc_I2 del: relpowp.simps)
qed simp

lemma late_state:
  "case race_run (answering True) late_schedule (race_init (client_init quic_config_init) msquic_init) of
     None \<Rightarrow> False
   | Some s \<Rightarrow> conn_at s = Closing KDone \<and> main_close s = KDone"
  by code_simp

section \<open>Properties\<close>



text \<open>
  C9: as written, ending the program can hang on a client that is connecting: the main thread, which holds the mutex of
  \<^verbatim>\<open>close\<close>, waits in \<^verbatim>\<open>RegistrationClose\<close> for a connection that the connection thread opened in the meantime, and that thread,
  which alone would close the connection, waits for the mutex. Neither has a step.
\<close>

theorem close_can_deadlock:
  "\<exists>s. (race_step (answering True))\<^sup>*\<^sup>* (race_init (client_init cfg) msquic_init) s \<and>
     holder s = Some MainThread \<and> main_close s = KClosing (0, HRegistration) \<and> conn_at s = Closing KLock \<and>
     h_connection (cl s) \<noteq> None \<and> (\<forall>t. \<not> race_step (answering True) s t)"
proof -
  let ?r = "race_run (answering True) hang_schedule (race_init (client_init cfg) msquic_init)"
  obtain s where run: "?r = Some s" using hang_state [of cfg] by (cases ?r) (simp_all only: option.case)
  have at: "holder s = Some MainThread" "main_close s = KClosing (0, HRegistration)" "conn_at s = Closing KLock"
    "h_connection (cl s) = Some (2, HConnection)" and stuck: "Option.is_none (race_turn (answering True) ConnThread s)"
    "Option.is_none (race_turn (answering True) MainThread s)"
    using hang_state [of cfg] unfolding run option.case list.pred_inject by blast+
  have "race_turn (answering True) p s = None" for p
    using stuck by (cases p) (simp_all only: Option.is_none_def)
  then have "\<not> race_step (answering True) s t" for t by (simp add: race_step_iff del: race_turn.simps)
  with at race_run_steps [OF run] show ?thesis by (intro exI [of _ s]) simp
qed

end

