(* ===== verification/Cidr.thy ===== *)
theory Cidr
  imports Prelude
begin

text \<open>
  Addresses and CIDR blocks: \<^verbatim>\<open>include/cfd/cidr.hpp\<close> and \<^verbatim>\<open>src/net/cidr.cpp\<close>.

  \<^item> \<open>ip_addr\<close> and \<open>cidr\<close> are the structs; the sixteen bytes of an address are a list whose length
    \<open>wf_ip\<close> states, and \<open>wf_cidr\<close> adds the bound of the prefix length (32 or 128).
  \<^item> \<open>ip_addr_parse\<close>, \<open>ip_addr_to_string\<close>, \<open>cidr_parse\<close>, \<open>cidr_to_string\<close> and \<open>cidr_contains\<close> are the
    member functions. The C library's \<^verbatim>\<open>inet_pton\<close> and \<^verbatim>\<open>inet_ntop\<close> are the parameters \<open>pton\<close> and
    \<open>ntop\<close>; \<open>inet_pton_sizes\<close> and \<open>inet_text_roundtrip\<close> state what POSIX documents of them.
  \<^item> \<open>cidr_matches\<close> is the specification: same family and the leading \<open>prefix_len\<close> bits agree.
\<close>

section \<open>Definitions\<close>

datatype family = V4 | V6

record ip_addr =
  ip_family :: family
  ip_bytes :: "u8 list"

record cidr =
  cidr_addr :: ip_addr
  cidr_prefix_len :: u8

text \<open>The member initialisers: \<^verbatim>\<open>IpAddr{}\<close> and \<^verbatim>\<open>Cidr{}\<close>.\<close>

definition ip_addr_init :: ip_addr where
  "ip_addr_init = \<lparr>ip_family = V4, ip_bytes = replicate 16 0\<rparr>"

definition cidr_init :: cidr where
  "cidr_init = \<lparr>cidr_addr = ip_addr_init, cidr_prefix_len = 0\<rparr>"

fun addr_len :: "family \<Rightarrow> nat" where
  "addr_len V4 = 4"
| "addr_len V6 = 16"

fun max_bits :: "family \<Rightarrow> nat" where
  "max_bits V4 = 32"
| "max_bits V6 = 128"

definition wf_ip :: "ip_addr \<Rightarrow> bool" where
  "wf_ip a \<longleftrightarrow> length (ip_bytes a) = 16"

definition wf_cidr :: "cidr \<Rightarrow> bool" where
  "wf_cidr c \<longleftrightarrow> wf_ip (cidr_addr c) \<and> unat (cidr_prefix_len c) \<le> max_bits (ip_family (cidr_addr c))"

subsection \<open>Text to address\<close>

type_synonym inet_pton_fn = "family \<Rightarrow> string \<Rightarrow> u8 list option"
type_synonym inet_ntop_fn = "family \<Rightarrow> u8 list \<Rightarrow> string option"

text \<open>
  \<open>pton f s = Some bs\<close> is a call that returns 1 and stores \<open>bs\<close> at the start of the destination.
\<close>

definition store_front :: "u8 list \<Rightarrow> u8 list \<Rightarrow> u8 list" where
  "store_front src dst = src @ drop (length src) dst"

definition ip_addr_parse :: "inet_pton_fn \<Rightarrow> string \<Rightarrow> ip_addr option" where
  "ip_addr_parse pton s =
     (if 64 \<le> length s then None
      else let buf = c_str s; a = ip_addr_init in
        case pton V4 buf of
          Some bs \<Rightarrow> Some (a\<lparr>ip_bytes := store_front bs (ip_bytes a), ip_family := V4\<rparr>)
        | None \<Rightarrow>
           (case pton V6 buf of
              Some bs \<Rightarrow> Some (a\<lparr>ip_bytes := store_front bs (ip_bytes a), ip_family := V6\<rparr>)
            | None \<Rightarrow> None))"

text \<open>The digit loop of \<^verbatim>\<open>Cidr::parse\<close>, on 32-bit unsigned arithmetic.\<close>

fun parse_plen :: "string \<Rightarrow> u32 \<Rightarrow> u32 option" where
  "parse_plen [] plen = Some plen"
| "parse_plen (c # cs) plen =
     (if \<not> is_digit c then None
      else let plen' = plen * 10 + of_nat (char_code c - 48) in
        if plen' > 128 then None else parse_plen cs plen')"

definition cidr_parse :: "inet_pton_fn \<Rightarrow> string \<Rightarrow> cidr option" where
  "cidr_parse pton s =
     (case find_char (CHR ''/'') s of
        None \<Rightarrow> None
      | Some slash \<Rightarrow>
         (let addr_part = take slash s; plen_part = drop (slash + 1) s in
          case ip_addr_parse pton addr_part of
            None \<Rightarrow> None
          | Some a \<Rightarrow>
             (case parse_plen plen_part 0 of
                None \<Rightarrow> None
              | Some plen \<Rightarrow>
                 (let mx = (if ip_family a = V4 then 32 else 128) in
                  if plen > mx then None
                  else Some \<lparr>cidr_addr = a, cidr_prefix_len = ucast plen\<rparr>))))"

subsection \<open>Address to text\<close>

text \<open>
  \<^verbatim>\<open>inet_ntop\<close> reads \<open>addr_len\<close> bytes and may fail (then the empty string is returned);
  \<^verbatim>\<open>snprintf\<close> into 54 bytes keeps at most 53 characters.
\<close>

definition ip_addr_to_string :: "inet_ntop_fn \<Rightarrow> ip_addr \<Rightarrow> string" where
  "ip_addr_to_string ntop a =
     (case ntop (ip_family a) (take (addr_len (ip_family a)) (ip_bytes a)) of
        None \<Rightarrow> [] | Some s \<Rightarrow> c_str s)"

definition cidr_to_string :: "inet_ntop_fn \<Rightarrow> cidr \<Rightarrow> string" where
  "cidr_to_string ntop c =
     take 53 (ip_addr_to_string ntop (cidr_addr c) @ ''/'' @ dec_string (unat (cidr_prefix_len c)))"

subsection \<open>Containment\<close>

text \<open>
  \<open>Some b\<close> is the returned flag; \<open>None\<close> stands for a read outside the sixteen bytes.
\<close>

definition partial_mask :: "u8 \<Rightarrow> u8" where
  "partial_mask plen = ucast ((push_bit (8 - unat plen mod 8) (0xFF :: u32)) AND 0xFF)"

fun bytes_equal :: "u8 list \<Rightarrow> u8 list \<Rightarrow> nat \<Rightarrow> nat \<Rightarrow> bool option" where
  "bytes_equal xs ys i 0 = Some True"
| "bytes_equal xs ys i (Suc n) =
     (case (arr_get xs i, arr_get ys i) of
        (Some x, Some y) \<Rightarrow> if x \<noteq> y then Some False else bytes_equal xs ys (Suc i) n
      | _ \<Rightarrow> None)"

definition cidr_contains :: "cidr \<Rightarrow> ip_addr \<Rightarrow> bool option" where
  "cidr_contains c other =
     (if ip_family other \<noteq> ip_family (cidr_addr c) then Some False
      else let nbytes = unat (cidr_prefix_len c) div 8;
               m = partial_mask (cidr_prefix_len c) in
        case bytes_equal (ip_bytes (cidr_addr c)) (ip_bytes other) 0 nbytes of
          None \<Rightarrow> None
        | Some False \<Rightarrow> Some False
        | Some True \<Rightarrow>
           (if unat (cidr_prefix_len c) mod 8 \<noteq> 0 then
              (case (arr_get (ip_bytes (cidr_addr c)) nbytes, arr_get (ip_bytes other) nbytes) of
                 (Some x, Some y) \<Rightarrow> Some (x AND m = y AND m)
               | _ \<Rightarrow> None)
            else Some True))"

subsection \<open>Specification\<close>

definition ip_bits :: "ip_addr \<Rightarrow> bool list" where
  "ip_bits a = bytes_bits (ip_bytes a)"

definition cidr_prefix :: "cidr \<Rightarrow> bool list" where
  "cidr_prefix c = take (unat (cidr_prefix_len c)) (ip_bits (cidr_addr c))"

definition cidr_matches :: "cidr \<Rightarrow> ip_addr \<Rightarrow> bool" where
  "cidr_matches c a \<longleftrightarrow>
     ip_family a = ip_family (cidr_addr c) \<and>
     take (unat (cidr_prefix_len c)) (ip_bits a) = cidr_prefix c"

text \<open>
  What POSIX documents of the conversions: a successful \<^verbatim>\<open>inet_pton\<close> writes 4 or 16 bytes, and the
  text of an address reads back as that address, has no NUL and no slash, fits \<^verbatim>\<open>INET6_ADDRSTRLEN\<close>
  and is not a valid text of the other family.
\<close>

definition inet_pton_sizes :: "inet_pton_fn \<Rightarrow> bool" where
  "inet_pton_sizes pton \<longleftrightarrow> (\<forall>f s bs. pton f s = Some bs \<longrightarrow> length bs = addr_len f)"

definition inet_text_roundtrip :: "inet_pton_fn \<Rightarrow> inet_ntop_fn \<Rightarrow> bool" where
  "inet_text_roundtrip pton ntop \<longleftrightarrow>
     (\<forall>f bs. length bs = addr_len f \<longrightarrow>
        (\<exists>s. ntop f bs = Some s \<and> pton f s = Some bs \<and> length s < 46 \<and>
             CHR 0x00 \<notin> set s \<and> CHR ''/'' \<notin> set s \<and> (f = V6 \<longrightarrow> pton V4 s = None)))"

text \<open>An address in the form \<open>ip_addr_parse\<close> produces: the bytes past a V4 address are zero.\<close>

definition canonical_ip :: "ip_addr \<Rightarrow> bool" where
  "canonical_ip a \<longleftrightarrow> wf_ip a \<and> drop (addr_len (ip_family a)) (ip_bytes a)
      = replicate (16 - addr_len (ip_family a)) 0"

text \<open>The number a digit string denotes; the prefix length a CIDR text asks for.\<close>

definition dec_value :: "string \<Rightarrow> nat" where
  "dec_value s = foldl (\<lambda>v c. 10 * v + (char_code c - 48)) 0 s"

subsection \<open>A concrete text form\<close>

text \<open>
  Two letters per byte: an instance of the conversions that satisfies the documented laws, for the
  witnesses of the theorems that assume them.
\<close>

definition letter_ntop :: inet_ntop_fn where
  "letter_ntop f bs =
     Some (concat (map (\<lambda>b. [char_of (65 + unat b div 16), char_of (65 + unat b mod 16)]) bs))"

fun letter_decode :: "string \<Rightarrow> u8 list option" where
  "letter_decode [] = Some []"
| "letter_decode [c] = None"
| "letter_decode (c # d # cs) =
     map_option (\<lambda>bs. of_nat (16 * (char_code c - 65) + (char_code d - 65)) # bs) (letter_decode cs)"

definition letter_pton :: inet_pton_fn where
  "letter_pton f s = (if length s = 2 * addr_len f then letter_decode s else None)"

section \<open>Lemmas\<close>

lemmas wf_defs = wf_ip_def wf_cidr_def

lemma length_ip_bits [bits_simps]: "wf_ip a \<Longrightarrow> length (ip_bits a) = 128"
  by (simp add: ip_bits_def wf_ip_def)

lemma max_bits_le [simp]: "max_bits f \<le> 128"
  by (cases f) auto

lemma wf_cidr_plen_le: "wf_cidr c \<Longrightarrow> unat (cidr_prefix_len c) \<le> 128"
  using max_bits_le [of "ip_family (cidr_addr c)"] by (simp add: wf_cidr_def del: max_bits_le)

lemma length_cidr_prefix [bits_simps]:
  "wf_cidr c \<Longrightarrow> length (cidr_prefix c) = unat (cidr_prefix_len c)"
  using wf_cidr_plen_le [of c] by (simp add: cidr_prefix_def length_ip_bits wf_cidr_def)

subsection \<open>Containment is agreement on the prefix bits\<close>

lemma bytes_equal_correct:
  "i + n \<le> length xs \<Longrightarrow> i + n \<le> length ys \<Longrightarrow>
   bytes_equal xs ys i n = Some (take n (drop i xs) = take n (drop i ys))"
proof (induction n arbitrary: i)
  case 0
  then show ?case by simp
next
  case (Suc n)
  then have i: "i < length xs" "i < length ys" by auto
  have d: "drop i xs = xs ! i # drop (Suc i) xs" "drop i ys = ys ! i # drop (Suc i) ys"
    using i by (simp_all add: Cons_nth_drop_Suc)
  show ?case using Suc i by (simp add: d arr_get_in)
qed

lemma partial_mask_bit:
  assumes "n < 8" "unat plen mod 8 \<noteq> 0"
  shows "bit (partial_mask plen) n \<longleftrightarrow> 8 - unat plen mod 8 \<le> n"
proof -
  have ff32: "bit (0xFF :: u32) k \<longleftrightarrow> k < 8" for k
  proof -
    have "(0xFF :: u32) = mask 8" by (simp add: mask_eq_exp_minus_1)
    then have "bit (0xFF :: u32) k \<longleftrightarrow> bit (mask 8 :: u32) k" by simp
    then show ?thesis by (auto simp: bit_mask_iff simp del: bit_numeral_simps)
  qed
  have "bit (partial_mask plen) n \<longleftrightarrow>
      bit (push_bit (8 - unat plen mod 8) (0xFF :: u32)) n \<and> bit (0xFF :: u32) n"
    unfolding partial_mask_def using assms(1) by (simp only: bit_ucast_iff bit_and_iff) simp
  also have "\<dots> \<longleftrightarrow> 8 - unat plen mod 8 \<le> n"
    using assms by (auto simp only: bit_push_bit_iff ff32) auto
  finally show ?thesis .
qed

lemma take_bytes_bits_split:
  assumes "k < length bs" "j \<le> 8"
  shows "take (8 * k + j) (bytes_bits bs) = bytes_bits (take k bs) @ take j (byte_bits (bs ! k))"
proof -
  have "take (8 * k + j) (bytes_bits bs) = take (8 * k) (bytes_bits bs) @ take j (drop (8 * k) (bytes_bits bs))"
    by (simp add: take_add)
  also have "drop (8 * k) (bytes_bits bs) = byte_bits (bs ! k) @ bytes_bits (drop (Suc k) bs)"
    using assms(1) by (simp add: drop_mult8_bytes_bits flip: Cons_nth_drop_Suc)
  finally show ?thesis using assms(2) by (simp add: take_mult8_bytes_bits)
qed

lemma cidr_contains_matches:
  assumes c: "wf_cidr c" and a: "wf_ip a"
  shows "cidr_contains c a = Some (cidr_matches c a)"
proof (cases "ip_family a = ip_family (cidr_addr c)")
  case False
  then show ?thesis by (simp add: cidr_contains_def cidr_matches_def)
next
  case fam: True
  define p k j where "p = unat (cidr_prefix_len c)" and "k = p div 8" and "j = p mod 8"
  let ?xs = "ip_bytes (cidr_addr c)" and ?ys = "ip_bytes a"
  have len: "length ?xs = 16" "length ?ys = 16" using c a by (auto simp: wf_defs)
  have p: "p \<le> 128" "p = 8 * k + j" "j < 8" using wf_cidr_plen_le [OF c] by (auto simp: p_def k_def j_def)
  have beq: "bytes_equal ?xs ?ys 0 k = Some (take k ?xs = take k ?ys)"
    using p len by (subst bytes_equal_correct) auto
  have m: "cidr_matches c a \<longleftrightarrow> take p (bytes_bits ?ys) = take p (bytes_bits ?xs)"
    by (simp add: cidr_matches_def cidr_prefix_def ip_bits_def fam p_def)
  show ?thesis
  proof (cases "j = 0")
    case True
    have "take p (bytes_bits ?ys) = take p (bytes_bits ?xs) \<longleftrightarrow> take k ?ys = take k ?xs"
      using p True len by (simp add: take_mult8_bytes_bits bytes_bits_inj)
    then show ?thesis
      using True by (auto simp: cidr_contains_def fam Let_def beq m simp flip: p_def k_def j_def)
  next
    case False
    then have k: "k < 16" using p by auto
    have eq: "take p (bytes_bits ?ys) = take p (bytes_bits ?xs) \<longleftrightarrow>
        take k ?ys = take k ?xs \<and> take j (byte_bits (?ys ! k)) = take j (byte_bits (?xs ! k))"
      using k len p(2,3) by (simp add: take_bytes_bits_split bytes_bits_inj)
    have "(?xs ! k) AND partial_mask (cidr_prefix_len c) = (?ys ! k) AND partial_mask (cidr_prefix_len c)
        \<longleftrightarrow> take j (byte_bits (?xs ! k)) = take j (byte_bits (?ys ! k))"
      using False p(3) by (intro and_high_mask_eq_iff) (auto simp: partial_mask_bit j_def p_def)
    then show ?thesis
      using False k len
      by (cases "take k ?xs = take k ?ys")
        (auto simp: cidr_contains_def fam Let_def beq m eq arr_get_in simp flip: p_def k_def j_def)
  qed
qed

subsection \<open>Parsing\<close>

lemma parse_plen_bound: "parse_plen s p = Some q \<Longrightarrow> p \<le> 128 \<Longrightarrow> q \<le> 128"
  by (induction s arbitrary: p) (auto simp: Let_def split: if_splits)

lemma parse_plen_digits: "parse_plen s p = Some q \<Longrightarrow> c \<in> set s \<Longrightarrow> is_digit c"
  by (induction s arbitrary: p) (auto simp: Let_def split: if_splits)

lemma store_front_length: "length src \<le> length dst \<Longrightarrow> length (store_front src dst) = length dst"
  by (simp add: store_front_def)

lemma ip_addr_parse_canonical:
  assumes pton: "inet_pton_sizes pton" and s: "ip_addr_parse pton s = Some a"
  shows "canonical_ip a"
proof -
  from s obtain f bs where bs: "pton f (c_str s) = Some bs"
      and a: "a = \<lparr>ip_family = f, ip_bytes = store_front bs (replicate 16 0)\<rparr>"
    by (auto simp: ip_addr_parse_def ip_addr_init_def Let_def split: if_splits option.splits)
  from pton bs have "length bs = addr_len f" by (auto simp: inet_pton_sizes_def)
  then show ?thesis
    by (cases f) (auto simp: a canonical_ip_def wf_ip_def store_front_def)
qed

lemma cidr_parse_SomeD:
  assumes "cidr_parse pton s = Some c"
  obtains slash plen where "find_char (CHR ''/'') s = Some slash"
    "ip_addr_parse pton (take slash s) = Some (cidr_addr c)"
    "parse_plen (drop (slash + 1) s) 0 = Some plen" "cidr_prefix_len c = ucast plen"
    "plen \<le> (if ip_family (cidr_addr c) = V4 then 32 else 128)"
  using assms
  by (auto simp: cidr_parse_def Let_def not_less split: option.splits if_splits)

lemma cidr_parse_wf:
  assumes pton: "inet_pton_sizes pton" and s: "cidr_parse pton s = Some c"
  shows "wf_cidr c \<and> canonical_ip (cidr_addr c)"
proof -
  obtain slash and plen :: u32 where a: "ip_addr_parse pton (take slash s) = Some (cidr_addr c)"
      and plen: "cidr_prefix_len c = ucast plen"
      and le: "plen \<le> (if ip_family (cidr_addr c) = V4 then 32 else 128)"
    by (rule cidr_parse_SomeD [OF s]) blast
  have can: "canonical_ip (cidr_addr c)" using ip_addr_parse_canonical [OF pton a] .
  have le': "unat plen \<le> max_bits (ip_family (cidr_addr c))"
    using le by (cases "ip_family (cidr_addr c)") (auto simp: word_le_nat_alt)
  then have "unat plen \<le> 128" using max_bits_le le_trans by blast
  then have "unat (cidr_prefix_len c) = unat plen"
    by (simp add: plen unat_ucast)
  with le' can show ?thesis by (simp add: wf_cidr_def canonical_ip_def)
qed

lemma dec_value_snoc: "dec_value (xs @ [c]) = 10 * dec_value xs + (char_code c - 48)"
  by (simp add: dec_value_def)

lemma dec_value_dec_string [string_simps]: "dec_value (dec_string n) = n"
proof (induction n rule: dec_string.induct)
  case (1 n)
  show ?case
  proof (cases "n < 10")
    case True
    then show ?thesis by (subst dec_string.simps) (simp add: dec_value_def char_code_digit)
  next
    case False
    with 1 show ?thesis by (subst dec_string.simps) (simp add: dec_value_snoc char_code_digit)
  qed
qed

lemma parse_plen_snoc:
  "parse_plen (xs @ ys) p = (case parse_plen xs p of None \<Rightarrow> None | Some q \<Rightarrow> parse_plen ys q)"
  by (induction xs arbitrary: p) (auto simp: Let_def)

text \<open>The digit loop decides whether the text is a number of at most 128, and returns that number.\<close>

lemma parse_plen_value:
  "parse_plen s 0 = (if (\<forall>c\<in>set s. is_digit c) \<and> dec_value s \<le> 128 then Some (of_nat (dec_value s)) else None)"
proof (induction s rule: rev_induct)
  case Nil
  then show ?case by (simp add: dec_value_def)
next
  case (snoc c s)
  show ?case
  proof (cases "(\<forall>c\<in>set s. is_digit c) \<and> is_digit c")
    case False
    then show ?thesis using snoc by (auto simp: parse_plen_snoc)
  next
    case digits: True
    define v d where "v = dec_value s" and "d = char_code c - 48"
    have val: "dec_value (s @ [c]) = 10 * v + d" by (simp add: dec_value_snoc v_def d_def)
    show ?thesis
    proof (cases "v \<le> 128")
      case False
      then show ?thesis using snoc digits by (simp add: parse_plen_snoc val flip: v_def)
    next
      case True
      have d: "d \<le> 9" using digits by (auto simp: is_digit_def d_def)
      have eq: "(of_nat v :: u32) * 10 + of_nat d = of_nat (10 * v + d)" by (simp add: mult.commute)
      have "10 * v + d < 2 ^ 32" using True d by simp
      then have "unat (of_nat (10 * v + d) :: u32) = 10 * v + d"
        by (intro unat_of_nat_small) simp
      then have cmp: "(of_nat (10 * v + d) :: u32) > 128 \<longleftrightarrow> 128 < 10 * v + d"
        by (simp add: word_less_nat_alt)
      have "parse_plen (s @ [c]) 0 = (let p = of_nat (10 * v + d) in if p > 128 then None else Some p)"
        using snoc True digits by (simp add: parse_plen_snoc Let_def eq flip: v_def d_def)
      then show ?thesis using digits cmp by (auto simp: val Let_def)
    qed
  qed
qed

lemma of_nat_le_u32:
  assumes "n \<le> 128"
  shows "(of_nat n :: u32) \<le> 32 \<longleftrightarrow> n \<le> 32" and "(of_nat n :: u32) \<le> 128"
proof -
  have "unat (of_nat n :: u32) = n" using assms by (intro unat_of_nat_small) simp
  then show "(of_nat n :: u32) \<le> 32 \<longleftrightarrow> n \<le> 32" and "(of_nat n :: u32) \<le> 128"
    using assms by (simp_all add: word_le_nat_alt)
qed

lemma cidr_parse_split:
  assumes "CHR ''/'' \<notin> set t"
  shows "cidr_parse pton (t @ ''/'' @ d) =
    (case ip_addr_parse pton t of None \<Rightarrow> None
     | Some a \<Rightarrow>
        if (\<forall>c\<in>set d. is_digit c) \<and> dec_value d \<le> max_bits (ip_family a)
        then Some \<lparr>cidr_addr = a, cidr_prefix_len = of_nat (dec_value d)\<rparr> else None)"
proof -
  have slash: "find_char (CHR ''/'') (t @ CHR ''/'' # d) = Some (length t)"
    using assms by (rule find_char_append)
  have uc: "n \<le> 128 \<Longrightarrow> (ucast (of_nat n :: u32) :: u8) = of_nat n" for n
    by (simp add: ucast_of_nat_small)
  have mb: "max_bits (ip_family a) = (if ip_family a = V4 then 32 else 128)" for a :: ip_addr
    by (cases "ip_family a") auto
  show ?thesis
    by (cases "ip_addr_parse pton t")
      (auto simp: cidr_parse_def slash Let_def parse_plen_value of_nat_le_u32 uc mb not_less
        simp flip: not_le split: if_splits)
qed

lemma letter_decode_length: "letter_decode s = Some bs \<Longrightarrow> length s = 2 * length bs"
  by (induction s arbitrary: bs rule: letter_decode.induct) auto

lemma letter_decode_encode:
  "letter_decode (concat (map (\<lambda>b. [char_of (65 + unat b div 16), char_of (65 + unat b mod 16)]) bs)) = Some bs"
proof (induction bs)
  case Nil
  then show ?case by simp
next
  case (Cons b bs)
  have "65 + unat b div 16 < 256" "65 + unat b mod 16 < 256"
    using unat_u8_div16 [of b] mod_less_divisor [of 16 "unat b"] by linarith+
  then have "char_code (char_of (65 + unat b div 16)) = 65 + unat b div 16"
    "char_code (char_of (65 + unat b mod 16)) = 65 + unat b mod 16"
    by (simp_all add: char_code_def)
  then show ?case using Cons by (simp add: mult.commute)
qed

lemma letter_sizes: "inet_pton_sizes letter_pton"
  by (auto simp: inet_pton_sizes_def letter_pton_def dest: letter_decode_length split: if_splits)

lemma letter_chars:
  "c \<in> set (concat (map (\<lambda>b. [char_of (65 + unat b div 16), char_of (65 + unat b mod 16)]) (bs :: u8 list)))
   \<Longrightarrow> 65 \<le> char_code c"
proof -
  have "65 \<le> char_code (char_of (65 + n))" if "n < 16" for n :: nat
    using that by (simp add: char_code_def)
  moreover have "unat b div 16 < 16" for b :: u8
    by simp
  moreover assume "c \<in> set (concat (map (\<lambda>b. [char_of (65 + unat b div 16), char_of (65 + unat b mod 16)]) bs))"
  ultimately show ?thesis by auto
qed

lemma letter_roundtrip: "inet_text_roundtrip letter_pton letter_ntop"
proof -
  have "\<exists>s. letter_ntop f bs = Some s \<and> letter_pton f s = Some bs \<and> length s < 46 \<and>
      CHR 0x00 \<notin> set s \<and> CHR ''/'' \<notin> set s \<and> (f = V6 \<longrightarrow> letter_pton V4 s = None)"
    if len: "length bs = addr_len f" for f bs
  proof -
    let ?s = "concat (map (\<lambda>b. [char_of (65 + unat b div 16), char_of (65 + unat b mod 16)]) bs) :: string"
    have l: "length ?s = 2 * addr_len f"
      using letter_decode_length [OF letter_decode_encode [of bs]] len by simp
    have "CHR 0x00 \<notin> set ?s" "CHR ''/'' \<notin> set ?s"
      using letter_chars [of "CHR 0x00" bs] letter_chars [of "CHR ''/''" bs]
      by (auto simp: char_code_def simp del: set_concat set_map)
    then show ?thesis using l
      by (cases f) (auto simp: letter_ntop_def letter_pton_def letter_decode_encode)
  qed
  then show ?thesis by (simp add: inet_text_roundtrip_def)
qed

subsection \<open>The text round trip\<close>

lemma ip_addr_parse_text:
  assumes conv: "ntop (ip_family a) (take (addr_len (ip_family a)) (ip_bytes a)) = Some s"
    "pton (ip_family a) s = Some (take (addr_len (ip_family a)) (ip_bytes a))"
    "length s < 46" "CHR 0x00 \<notin> set s" "ip_family a = V6 \<longrightarrow> pton V4 s = None"
    and a: "canonical_ip a"
  shows "ip_addr_parse pton (ip_addr_to_string ntop a) = Some a"
proof -
  have str: "c_str s = s" using conv(4) by (rule c_str_id)
  have sf: "store_front (take n (ip_bytes a)) (replicate 16 0) = ip_bytes a"
    if "n = addr_len (ip_family a)" for n
  proof -
    have "n \<le> 16" using that by (cases "ip_family a") auto
    then have "store_front (take n (ip_bytes a)) (replicate 16 0) = take n (ip_bytes a) @ drop n (ip_bytes a)"
      using a that by (simp add: store_front_def canonical_ip_def wf_ip_def min_def)
    then show ?thesis by simp
  qed
  show ?thesis
    using conv sf [OF refl]
    by (cases "ip_family a") (simp_all add: ip_addr_to_string_def ip_addr_parse_def str ip_addr_init_def)
qed

lemma cidr_text_parses:
  assumes conv: "inet_text_roundtrip pton ntop" and c: "wf_cidr c" "canonical_ip (cidr_addr c)"
  shows "cidr_parse pton (cidr_to_string ntop c) = Some c \<and>
     (\<exists>s. ntop (ip_family (cidr_addr c)) (take (addr_len (ip_family (cidr_addr c))) (ip_bytes (cidr_addr c))) = Some s
        \<and> cidr_to_string ntop c = s @ ''/'' @ dec_string (unat (cidr_prefix_len c)))"
proof -
  let ?a = "cidr_addr c" and ?p = "unat (cidr_prefix_len c)"
  let ?bs = "take (addr_len (ip_family ?a)) (ip_bytes ?a)"
  have "length ?bs = addr_len (ip_family ?a)"
    using c by (cases "ip_family ?a") (auto simp: wf_cidr_def wf_ip_def)
  then obtain s where s: "ntop (ip_family ?a) ?bs = Some s" "pton (ip_family ?a) s = Some ?bs"
      "length s < 46" "CHR 0x00 \<notin> set s" "CHR ''/'' \<notin> set s" "ip_family ?a = V6 \<longrightarrow> pton V4 s = None"
    using conv unfolding inet_text_roundtrip_def by blast
  have str: "ip_addr_to_string ntop ?a = s"
    using s by (simp add: ip_addr_to_string_def c_str_id)
  have "ip_addr_parse pton s = Some ?a"
    using ip_addr_parse_text [of ntop ?a s pton] s c str by simp
  moreover have "length (dec_string ?p) \<le> 3"
    using wf_cidr_plen_le [OF c(1)] by (intro dec_string_length) auto
  then have "cidr_to_string ntop c = s @ ''/'' @ dec_string ?p"
    using s(3) by (simp add: cidr_to_string_def str)
  moreover have "?p \<le> max_bits (ip_family ?a)" using c by (simp add: wf_cidr_def)
  ultimately show ?thesis
    using cidr_parse_split [OF s(5)] dec_string_digits
    s(1) by (simp add: dec_value_dec_string)
qed

section \<open>Properties\<close>

text \<open>C16: For a well-formed block and address, \<^verbatim>\<open>Cidr::contains\<close> stays inside both byte arrays and
  returns exactly whether the families are equal and the first \<open>prefix_len\<close> bits agree.\<close>

theorem cidr_contains_correct:
  assumes "wf_cidr c" and "wf_ip a"
  shows "cidr_contains c a = Some (cidr_matches c a)"
  using assms by (rule cidr_contains_matches)

theorem cidr_contains_correct_witness:
  "cidr_contains \<lparr>cidr_addr = \<lparr>ip_family = V4, ip_bytes = [10, 99] @ replicate 14 0\<rparr>, cidr_prefix_len = 12\<rparr>
     \<lparr>ip_family = V4, ip_bytes = [10, 100, 5, 7] @ replicate 12 0\<rparr>
   = Some (cidr_matches \<lparr>cidr_addr = \<lparr>ip_family = V4, ip_bytes = [10, 99] @ replicate 14 0\<rparr>, cidr_prefix_len = 12\<rparr>
     \<lparr>ip_family = V4, ip_bytes = [10, 100, 5, 7] @ replicate 12 0\<rparr>)"
  by (rule cidr_contains_correct) (simp_all add: wf_cidr_def wf_ip_def)

text \<open>Every block \<^verbatim>\<open>Cidr::parse\<close> returns is well formed (sixteen address bytes, prefix length at most
  32 or 128 by family) and the bytes after an IPv4 address are zero, whatever the input text.\<close>

theorem cidr_parse_sound:
  assumes "inet_pton_sizes pton" and "cidr_parse pton s = Some c"
  shows "wf_cidr c \<and> canonical_ip (cidr_addr c)"
  using assms by (rule cidr_parse_wf)

theorem cidr_parse_sound_witness:
  "\<exists>c. cidr_parse letter_pton ''AKGDAAAA/16'' = Some c \<and> wf_cidr c \<and> canonical_ip (cidr_addr c)"
proof -
  have "cidr_parse letter_pton ''AKGDAAAA/16'' =
      Some \<lparr>cidr_addr = \<lparr>ip_family = V4, ip_bytes = [10, 99] @ replicate 14 0\<rparr>, cidr_prefix_len = 16\<rparr>"
    by code_simp
  with cidr_parse_sound [OF letter_sizes this] show ?thesis by blast
qed

text \<open>C14: \<^verbatim>\<open>Cidr::parse\<close> decides exactly this grammar: an address text, the first slash, then decimal
  digits whose value is at most the family's maximum; a text without a slash, a bad address, a
  character that is no digit or too large a value is rejected. The overflow guard inside the digit
  loop never changes the verdict.\<close>

theorem cidr_parse_grammar:
  assumes "CHR ''/'' \<notin> set t"
  shows "cidr_parse pton t = None \<and> cidr_parse pton (t @ ''/'' @ d) =
    (case ip_addr_parse pton t of None \<Rightarrow> None
     | Some a \<Rightarrow>
        if (\<forall>c\<in>set d. is_digit c) \<and> dec_value d \<le> max_bits (ip_family a)
        then Some \<lparr>cidr_addr = a, cidr_prefix_len = of_nat (dec_value d)\<rparr> else None)"
  using assms find_char_None [of "CHR ''/''" t] cidr_parse_split [OF assms, of pton d]
  by (simp add: cidr_parse_def)

theorem cidr_parse_grammar_witness:
  "cidr_parse letter_pton ''AKGDAAAA'' = None \<and> cidr_parse letter_pton (''AKGDAAAA'' @ ''/'' @ ''33'') =
    (case ip_addr_parse letter_pton ''AKGDAAAA'' of None \<Rightarrow> None
     | Some a \<Rightarrow>
        if (\<forall>c\<in>set ''33''. is_digit c) \<and> dec_value ''33'' \<le> max_bits (ip_family a)
        then Some \<lparr>cidr_addr = a, cidr_prefix_len = of_nat (dec_value ''33'')\<rparr> else None)"
  by (rule cidr_parse_grammar) simp

text \<open>C15: Printing a block with \<^verbatim>\<open>Cidr::to_string\<close> and parsing the text gives the block back: the
  54-byte buffer never truncates it.\<close>

theorem cidr_text_roundtrip:
  assumes "inet_text_roundtrip pton ntop" and "wf_cidr c" and "canonical_ip (cidr_addr c)"
  shows "cidr_parse pton (cidr_to_string ntop c) = Some c"
  using cidr_text_parses [OF assms] by blast

theorem cidr_text_roundtrip_witness:
  "cidr_parse letter_pton (cidr_to_string letter_ntop
     \<lparr>cidr_addr = \<lparr>ip_family = V6, ip_bytes = [32, 1, 13, 184] @ replicate 12 0\<rparr>, cidr_prefix_len = 32\<rparr>)
   = Some \<lparr>cidr_addr = \<lparr>ip_family = V6, ip_bytes = [32, 1, 13, 184] @ replicate 12 0\<rparr>, cidr_prefix_len = 32\<rparr>"
  by (rule cidr_text_roundtrip [OF letter_roundtrip])
    (simp_all add: wf_cidr_def wf_ip_def canonical_ip_def)

text \<open>A block text that ends right after the slash is accepted with prefix length 0: it yields a
  block that contains every address of its family.\<close>

theorem cidr_parse_empty_length:
  assumes t: "CHR ''/'' \<notin> set t" and a: "ip_addr_parse pton t = Some a" and pton: "inet_pton_sizes pton"
    and b: "wf_ip b" "ip_family b = ip_family a"
  shows "\<exists>c. cidr_parse pton (t @ ''/'') = Some c \<and> cidr_contains c b = Some True"
proof -
  have p: "cidr_parse pton (t @ ''/'') = Some \<lparr>cidr_addr = a, cidr_prefix_len = 0\<rparr>"
    using cidr_parse_split [OF t, of pton "[]"] a by (simp add: dec_value_def)
  with cidr_parse_wf [OF pton p] b show ?thesis
    by (simp add: cidr_contains_matches cidr_matches_def cidr_prefix_def)
qed

theorem cidr_parse_empty_length_witness:
  "\<exists>c. cidr_parse letter_pton (''AKAAAAAA'' @ ''/'') = Some c \<and>
     cidr_contains c \<lparr>ip_family = V4, ip_bytes = [8, 8, 8, 8] @ replicate 12 0\<rparr> = Some True"
proof (rule cidr_parse_empty_length [OF _ _ letter_sizes])
  show "ip_addr_parse letter_pton ''AKAAAAAA'' = Some \<lparr>ip_family = V4, ip_bytes = 10 # replicate 15 0\<rparr>"
    by code_simp
qed (simp_all add: wf_ip_def)

end
