(* ===== verification/Config.thy ===== *)
theory Config
  imports Cidr
begin

text \<open>
  The configuration file: \<^verbatim>\<open>include/cfd/config.hpp\<close> and \<^verbatim>\<open>src/config.cpp\<close>.

  The file is its content (\<open>None\<close> when it cannot be opened), split into lines the way \<^verbatim>\<open>std::getline\<close>
  does; \<open>load_from_file\<close> returns the flag together with the configuration and the error text as the
  call leaves them, also on failure. \<open>line_meaning\<close> is the grammar of one line, apart from the key
  chain of the code, and \<open>config_text\<close> writes a configuration as a file.
\<close>

section \<open>Definitions\<close>

record config =
  tunnel_id :: string
  account_tag :: string
  tunnel_secret_b64 :: string
  edge_host :: string
  edge_port :: u16
  tun_name :: string
  tun_local :: cidr
  routed_cidrs :: "cidr list"
  ca_bundle_path :: string
  client_cert_path :: string
  client_key_path :: string

definition config_init :: config where
  "config_init =
     \<lparr>tunnel_id = [], account_tag = [], tunnel_secret_b64 = [],
      edge_host = ''region1.argotunnel.com'', edge_port = 7844,
      tun_name = ''cfd0'', tun_local = cidr_init, routed_cidrs = [],
      ca_bundle_path = [], client_cert_path = [], client_key_path = []\<rparr>"

subsection \<open>Text helpers\<close>

text \<open>\<^verbatim>\<open>isspace\<close> in the C locale; \<^verbatim>\<open>trim\<close> pops the back first, then skips at the front.\<close>

definition is_space :: "char \<Rightarrow> bool" where
  "is_space c \<longleftrightarrow> c = CHR '' '' \<or> (9 \<le> char_code c \<and> char_code c \<le> 13)"

definition trim :: "string \<Rightarrow> string" where
  "trim s = dropWhile is_space (rev (dropWhile is_space (rev s)))"

definition newline :: char where
  "newline = CHR 0x0A"

function getlines :: "string \<Rightarrow> string list" where
  "getlines s =
     (if s = [] then []
      else takeWhile (\<lambda>c. c \<noteq> newline) s # getlines (drop 1 (dropWhile (\<lambda>c. c \<noteq> newline) s)))"
  by auto
termination
proof (relation "measure length")
  fix s :: string
  assume "s \<noteq> []"
  then have "0 < length s" by simp
  then show "(drop 1 (dropWhile (\<lambda>c. c \<noteq> newline) s), s) \<in> measure length"
    using length_dropWhile_le [of "\<lambda>c. c \<noteq> newline" s]
    by (simp only: in_measure length_drop)
qed simp

declare getlines.simps [simp del]

text \<open>
  \<^verbatim>\<open>std::from_chars\<close> into an \<^verbatim>\<open>unsigned\<close>: the number of characters consumed and the value, or no value
  when there is no digit or the value does not fit 32 bits.
\<close>

definition from_chars_u32 :: "string \<Rightarrow> (nat \<times> u32) option" where
  "from_chars_u32 v =
     (let ds = takeWhile is_digit v in
      if ds = [] \<or> 2 ^ 32 \<le> dec_value ds then None
      else Some (length ds, of_nat (dec_value ds)))"

subsection \<open>The loader\<close>

text \<open>The dispatch on the key: \<open>Inl\<close> is the error text with which the loader returns.\<close>

definition apply_key :: "inet_pton_fn \<Rightarrow> string \<Rightarrow> string \<Rightarrow> config \<Rightarrow> string + config" where
  "apply_key pton k v out =
     (if k = ''tunnel_id'' then Inr (out\<lparr>tunnel_id := v\<rparr>)
      else if k = ''account_tag'' then Inr (out\<lparr>account_tag := v\<rparr>)
      else if k = ''tunnel_secret_b64'' then Inr (out\<lparr>tunnel_secret_b64 := v\<rparr>)
      else if k = ''edge_host'' then Inr (out\<lparr>edge_host := v\<rparr>)
      else if k = ''edge_port'' then
        (case from_chars_u32 v of
           None \<Rightarrow> Inl (''bad edge_port: '' @ v)
         | Some (n, port) \<Rightarrow>
             if n \<noteq> length v \<or> port = 0 \<or> port > 65535 then Inl (''bad edge_port: '' @ v)
             else Inr (out\<lparr>edge_port := ucast port\<rparr>))
      else if k = ''tun_name'' then Inr (out\<lparr>tun_name := v\<rparr>)
      else if k = ''tun_local'' then
        (case cidr_parse pton v of
           None \<Rightarrow> Inl (''bad tun_local: '' @ v)
         | Some c \<Rightarrow> Inr (out\<lparr>tun_local := c\<rparr>))
      else if k = ''route'' then
        (case cidr_parse pton v of
           None \<Rightarrow> Inl (''bad route: '' @ v)
         | Some c \<Rightarrow> Inr (out\<lparr>routed_cidrs := routed_cidrs out @ [c]\<rparr>))
      else if k = ''ca_bundle_path'' then Inr (out\<lparr>ca_bundle_path := v\<rparr>)
      else if k = ''client_cert_path'' then Inr (out\<lparr>client_cert_path := v\<rparr>)
      else if k = ''client_key_path'' then Inr (out\<lparr>client_key_path := v\<rparr>)
      else Inl (''unknown key: '' @ k))"

definition load_line :: "inet_pton_fn \<Rightarrow> u32 \<Rightarrow> string \<Rightarrow> config \<Rightarrow> string + config" where
  "load_line pton lineno raw out =
     (let line = trim raw in
      if line = [] \<or> hd line = CHR ''#'' then Inr out
      else case find_char (CHR ''='') line of
        None \<Rightarrow> Inl (''line '' @ dec_string (unat lineno) @ '': missing '' @ [CHR 0x27, CHR ''='', CHR 0x27])
      | Some eq \<Rightarrow> apply_key pton (trim (take eq line)) (trim (drop (eq + 1) line)) out)"

fun load_lines :: "inet_pton_fn \<Rightarrow> u32 \<Rightarrow> string list \<Rightarrow> config \<Rightarrow> string \<Rightarrow> bool \<times> config \<times> string" where
  "load_lines pton lineno [] out err = (True, out, err)"
| "load_lines pton lineno (l # ls) out err =
     (case load_line pton (lineno + 1) l out of
        Inl e \<Rightarrow> (False, out, e)
      | Inr out' \<Rightarrow> load_lines pton (lineno + 1) ls out' err)"

definition load_from_file :: "inet_pton_fn \<Rightarrow> string \<Rightarrow> string option \<Rightarrow> config \<Rightarrow> string \<Rightarrow> bool \<times> config \<times> string" where
  "load_from_file pton path content out err =
     (case content of
        None \<Rightarrow> (False, out, ''cannot open '' @ path)
      | Some text \<Rightarrow> load_lines pton 0 (getlines text) out err)"

subsection \<open>Specification\<close>

text \<open>What one line says: nothing, an assignment, or no sentence of the grammar.\<close>

datatype line_kind = Blank | Assign string string | Malformed

definition line_meaning :: "string \<Rightarrow> line_kind" where
  "line_meaning raw =
     (let line = trim raw in
      if line = [] \<or> hd line = CHR ''#'' then Blank
      else if CHR ''='' \<in> set line
        then Assign (trim (takeWhile (\<lambda>c. c \<noteq> CHR ''='') line)) (trim (tl (dropWhile (\<lambda>c. c \<noteq> CHR ''='') line)))
      else Malformed)"

definition config_wf :: "config \<Rightarrow> bool" where
  "config_wf c \<longleftrightarrow> edge_port c \<noteq> 0 \<and> wf_cidr (tun_local c) \<and> canonical_ip (cidr_addr (tun_local c)) \<and>
     (\<forall>r \<in> set (routed_cidrs c). wf_cidr r \<and> canonical_ip (cidr_addr r))"

text \<open>A value that fits on a line and does not change under \<^verbatim>\<open>trim\<close>.\<close>

definition plain_value :: "string \<Rightarrow> bool" where
  "plain_value v \<longleftrightarrow> trim v = v \<and> newline \<notin> set v"

definition key_ok :: "string \<Rightarrow> bool" where
  "key_ok k \<longleftrightarrow> k \<noteq> [] \<and> hd k \<noteq> CHR ''#'' \<and> CHR ''='' \<notin> set k \<and> plain_value k"

definition config_lines :: "inet_ntop_fn \<Rightarrow> config \<Rightarrow> (string \<times> string) list" where
  "config_lines ntop c =
     [(''tunnel_id'', tunnel_id c), (''account_tag'', account_tag c),
      (''tunnel_secret_b64'', tunnel_secret_b64 c), (''edge_host'', edge_host c),
      (''edge_port'', dec_string (unat (edge_port c))), (''tun_name'', tun_name c),
      (''tun_local'', cidr_to_string ntop (tun_local c)), (''ca_bundle_path'', ca_bundle_path c),
      (''client_cert_path'', client_cert_path c), (''client_key_path'', client_key_path c)]
     @ map (\<lambda>r. (''route'', cidr_to_string ntop r)) (routed_cidrs c)"

definition config_text :: "inet_ntop_fn \<Rightarrow> config \<Rightarrow> string" where
  "config_text ntop c = concat (map (\<lambda>(k, v). k @ ''='' @ v @ [newline]) (config_lines ntop c))"

definition config_plain :: "config \<Rightarrow> bool" where
  "config_plain c \<longleftrightarrow> (\<forall>v \<in> {tunnel_id c, account_tag c, tunnel_secret_b64 c, edge_host c, tun_name c,
      ca_bundle_path c, client_cert_path c, client_key_path c}. plain_value v)"

text \<open>A sequence of assignments, applied in order up to the first rejected one.\<close>

fun apply_all :: "inet_pton_fn \<Rightarrow> (string \<times> string) list \<Rightarrow> config \<Rightarrow> string + config" where
  "apply_all pton [] out = Inr out"
| "apply_all pton ((k, v) # kvs) out =
     (case apply_key pton k v out of Inl e \<Rightarrow> Inl e | Inr out' \<Rightarrow> apply_all pton kvs out')"

text \<open>Address texts consist of visible characters.\<close>

definition inet_text_visible :: "inet_ntop_fn \<Rightarrow> bool" where
  "inet_text_visible ntop \<longleftrightarrow> (\<forall>f bs s. ntop f bs = Some s \<longrightarrow> (\<forall>c \<in> set s. 32 < char_code c))"

section \<open>Lemmas\<close>

subsection \<open>Text helpers\<close>

lemma char_code_inj: "char_code a = char_code b \<longleftrightarrow> a = b"
  by (simp add: char_code_def)

lemma trim_id: "s = [] \<or> (\<not> is_space (hd s) \<and> \<not> is_space (last s)) \<Longrightarrow> trim s = s"
proof (elim disjE conjE)
  assume a: "\<not> is_space (hd s)" "\<not> is_space (last s)"
  show ?thesis
  proof (cases "s = []")
    case False
    have "dropWhile is_space (rev s) = rev s"
      using a False by (cases s rule: rev_cases) auto
    moreover have "dropWhile is_space s = s" using a False by (cases s) auto
    ultimately show ?thesis by (simp add: trim_def)
  qed (simp add: trim_def)
qed (simp add: trim_def)

lemma trim_ends: "trim s \<noteq> [] \<Longrightarrow> \<not> is_space (hd (trim s)) \<and> \<not> is_space (last (trim s))"
proof -
  assume ne: "trim s \<noteq> []"
  let ?d = "dropWhile is_space (rev s)"
  have "hd (dropWhile is_space (rev ?d)) = hd (trim s)" by (simp add: trim_def)
  then have h: "\<not> is_space (hd (trim s))"
    using ne hd_dropWhile [of is_space "rev ?d"] by (simp add: trim_def)
  have "?d \<noteq> []"
  proof
    assume "?d = []"
    then show False using ne by (simp only: trim_def) simp
  qed
  then have "\<not> is_space (hd ?d)" by (rule hd_dropWhile)
  moreover have "last (rev ?d) = last (trim s)"
    using ne unfolding trim_def by (metis append_is_Nil_conv last_append takeWhile_dropWhile_id)
  ultimately show ?thesis using h \<open>?d \<noteq> []\<close> by (simp add: last_rev)
qed

lemma plain_value_ends: "plain_value v \<Longrightarrow> v = [] \<or> (\<not> is_space (hd v) \<and> \<not> is_space (last v))"
  using trim_ends [of v] by (auto simp: plain_value_def)

lemma plain_value_visible: "\<forall>c \<in> set v. 32 < char_code c \<Longrightarrow> plain_value v"
proof -
  assume vis: "\<forall>c \<in> set v. 32 < char_code c"
  have "\<not> is_space c" if "c \<in> set v" for c
    using vis that by (auto simp: is_space_def char_code_def)
  then have "trim v = v" by (cases "v = []") (auto intro!: trim_id)
  moreover have "newline \<notin> set v" using vis by (auto simp: newline_def char_code_def)
  ultimately show ?thesis by (simp add: plain_value_def)
qed

lemma getlines_line: "newline \<notin> set l \<Longrightarrow> getlines (l @ newline # t) = l # getlines t"
proof -
  assume "newline \<notin> set l"
  then have "\<And>c. c \<in> set l \<Longrightarrow> c \<noteq> newline" by auto
  then show ?thesis by (subst getlines.simps) (simp add: takeWhile_append2 dropWhile_append2)
qed

lemma find_char_takeWhile:
  "find_char c xs = (if c \<in> set xs then Some (length (takeWhile (\<lambda>d. d \<noteq> c) xs)) else None)"
  by (induction xs) auto

lemma take_takeWhile: "take (length (takeWhile P xs)) xs = takeWhile P xs"
  by (induction xs) auto

lemma drop_takeWhile: "drop (Suc (length (takeWhile P xs))) xs = tl (dropWhile P xs)"
  by (induction xs) auto

subsection \<open>One line\<close>

lemma load_line_meaning:
  "load_line pton n raw out =
     (case line_meaning raw of
        Blank \<Rightarrow> Inr out
      | Malformed \<Rightarrow> Inl (''line '' @ dec_string (unat n) @ '': missing '' @ [CHR 0x27, CHR ''='', CHR 0x27])
      | Assign k v \<Rightarrow> apply_key pton k v out)"
  by (simp add: load_line_def line_meaning_def Let_def find_char_takeWhile take_takeWhile drop_takeWhile)

lemma line_meaning_assign:
  assumes k: "k \<noteq> []" "hd k \<noteq> CHR ''#''" "CHR ''='' \<notin> set k" "plain_value k" and v: "plain_value v"
  shows "line_meaning (k @ ''='' @ v) = Assign k v"
proof -
  have ks: "\<not> is_space (hd k)" using plain_value_ends [OF k(4)] k(1) by auto
  have eq: "\<not> is_space (CHR ''='')" by (simp add: is_space_def char_code_def)
  have "\<not> is_space (last (k @ ''='' @ v))" using plain_value_ends [OF v] eq by auto
  then have line: "trim (k @ ''='' @ v) = k @ ''='' @ v" using ks k(1) by (intro trim_id) simp
  have "\<And>c. c \<in> set k \<Longrightarrow> c \<noteq> CHR ''=''" using k(3) by auto
  then have "takeWhile (\<lambda>c. c \<noteq> CHR ''='') (k @ ''='' @ v) = k"
    "dropWhile (\<lambda>c. c \<noteq> CHR ''='') (k @ ''='' @ v) = ''='' @ v"
    by (simp_all add: takeWhile_append2 dropWhile_append2)
  then show ?thesis
    using k v by (simp add: line_meaning_def line plain_value_def Let_def del: append_Cons)
qed

lemma from_chars_dec_string:
  assumes "n < 2 ^ 32"
  shows "from_chars_u32 (dec_string n) = Some (length (dec_string n), of_nat n)"
proof -
  have ds: "takeWhile is_digit (dec_string n) = dec_string n"
    by (simp add: dec_string_digits)
  then show ?thesis using assms unfolding from_chars_u32_def ds Let_def
    by (simp add: dec_value_dec_string)
qed

lemma apply_key_wf:
  assumes pton: "inet_pton_sizes pton" and out: "config_wf out" and ok: "apply_key pton k v out = Inr out'"
  shows "config_wf out'"
proof -
  have port: "ucast p \<noteq> (0 :: u16)" if "p \<noteq> 0" "\<not> p > 65535" for p :: u32
  proof
    assume "ucast p = (0 :: u16)"
    then have "unat p mod 65536 = 0" using unat_ucast [of p, where 'b = 16] by simp
    moreover have "unat p \<le> 65535" using that(2) by (simp add: word_less_nat_alt)
    ultimately have "unat p = 0" by simp
    then show False using that(1) by (simp add: word_unat_eq_iff)
  qed
  show ?thesis
    using out ok cidr_parse_wf [OF pton] port
    unfolding apply_key_def config_wf_def
    by (auto split: if_splits option.splits prod.splits)
qed

subsection \<open>All lines\<close>

lemma load_lines_wf:
  "inet_pton_sizes pton \<Longrightarrow> config_wf out \<Longrightarrow> load_lines pton n ls out err = (ok, out', e) \<Longrightarrow> config_wf out'"
  by (induction ls arbitrary: n out)
    (auto simp: load_line_meaning intro: apply_key_wf split: sum.splits line_kind.splits)

lemma load_lines_append:
  "load_lines pton n (xs @ ys) out err =
     (case load_lines pton n xs out err of
        (True, out', _) \<Rightarrow> load_lines pton (n + of_nat (length xs)) ys out' err
      | r \<Rightarrow> r)"
  by (induction xs arbitrary: n out) (auto simp: ac_simps split: sum.split prod.split bool.split)

lemma load_lines_error:
  "load_lines pton n ls out err = (False, out', e) \<Longrightarrow>
   \<exists>pre l post. ls = pre @ l # post \<and> load_lines pton n pre out err = (True, out', err) \<and>
      load_line pton (n + of_nat (length pre) + 1) l out' = Inl e"
proof (induction ls arbitrary: n out)
  case (Cons l ls)
  show ?case
  proof (cases "load_line pton (n + 1) l out")
    case (Inl e')
    then show ?thesis using Cons.prems
      by (intro exI [of _ "[]"] exI [of _ l] exI [of _ ls]) auto
  next
    case (Inr out1)
    then obtain pre x post where "ls = pre @ x # post" "load_lines pton (n + 1) pre out1 err = (True, out', err)"
      "load_line pton (n + 1 + of_nat (length pre) + 1) x out' = Inl e"
      using Cons by fastforce
    then show ?thesis using Inr by (intro exI [of _ "l # pre"]) (auto simp: ac_simps)
  qed
qed simp

lemma load_lines_ok_err: "load_lines pton n ls out err = (True, out', e) \<Longrightarrow> e = err"
  by (induction ls arbitrary: n out) (auto split: sum.splits)

lemma load_lines_assign:
  assumes "k \<noteq> []" "hd k \<noteq> CHR ''#''" "CHR ''='' \<notin> set k" "plain_value k" "plain_value v"
  shows "load_lines pton n ((k @ ''='' @ v) # ls) out err =
     (case apply_key pton k v out of
        Inl e \<Rightarrow> (False, out, e)
      | Inr out' \<Rightarrow> load_lines pton (n + 1) ls out' err)"
  using line_meaning_assign [OF assms] by (simp add: load_line_meaning del: append_Cons)

lemma getlines_kv:
  assumes "\<And>k v. (k, v) \<in> set kvs \<Longrightarrow> newline \<notin> set k \<and> newline \<notin> set v"
  shows "getlines (concat (map (\<lambda>(k, v). k @ ''='' @ v @ [newline]) kvs)) = map (\<lambda>(k, v). k @ ''='' @ v) kvs"
  using assms
proof (induction kvs)
  case Nil
  show ?case by (subst getlines.simps) simp
next
  case (Cons kv kvs)
  obtain k v where kv: "kv = (k, v)" by (cases kv)
  have "newline \<notin> set (k @ ''='' @ v)" using Cons.prems [of k v] kv by (auto simp: newline_def)
  from getlines_line [OF this]
  have "getlines (concat (map (\<lambda>(k, v). k @ ''='' @ v @ [newline]) (kv # kvs)))
      = (k @ ''='' @ v) # getlines (concat (map (\<lambda>(k, v). k @ ''='' @ v @ [newline]) kvs))"
    by (simp add: kv)
  also have "getlines (concat (map (\<lambda>(k, v). k @ ''='' @ v @ [newline]) kvs)) = map (\<lambda>(k, v). k @ ''='' @ v) kvs"
    by (rule Cons.IH) (use Cons.prems in auto)
  finally show ?case by (simp add: kv)
qed

lemma cidr_text_plain:
  assumes "inet_text_roundtrip pton ntop" "inet_text_visible ntop" "wf_cidr c" "canonical_ip (cidr_addr c)"
  shows "plain_value (cidr_to_string ntop c)"
proof (rule plain_value_visible)
  obtain f bs s where s: "ntop f bs = Some s" "cidr_to_string ntop c = s @ ''/'' @ dec_string (unat (cidr_prefix_len c))"
    using cidr_text_parses [OF assms(1,3,4)] by blast
  have "32 < char_code x" if "is_digit x" for x using that by (simp add: is_digit_def)
  then show "\<forall>x \<in> set (cidr_to_string ntop c). 32 < char_code x"
    using s assms(2) dec_string_digits unfolding inet_text_visible_def by (auto simp: char_code_def)
qed

lemma dec_string_plain: "plain_value (dec_string n)"
  by (rule plain_value_visible) (auto dest!: dec_string_digits simp: is_digit_def)

lemma load_lines_kvs:
  assumes "apply_all pton kvs out = Inr out'" and "\<forall>(k, v) \<in> set kvs. key_ok k \<and> plain_value v"
  shows "load_lines pton n (map (\<lambda>(k, v). k @ ''='' @ v) kvs) out err = (True, out', err)"
  using assms
proof (induction kvs arbitrary: n out)
  case (Cons kv kvs)
  obtain k v where kv: "kv = (k, v)" by (cases kv)
  obtain out1 where "apply_key pton k v out = Inr out1" "apply_all pton kvs out1 = Inr out'"
    using Cons.prems(1) by (auto simp: kv split: sum.splits)
  then show ?case using Cons load_lines_assign [of k v pton n _ out err]
    by (simp add: kv key_ok_def del: load_lines.simps append_Cons)
qed simp

lemma apply_all_append:
  "apply_all pton (xs @ ys) out = (case apply_all pton xs out of Inl e \<Rightarrow> Inl e | Inr out' \<Rightarrow> apply_all pton ys out')"
  by (induction xs arbitrary: out) (auto split: sum.split)

lemma apply_routes:
  assumes "\<forall>r \<in> set rs. cidr_parse pton (cidr_to_string ntop r) = Some r"
  shows "apply_all pton (map (\<lambda>r. (''route'', cidr_to_string ntop r)) rs) out
     = Inr (out\<lparr>routed_cidrs := routed_cidrs out @ rs\<rparr>)"
  using assms by (induction rs arbitrary: out) (auto simp: apply_key_def)

lemma apply_key_values:
  "apply_key pton ''tunnel_id'' v out = Inr (out\<lparr>tunnel_id := v\<rparr>)"
  "apply_key pton ''account_tag'' v out = Inr (out\<lparr>account_tag := v\<rparr>)"
  "apply_key pton ''tunnel_secret_b64'' v out = Inr (out\<lparr>tunnel_secret_b64 := v\<rparr>)"
  "apply_key pton ''edge_host'' v out = Inr (out\<lparr>edge_host := v\<rparr>)"
  "apply_key pton ''tun_name'' v out = Inr (out\<lparr>tun_name := v\<rparr>)"
  "apply_key pton ''ca_bundle_path'' v out = Inr (out\<lparr>ca_bundle_path := v\<rparr>)"
  "apply_key pton ''client_cert_path'' v out = Inr (out\<lparr>client_cert_path := v\<rparr>)"
  "apply_key pton ''client_key_path'' v out = Inr (out\<lparr>client_key_path := v\<rparr>)"
  "cidr_parse pton v = Some b \<Longrightarrow> apply_key pton ''tun_local'' v out = Inr (out\<lparr>tun_local := b\<rparr>)"
  by (simp_all add: apply_key_def)

lemma port_text:
  assumes "edge_port c \<noteq> 0"
  shows "apply_key pton ''edge_port'' (dec_string (unat (edge_port c))) out = Inr (out\<lparr>edge_port := edge_port c\<rparr>)"
proof -
  let ?n = "unat (edge_port c)"
  have n: "?n < 65536" using unsigned_less [of "edge_port c"] by simp
  have "?n \<noteq> 0" using assms by (simp add: word_unat_eq_iff)
  then have nz: "of_nat ?n \<noteq> (0 :: u32)" using n by (simp add: word_unat_eq_iff unat_of_nat_small del: of_nat_unat)
  have le: "\<not> of_nat ?n > (65535 :: u32)"
    using n by (simp add: word_less_nat_alt unat_of_nat_small del: of_nat_unat)
  have "ucast (of_nat ?n :: u32) = (of_nat ?n :: u16)" using n by (intro ucast_of_nat_small) simp
  then show ?thesis
    using from_chars_dec_string [of ?n] n nz le by (simp add: apply_key_def del: of_nat_unat) simp
qed

lemma letter_visible: "inet_text_visible letter_ntop"
proof -
  have "32 < char_code c" if "letter_ntop f bs = Some s" "c \<in> set s" for f bs s c
  proof -
    have "c \<in> set (concat (map (\<lambda>b. [char_of (65 + unat b div 16), char_of (65 + unat b mod 16)]) bs))"
      using that by (simp only: letter_ntop_def option.inject)
    from letter_chars [OF this] show ?thesis by simp
  qed
  then show ?thesis by (simp add: inet_text_visible_def)
qed

lemma config_init_wf: "config_wf config_init"
  by (simp add: config_wf_def config_init_def cidr_init_def ip_addr_init_def wf_cidr_def wf_ip_def canonical_ip_def)

lemma load_from_file_wf:
  assumes "inet_pton_sizes pton" "config_wf out" "load_from_file pton path content out err = (ok, out', e)"
  shows "config_wf out'"
  using assms load_lines_wf by (auto simp: load_from_file_def split: option.splits)

section \<open>Properties\<close>

text \<open>
  C40: The loader never leaves the configuration in a bad state: starting from a well-formed
  configuration (a port between 1 and 65535, blocks whose prefix length fits their family), whatever
  the file contains and whether loading succeeds or fails, the configuration it leaves is well formed.
\<close>

theorem config_stays_wf:
  assumes "inet_pton_sizes pton" and "config_wf out"
    and "load_from_file pton path content out err = (ok, out', e)"
  shows "config_wf out'"
  using assms by (rule load_from_file_wf)

lemma config_stays_wf_witness:
  "\<exists>ok out' e. load_from_file letter_pton ''cfd.conf'' (Some ''edge_port = 70000'') config_init []
     = (ok, out', e) \<and> config_wf out'"
proof -
  obtain ok out' e where r: "load_from_file letter_pton ''cfd.conf'' (Some ''edge_port = 70000'') config_init []
     = (ok, out', e)" by (cases "load_from_file letter_pton ''cfd.conf'' (Some ''edge_port = 70000'') config_init []")
  from config_stays_wf [OF letter_sizes config_init_wf r] r show ?thesis by blast
qed

text \<open>
  When loading an opened file fails, it stopped at the first offending line: every line before it was
  accepted and applied, the line has no \<^verbatim>\<open>=\<close> or an assignment the key's check rejects, and the error text
  is the one of that line, with its number when the \<^verbatim>\<open>=\<close> is missing.
\<close>

theorem config_error_is_first_bad_line:
  assumes "load_from_file pton path (Some file) out err = (False, out', e)"
  shows "\<exists>pre l post. getlines file = pre @ l # post \<and>
     load_lines pton 0 pre out err = (True, out', err) \<and>
     (case line_meaning l of
        Blank \<Rightarrow> False
      | Malformed \<Rightarrow> e = ''line '' @ dec_string (unat (of_nat (length pre) + 1 :: u32))
            @ '': missing '' @ [CHR 0x27, CHR ''='', CHR 0x27]
      | Assign k v \<Rightarrow> apply_key pton k v out' = Inl e)"
proof -
  have "load_lines pton 0 (getlines file) out err = (False, out', e)"
    using assms by (simp add: load_from_file_def)
  from load_lines_error [OF this] show ?thesis
    by (fastforce simp: load_line_meaning split: line_kind.splits)
qed

lemma config_error_is_first_bad_line_witness:
  "\<exists>pre l post. getlines ''tun_name'' = pre @ l # post \<and>
     load_lines letter_pton 0 pre config_init [] = (True, config_init, []) \<and>
     (case line_meaning l of
        Blank \<Rightarrow> False
      | Malformed \<Rightarrow> snd (snd (load_from_file letter_pton ''f'' (Some ''tun_name'') config_init []))
            = ''line '' @ dec_string (unat (of_nat (length pre) + 1 :: u32))
            @ '': missing '' @ [CHR 0x27, CHR ''='', CHR 0x27]
      | Assign k v \<Rightarrow> apply_key letter_pton k v config_init
            = Inl (snd (snd (load_from_file letter_pton ''f'' (Some ''tun_name'') config_init []))))"
proof -
  have "getlines ''tun_name'' = [''tun_name'']" by code_simp
  moreover have "line_meaning ''tun_name'' = Malformed" by code_simp
  ultimately have "load_from_file letter_pton ''f'' (Some ''tun_name'') config_init [] =
    (False, config_init, snd (snd (load_from_file letter_pton ''f'' (Some ''tun_name'') config_init [])))"
    by (simp add: load_from_file_def load_line_meaning)
  from config_error_is_first_bad_line [OF this] show ?thesis .
qed

text \<open>
  C13: a configuration written as a file, one assignment per line, loads back as itself, no value cut, mixed up or lost and the
  routes in order, provided it is well formed (a port other than 0, well-formed blocks with canonical addresses) and its texts can stand in a
  line of such a file: no newline in them, no blank at either end. The texts of addresses are taken to be visible characters
  that \<^verbatim>\<open>inet_pton\<close> reads back.
\<close>

theorem config_file_roundtrip:
  assumes conv: "inet_text_roundtrip pton ntop" "inet_text_visible ntop"
    and c: "config_wf c" "config_plain c"
  shows "load_from_file pton path (Some (config_text ntop c)) config_init err = (True, c, err)"
proof -
  have loc: "wf_cidr (tun_local c)" "canonical_ip (cidr_addr (tun_local c))"
    and rs: "\<forall>r \<in> set (routed_cidrs c). wf_cidr r \<and> canonical_ip (cidr_addr r)"
    and port: "edge_port c \<noteq> 0" using c(1) by (auto simp: config_wf_def)
  have pv: "plain_value (tunnel_id c)" "plain_value (account_tag c)" "plain_value (tunnel_secret_b64 c)"
    "plain_value (edge_host c)" "plain_value (tun_name c)" "plain_value (ca_bundle_path c)"
    "plain_value (client_cert_path c)" "plain_value (client_key_path c)"
    using c(2) by (auto simp: config_plain_def)
  have keys: "\<forall>k \<in> {''tunnel_id'', ''account_tag'', ''tunnel_secret_b64'', ''edge_host'', ''edge_port'', ''tun_name'',
     ''tun_local'', ''ca_bundle_path'', ''client_cert_path'', ''client_key_path'', ''route''}. key_ok k"
    by code_simp
  have ok: "\<forall>(k, v) \<in> set (config_lines ntop c). key_ok k \<and> plain_value v"
    using keys pv dec_string_plain cidr_text_plain [OF conv] loc rs by (auto simp: config_lines_def)
  have rp: "\<forall>r \<in> set (routed_cidrs c). cidr_parse pton (cidr_to_string ntop r) = Some r"
    using cidr_text_parses [OF conv(1)] rs by blast
  have lp: "cidr_parse pton (cidr_to_string ntop (tun_local c)) = Some (tun_local c)"
    using cidr_text_parses [OF conv(1) loc] by blast
  have "apply_all pton (config_lines ntop c) config_init = Inr c"
    unfolding config_lines_def apply_all_append
    by (simp add: apply_key_values apply_key_values(9) [OF lp] port_text [OF port] apply_routes [OF rp])
      (simp add: config_init_def)
  from load_lines_kvs [OF this ok] show ?thesis
    unfolding load_from_file_def config_text_def option.case
    by (subst getlines_kv) (use ok in \<open>auto simp: key_ok_def plain_value_def\<close>)
qed

lemma config_file_roundtrip_witness:
  "load_from_file letter_pton ''cfd.conf'' (Some (config_text letter_ntop (config_init\<lparr>edge_port := 443,
      routed_cidrs := [\<lparr>cidr_addr = \<lparr>ip_family = V4, ip_bytes = [10, 99] @ replicate 14 0\<rparr>, cidr_prefix_len = 16\<rparr>]\<rparr>)))
     config_init [] =
   (True, config_init\<lparr>edge_port := 443,
      routed_cidrs := [\<lparr>cidr_addr = \<lparr>ip_family = V4, ip_bytes = [10, 99] @ replicate 14 0\<rparr>, cidr_prefix_len = 16\<rparr>]\<rparr>, [])"
proof (rule config_file_roundtrip [OF letter_roundtrip letter_visible])
  show "config_plain (config_init\<lparr>edge_port := 443,
      routed_cidrs := [\<lparr>cidr_addr = \<lparr>ip_family = V4, ip_bytes = [10, 99] @ replicate 14 0\<rparr>, cidr_prefix_len = 16\<rparr>]\<rparr>)"
    by code_simp
qed (simp add: config_wf_def config_init_def cidr_init_def ip_addr_init_def wf_cidr_def wf_ip_def canonical_ip_def)

end
