(* ===== verification/Supervisor.thy ===== *)
theory Supervisor
  imports Prelude
begin

text \<open>
  The per-connection threads of \<^verbatim>\<open>src/main.cpp\<close> and what they wait on.

  \<^item> \<open>conn_pass\<close> is one pass of a thread's reconnect loop given how the attempt went (\<open>attempt\<close>): the new
    backoff, the milliseconds slept, and the change of \<^verbatim>\<open>ok_count\<close>. Integers are \<^verbatim>\<open>int\<close> (32 bits), the retry
    advice \<^verbatim>\<open>int64_t\<close>.
  \<^item> \<open>kj_step\<close> is the registration queue with its worker thread and the promises the posting threads wait for.
  \<^item> \<open>wake_step\<close> is a wait on the condition variable against a notifier that sets its flag, with or without the
    mutex; the code's notifiers do not take it.
\<close>

section \<open>Definitions\<close>

subsection \<open>The reconnect loop\<close>

definition kInitBackoffMs :: int where "kInitBackoffMs = 1000"
definition kMaxBackoffMs :: int where "kMaxBackoffMs = 32000"

text \<open>
  How one pass went: \<open>connect\<close> failed; registration failed with the server's \<^verbatim>\<open>retry_after_seconds\<close>; or it
  succeeded and the wait ended with (\<open>dropped\<close>, \<open>stopping\<close>) as the two flags read.
\<close>

datatype attempt = ConnectFailed | RegisterFailed "64 word" | Served bool bool

definition next_backoff :: "int \<Rightarrow> int" where
  "next_backoff b = min (b * 2) kMaxBackoffMs"

definition retry_wait :: "64 word \<Rightarrow> int \<Rightarrow> int" where
  "retry_wait retry backoff =
     (if sint retry > 0 then min (sint retry) (kMaxBackoffMs div 1000) * 1000 else backoff)"

record conn_state =
  backoff :: int
  healthy :: int
  sleeps :: "int list"

definition conn_init :: conn_state where
  "conn_init = \<lparr>backoff = kInitBackoffMs, healthy = 0, sleeps = []\<rparr>"

fun conn_pass :: "attempt \<Rightarrow> conn_state \<Rightarrow> conn_state" where
  "conn_pass ConnectFailed s = s\<lparr>sleeps := sleeps s @ [backoff s], backoff := next_backoff (backoff s)\<rparr>"
| "conn_pass (RegisterFailed retry) s =
     s\<lparr>sleeps := sleeps s @ [retry_wait retry (backoff s)], backoff := next_backoff (backoff s)\<rparr>"
| "conn_pass (Served dropped stopping) s =
     (let s = s\<lparr>backoff := kInitBackoffMs, healthy := healthy s + 1\<rparr>;
          s = s\<lparr>healthy := healthy s - 1\<rparr>
      in if dropped \<and> \<not> stopping
         then s\<lparr>sleeps := sleeps s @ [backoff s], backoff := next_backoff (backoff s)\<rparr> else s)"

definition conn_passes :: "attempt list \<Rightarrow> conn_state" where
  "conn_passes as = fold conn_pass as conn_init"

definition failed :: "attempt \<Rightarrow> bool" where
  "failed a \<longleftrightarrow> (case a of Served _ _ \<Rightarrow> False | _ \<Rightarrow> True)"

subsection \<open>The registration queue\<close>

text \<open>
  Work items are numbered by their posting threads. The worker waits (\<open>KjWait\<close>), runs one item outside the lock
  (\<open>KjBusy\<close>), is past its loop (\<open>KjDrain\<close>), or has returned. \<open>results\<close> lists the promises set, with whether the
  result is the error of the drain.
\<close>

datatype kj_pc = KjWait | KjBusy nat | KjDrain | KjDone

record kj_state =
  kj_queue :: "nat list"
  kj_stop :: bool
  kj_pc :: kj_pc
  posted :: "nat list"
  results :: "(nat \<times> bool) list"

definition kj_init :: kj_state where
  "kj_init = \<lparr>kj_queue = [], kj_stop = False, kj_pc = KjWait, posted = [], results = []\<rparr>"

text \<open>
  \<open>kj_halt\<close> is \<^verbatim>\<open>shutdown_all\<close> setting the flag, which it does after it has joined the posting threads: no item is
  posted afterwards.
\<close>

inductive kj_step :: "kj_state \<Rightarrow> kj_state \<Rightarrow> bool" where
  kj_post: "\<not> kj_stop s \<Longrightarrow> w \<notin> set (posted s) \<Longrightarrow>
    kj_step s (s\<lparr>kj_queue := kj_queue s @ [w], posted := posted s @ [w]\<rparr>)"
| kj_take: "kj_pc s = KjWait \<Longrightarrow> kj_queue s = w # q \<Longrightarrow> kj_step s (s\<lparr>kj_queue := q, kj_pc := KjBusy w\<rparr>)"
| kj_leave: "kj_pc s = KjWait \<Longrightarrow> kj_queue s = [] \<Longrightarrow> kj_stop s \<Longrightarrow> kj_step s (s\<lparr>kj_pc := KjDrain\<rparr>)"
| kj_finish: "kj_pc s = KjBusy w \<Longrightarrow> kj_step s (s\<lparr>results := results s @ [(w, False)], kj_pc := KjWait\<rparr>)"
| kj_drain: "kj_pc s = KjDrain \<Longrightarrow>
    kj_step s (s\<lparr>results := results s @ map (\<lambda>w. (w, True)) (kj_queue s), kj_queue := [], kj_pc := KjDone\<rparr>)"
| kj_halt: "kj_step s (s\<lparr>kj_stop := True\<rparr>)"

inductive kj_reachable :: "kj_state \<Rightarrow> bool" where
  kj_start: "kj_reachable kj_init"
| kj_next: "kj_reachable s \<Longrightarrow> kj_step s t \<Longrightarrow> kj_reachable t"

definition kj_busy :: "kj_state \<Rightarrow> nat list" where
  "kj_busy s = (case kj_pc s of KjBusy w \<Rightarrow> [w] | _ \<Rightarrow> [])"

definition kj_inv :: "kj_state \<Rightarrow> bool" where
  "kj_inv s \<longleftrightarrow> posted s = map fst (results s) @ kj_busy s @ kj_queue s \<and> distinct (posted s) \<and>
     (kj_pc s \<in> {KjDrain, KjDone} \<longrightarrow> kj_stop s \<and> kj_queue s = []) \<and> (\<forall>r \<in> set (results s). \<not> snd r)"

subsection \<open>Waiting and waking\<close>

text \<open>
  The waiter holds the mutex when it evaluates the predicate (\<open>Holding\<close>, then \<open>Deciding\<close> after it read false);
  blocking releases it atomically (\<open>Blocked\<close>); it leaves when the predicate is true (\<open>Left\<close>). The notifier sets the
  flag and then notifies; \<open>locked\<close> says whether it takes the mutex to set the flag.
\<close>

datatype waiter = Holding | Deciding | Blocked | Left
datatype notifier = Before | FlagSet | Notified

record wake_state =
  flag :: bool
  waiter :: waiter
  notifier :: notifier

definition wake_init :: wake_state where
  "wake_init = \<lparr>flag = False, waiter = Holding, notifier = Before\<rparr>"

definition mutex_free :: "wake_state \<Rightarrow> bool" where
  "mutex_free s \<longleftrightarrow> waiter s \<in> {Blocked, Left}"

inductive wake_step :: "bool \<Rightarrow> wake_state \<Rightarrow> wake_state \<Rightarrow> bool" for locked where
  pred_true: "waiter s = Holding \<Longrightarrow> flag s \<Longrightarrow> wake_step locked s (s\<lparr>waiter := Left\<rparr>)"
| pred_false: "waiter s = Holding \<Longrightarrow> \<not> flag s \<Longrightarrow> wake_step locked s (s\<lparr>waiter := Deciding\<rparr>)"
| block: "waiter s = Deciding \<Longrightarrow> wake_step locked s (s\<lparr>waiter := Blocked\<rparr>)"
| set_flag: "notifier s = Before \<Longrightarrow> \<not> locked \<or> mutex_free s \<Longrightarrow> wake_step locked s (s\<lparr>flag := True, notifier := FlagSet\<rparr>)"
| notify: "notifier s = FlagSet \<Longrightarrow>
    wake_step locked s (s\<lparr>notifier := Notified, waiter := (if waiter s = Blocked then Holding else waiter s)\<rparr>)"

inductive wake_reachable :: "bool \<Rightarrow> wake_state \<Rightarrow> bool" for locked where
  wake_start: "wake_reachable locked wake_init"
| wake_next: "wake_reachable locked s \<Longrightarrow> wake_step locked s t \<Longrightarrow> wake_reachable locked t"

text \<open>The waiter sleeps although its flag is set and nobody is left to notify it.\<close>

definition stranded :: "wake_state \<Rightarrow> bool" where
  "stranded s \<longleftrightarrow> waiter s = Blocked \<and> flag s \<and> notifier s = Notified"

definition conn_ok :: "conn_state \<Rightarrow> bool" where
  "conn_ok s \<longleftrightarrow> kInitBackoffMs \<le> backoff s \<and> backoff s \<le> kMaxBackoffMs \<and> healthy s = 0 \<and>
     (\<forall>t \<in> set (sleeps s). 1000 \<le> t \<and> t \<le> kMaxBackoffMs)"

definition wake_safe :: "wake_state \<Rightarrow> bool" where
  "wake_safe s \<longleftrightarrow> (waiter s = Deciding \<longrightarrow> \<not> flag s) \<and> (waiter s = Blocked \<and> flag s \<longrightarrow> notifier s = FlagSet) \<and>
     (flag s \<longleftrightarrow> notifier s \<noteq> Before)"

section \<open>Lemmas\<close>

inductive_cases kj_stepE: "kj_step s t"
inductive_cases wake_stepE: "wake_step locked s t"
inductive_simps wake_step_blocked: "wake_step locked \<lparr>flag = f, waiter = Blocked, notifier = Notified\<rparr> t"

lemmas backoff_consts = kInitBackoffMs_def kMaxBackoffMs_def

subsection \<open>Backoff\<close>

lemma next_backoff_range: "kInitBackoffMs \<le> b \<Longrightarrow> kInitBackoffMs \<le> next_backoff b \<and> next_backoff b \<le> kMaxBackoffMs"
  by (simp add: next_backoff_def backoff_consts)

lemma retry_wait_range: "kInitBackoffMs \<le> b \<Longrightarrow> b \<le> kMaxBackoffMs \<Longrightarrow> 1000 \<le> retry_wait r b \<and> retry_wait r b \<le> kMaxBackoffMs"
  by (auto simp: retry_wait_def backoff_consts)

lemma conn_pass_ok: "conn_ok s \<Longrightarrow> conn_ok (conn_pass a s)"
proof (cases a)
  case ConnectFailed
  assume "conn_ok s"
  then show ?thesis using next_backoff_range [of "backoff s"] by (auto simp: ConnectFailed conn_ok_def backoff_consts)
next
  case (RegisterFailed r)
  assume "conn_ok s"
  then show ?thesis using next_backoff_range [of "backoff s"] retry_wait_range [of "backoff s" r]
    by (auto simp: RegisterFailed conn_ok_def)
next
  case (Served d st)
  assume "conn_ok s"
  then show ?thesis using next_backoff_range [of kInitBackoffMs]
    by (auto simp: Served conn_ok_def Let_def backoff_consts)
qed

lemma conn_run_ok: "conn_ok s \<Longrightarrow> conn_ok (fold conn_pass as s)"
  by (induction as arbitrary: s) (auto intro: conn_pass_ok)

lemma conn_init_ok: "conn_ok conn_init"
  by (simp add: conn_ok_def conn_init_def backoff_consts)

lemma doubling: "min (min (1000 * 2 ^ n) 32000 * 2) 32000 = min (1000 * 2 ^ Suc n) (32000 :: int)"
  by (simp add: min_def)

lemma failures_backoff:
  "\<forall>a \<in> set as. failed a \<Longrightarrow> backoff s = min (1000 * 2 ^ n) 32000 \<Longrightarrow>
   backoff (fold conn_pass as s) = min (1000 * 2 ^ (n + length as)) 32000"
proof (induction as arbitrary: s n)
  case (Cons a as)
  have "backoff (conn_pass a s) = next_backoff (backoff s)"
    using Cons.prems by (cases a) (auto simp: failed_def)
  also have "\<dots> = min (1000 * 2 ^ Suc n) 32000"
    using Cons.prems(2) doubling [of n] by (simp only: next_backoff_def kMaxBackoffMs_def)
  finally show ?case using Cons.IH [of "conn_pass a s" "Suc n"] Cons.prems by simp
qed simp

subsection \<open>The queue\<close>

lemma kj_step_inv: "kj_step s t \<Longrightarrow> kj_inv s \<Longrightarrow> kj_inv t"
  by (erule kj_stepE; simp add: kj_inv_def kj_busy_def; force)

lemma kj_reachable_inv: "kj_reachable s \<Longrightarrow> kj_inv s"
proof (induction rule: kj_reachable.induct)
  case kj_start
  show ?case by (simp add: kj_inv_def kj_init_def kj_busy_def)
next
  case (kj_next s t)
  then show ?case by (blast intro: kj_step_inv)
qed

subsection \<open>Waking\<close>

lemma wake_safe_inv: "wake_reachable True s \<Longrightarrow> wake_safe s"
proof (induction rule: wake_reachable.induct)
  case wake_start
  show ?case by (simp add: wake_safe_def wake_init_def)
next
  case (wake_next s t)
  show ?case
    using wake_next.hyps(2) wake_next.IH
    by (elim wake_stepE) (auto simp: wake_safe_def mutex_free_def)
qed

section \<open>Properties\<close>

text \<open>
  Whatever a connection thread goes through, it never sleeps less than a second nor more than 32 seconds at a
  time, its backoff stays between the two bounds, and its contribution to the count of healthy connections is
  zero between passes.
\<close>

theorem reconnect_bounds:
  "kInitBackoffMs \<le> backoff (conn_passes as) \<and> backoff (conn_passes as) \<le> kMaxBackoffMs \<and>
   healthy (conn_passes as) = 0 \<and> (\<forall>t \<in> set (sleeps (conn_passes as)). 1000 \<le> t \<and> t \<le> kMaxBackoffMs)"
  using conn_run_ok [OF conn_init_ok, of as] by (simp add: conn_passes_def conn_ok_def)

lemma reconnect_bounds_witness:
  "\<forall>t \<in> set (sleeps (conn_passes [ConnectFailed, RegisterFailed 100, Served True False])). t \<le> kMaxBackoffMs"
  using reconnect_bounds [of "[ConnectFailed, RegisterFailed 100, Served True False]"] by blast

text \<open>
  The backoff is exponential: after a successful registration (or at the start), \<open>n\<close> failures in a row
  leave it at one second times \<open>2 ^ n\<close>, capped at 32 seconds; a drop of a served connection counts as the first.
\<close>

theorem reconnect_backoff_exponential:
  assumes "\<forall>a \<in> set fs. failed a"
  shows "backoff (conn_passes fs) = min (1000 * 2 ^ length fs) 32000 \<and>
     backoff (conn_passes (as @ Served True False # fs)) = min (1000 * 2 ^ Suc (length fs)) 32000 \<and>
     backoff (conn_passes (as @ Served dropped True # fs)) = min (1000 * 2 ^ length fs) 32000"
proof -
  have "backoff conn_init = min (1000 * 2 ^ 0) 32000" by (simp add: conn_init_def backoff_consts)
  moreover have "backoff (conn_pass (Served True False) s) = min (1000 * 2 ^ Suc 0) 32000" for s
    by (simp add: next_backoff_def backoff_consts Let_def)
  moreover have "backoff (conn_pass (Served dropped True) s) = min (1000 * 2 ^ 0) 32000" for s
    by (simp add: backoff_consts Let_def)
  ultimately show ?thesis
    using failures_backoff [OF assms, of conn_init 0]
      failures_backoff [OF assms, of "conn_pass (Served True False) (fold conn_pass as conn_init)" "Suc 0"]
      failures_backoff [OF assms, of "conn_pass (Served dropped True) (fold conn_pass as conn_init)" 0]
    by (simp add: conn_passes_def)
qed

lemma reconnect_backoff_exponential_witness:
  "backoff (conn_passes [ConnectFailed, ConnectFailed, RegisterFailed 0]) = 8000"
  using reconnect_backoff_exponential [of "[ConnectFailed, ConnectFailed, RegisterFailed 0]" "[]" True]
  by (simp add: failed_def)

text \<open>
  Every registration posted gets exactly one result, in posting order and from the worker, never the error of
  the final drain; when the worker has returned, none is left without one.
\<close>

theorem registrations_all_answered:
  assumes "kj_reachable s"
  shows "map fst (results s) @ kj_busy s @ kj_queue s = posted s \<and> distinct (map fst (results s)) \<and>
     (\<forall>r \<in> set (results s). \<not> snd r) \<and> (kj_pc s = KjDone \<longrightarrow> map fst (results s) = posted s)"
  using kj_reachable_inv [OF assms] by (auto simp: kj_inv_def kj_busy_def)

lemma registrations_all_answered_witness:
  "\<exists>s. kj_reachable s \<and> kj_pc s = KjBusy 5 \<and> posted s = [5] \<and> map fst (results s) @ kj_busy s @ kj_queue s = [5]"
proof -
  let ?s1 = "kj_init\<lparr>kj_queue := [5], posted := [5]\<rparr>"
  let ?s2 = "?s1\<lparr>kj_queue := [], kj_pc := KjBusy 5\<rparr>"
  have "kj_step kj_init ?s1" using kj_post [of kj_init 5] by (simp add: kj_init_def)
  then have 1: "kj_reachable ?s1" by (rule kj_next [OF kj_start])
  have "kj_step ?s1 ?s2" using kj_take [of ?s1 5 "[]"] by (simp add: kj_init_def)
  then have 2: "kj_reachable ?s2" by (rule kj_next [OF 1])
  from registrations_all_answered [OF 2] 2 show ?thesis by (intro exI [of _ ?s2]) simp
qed

text \<open>
  The notifiers set their flag without the mutex, and that loses wakeups: a thread can end up blocked with its
  flag set and the notification gone, and no further step moves it. With the mutex held while the flag is set
  this state cannot be reached.
\<close>

theorem wakeup_can_be_lost:
  "(\<exists>s. wake_reachable False s \<and> stranded s \<and> (\<forall>t. \<not> wake_step False s t)) \<and>
   (\<forall>s. wake_reachable True s \<longrightarrow> \<not> stranded s)"
proof
  let ?s1 = "\<lparr>flag = False, waiter = Deciding, notifier = Before\<rparr>"
  let ?s2 = "\<lparr>flag = True, waiter = Deciding, notifier = FlagSet\<rparr>"
  let ?s3 = "\<lparr>flag = True, waiter = Deciding, notifier = Notified\<rparr>"
  let ?s4 = "\<lparr>flag = True, waiter = Blocked, notifier = Notified\<rparr>"
  have "wake_step False wake_init ?s1" using pred_false [of wake_init False] by (simp add: wake_init_def)
  then have 1: "wake_reachable False ?s1" by (rule wake_next [OF wake_start])
  have "wake_step False ?s1 ?s2" using set_flag [of ?s1 False] by simp
  then have 2: "wake_reachable False ?s2" by (rule wake_next [OF 1])
  have "wake_step False ?s2 ?s3" using notify [of ?s2 False] by simp
  then have 3: "wake_reachable False ?s3" by (rule wake_next [OF 2])
  have "wake_step False ?s3 ?s4" using block [of ?s3 False] by simp
  then have 4: "wake_reachable False ?s4" by (rule wake_next [OF 3])
  have "\<not> wake_step False ?s4 t" for t by (simp add: wake_step_blocked)
  then show "\<exists>s. wake_reachable False s \<and> stranded s \<and> (\<forall>t. \<not> wake_step False s t)"
    using 4 by (intro exI [of _ ?s4]) (simp add: stranded_def)
  show "\<forall>s. wake_reachable True s \<longrightarrow> \<not> stranded s"
  proof (intro allI impI notI)
    fix s assume "wake_reachable True s" "stranded s"
    then show False using wake_safe_inv [of s] by (simp add: wake_safe_def stranded_def)
  qed
qed

lemma wakeup_can_be_lost_witness:
  "\<exists>s. wake_reachable False s \<and> waiter s = Blocked \<and> flag s"
  using wakeup_can_be_lost by (auto simp: stranded_def)

end
