(* ===== verification/Conn_Thread.thy ===== *)
theory Conn_Thread
  imports Supervisor Quic_Client
begin

text \<open>
  A connection thread of \<^verbatim>\<open>src/main.cpp\<close> with the client it owns: each pass of the loop closes the client,
  connects, registers and waits, over the client of \<open>Quic_Client\<close> and the backoff state of \<open>Supervisor\<close>. The
  answers of msquic and of the edge during a pass are its \<open>round\<close>.
\<close>

section \<open>Definitions\<close>

text \<open>
  \<open>rd_shake\<close> are the events that arrive until \<^verbatim>\<open>connect\<close> stops waiting, \<open>rd_later\<close> those until the wait for a
  disconnect ends; \<open>rd_stop\<close> is the stop flag as it reads then.
\<close>

record round =
  rd_connect :: connect_env
  rd_shake :: "conn_event list"
  rd_stream_open :: bool
  rd_stream_start :: bool
  rd_rpc :: "register_call \<Rightarrow> rpc_outcome"
  rd_later :: "conn_event list"
  rd_stop :: bool

text \<open>
  \<^verbatim>\<open>disc_fired\<close> is cleared at the head of the pass, so at the end of the wait it says whether the handler was
  called since.
\<close>

definition thread_pass ::
  "register_request \<Rightarrow> round \<Rightarrow> client \<times> msquic \<times> conn_state \<Rightarrow> client \<times> msquic \<times> conn_state" where
  "thread_pass req rd s =
     (case s of (c, m, st) \<Rightarrow>
      let calls = disc_calls c; (c, m) = quic_close c m; (r, c, m) = connect_begin (rd_connect rd) c m in
      if r \<noteq> None then (c, m, conn_pass ConnectFailed st)
      else let c = fold on_conn_event (rd_shake rd) c in
        if connect_finish c \<noteq> None then (c, m, conn_pass ConnectFailed st)
        else let (ec, resp, m) = register_connection (rd_stream_open rd) (rd_stream_start rd) (rd_rpc rd) req
                   register_response_init c m in
          if ec \<noteq> None
          then let (c, m) = quic_close c m in (c, m, conn_pass (RegisterFailed (retry_after_seconds resp)) st)
          else let c = fold on_conn_event (rd_later rd) c in
            (c, m, conn_pass (Served (calls < disc_calls c) (rd_stop rd)) st))"

text \<open>The thread: the handler is set before the loop and cleared after it, before the last close.\<close>

definition conn_thread ::
  "register_request \<Rightarrow> round list \<Rightarrow> client \<Rightarrow> msquic \<Rightarrow> client \<times> msquic \<times> conn_state" where
  "conn_thread req rds c m =
     (let (c, m, st) = fold (thread_pass req) rds (set_handler_disconnect True c, m, conn_init);
          c = set_handler_disconnect False c;
          (c, m) = quic_close c m
      in (c, m, st))"

text \<open>All identifiers in a list of open handles are below a bound.\<close>

definition entries_below :: "nat \<Rightarrow> (nat \<times> handle_kind \<times> nat option) list \<Rightarrow> bool" where
  "entries_below b xs \<longleftrightarrow> (\<forall>(i, k, p) \<in> set xs. i < b \<and> (\<forall>q. p = Some q \<longrightarrow> q < b))"

text \<open>What a thread keeps between its passes: the handles of its client come after those of \<open>old\<close>.\<close>

definition thread_inv :: "(nat \<times> handle_kind \<times> nat option) list \<Rightarrow> nat \<Rightarrow> client \<times> msquic \<times> conn_state \<Rightarrow> bool" where
  "thread_inv old base s \<longleftrightarrow>
     (case s of (c, m, st) \<Rightarrow>
       (\<exists>n \<ge> base. connect_shape n c \<and> opened m = old @ connect_entries n c) \<and> msquic_ok m \<and> base \<le> next_handle m \<and>
       (api_held c \<longrightarrow> table m) \<and> (api_held c \<or> h_registration c = None) \<and> conn_ok st)"

text \<open>For the witness: a pass that is served until the edge closes, then one whose DNS lookup fails.\<close>

definition example_rounds :: "round list" where
  "example_rounds =
     [\<lparr>rd_connect = answering True, rd_shake = [Connected], rd_stream_open = True, rd_stream_start = True,
       rd_rpc = (\<lambda>_. RpcDetails [] ''lax01''), rd_later = [ShutdownByPeer], rd_stop = False\<rparr>,
      \<lparr>rd_connect = answering False, rd_shake = [], rd_stream_open = True, rd_stream_start = True,
       rd_rpc = (\<lambda>_. RpcThrew), rd_later = [], rd_stop = False\<rparr>]"

section \<open>Lemmas\<close>

lemma event_keeps_handles:
  "h_registration (on_conn_event e c) = h_registration c \<and> h_configuration (on_conn_event e c) = h_configuration c \<and>
   h_connection (on_conn_event e c) = h_connection c \<and> api_held (on_conn_event e c) = api_held c"
  by (cases e) (auto simp: fire_disconnect_def deliver_inbound_def Let_def split: sum.split option.split)

lemma events_keep_handles:
  "h_registration (fold on_conn_event es c) = h_registration c \<and> h_configuration (fold on_conn_event es c) = h_configuration c \<and>
   h_connection (fold on_conn_event es c) = h_connection c \<and> api_held (fold on_conn_event es c) = api_held c"
  by (induction es arbitrary: c) (simp_all add: event_keeps_handles)

lemma entries_below_append [simp]: "entries_below b (xs @ ys) \<longleftrightarrow> entries_below b xs \<and> entries_below b ys"
  unfolding entries_below_def set_append by blast

lemma entries_below_subset: "entries_below b xs \<Longrightarrow> set ys \<subseteq> set xs \<Longrightarrow> entries_below b ys"
  unfolding entries_below_def by blast

lemma entries_below_mono: "entries_below a xs \<Longrightarrow> a \<le> b \<Longrightarrow> entries_below b xs"
  unfolding entries_below_def by fastforce

lemma msquic_ok_entries:
  "msquic_ok m \<longleftrightarrow> \<not> misuse m \<and> 0 \<le> refcount m \<and> (table m \<longleftrightarrow> 0 < refcount m) \<and> entries_below (next_handle m) (opened m)"
  by (simp add: msquic_ok_def entries_below_def)

lemma msquic_ok_opened: "msquic_ok m \<Longrightarrow> set xs \<subseteq> set (opened m) \<Longrightarrow> msquic_ok (m\<lparr>opened := xs\<rparr>)"
  using entries_below_subset [of "next_handle m" "opened m" xs] by (simp add: msquic_ok_entries)

lemma connect_begin_ok:
  assumes "connect_begin env c m = (r, c1, m1)" "quic_idle c" "msquic_ok m" "api_held c \<longrightarrow> table m"
  shows "msquic_ok m1"
proof -
  have "opened m1 = opened m @ connect_entries (next_handle m) c1" "misuse m1 = misuse m"
    "connect_shape (next_handle m) c1" using connect_begin_result [OF assms(2,1)] by auto
  moreover have "entries_below (next_handle m1) (connect_entries (next_handle m) c1)"
    using assms(1,2) by (auto simp: connect_begin_def connect_entries_def open_handle_def reset_handle_def quic_idle_def
        api_table_init_def entries_below_def Let_def split: if_splits)
  moreover have "next_handle m \<le> next_handle m1" "0 \<le> refcount m1" "table m1 \<longleftrightarrow> 0 < refcount m1"
    using connect_begin_table [OF assms] assms(3) by (auto simp: msquic_ok_def)
  ultimately show ?thesis using assms(3) entries_below_mono [of "next_handle m" "opened m" "next_handle m1"]
    by (simp add: msquic_ok_entries)
qed

lemma rpc_stream_state:
  assumes "msquic_ok m" "table m" "conn < next_handle m"
  shows "rpc_stream_open so ss conn m = (None, m') \<Longrightarrow> m' = m \<or> m' = m\<lparr>next_handle := Suc (next_handle m)\<rparr>"
    and "rpc_stream_open so ss conn m = (Some st, m') \<Longrightarrow> handle_delete st m' = m\<lparr>next_handle := Suc (next_handle m)\<rparr>"
proof -
  let ?m = "m\<lparr>opened := opened m @ [(next_handle m, HStream, Some conn)], next_handle := Suc (next_handle m)\<rparr>"
  have "handle_delete (next_handle m, HStream) ?m = ?m\<lparr>opened := opened m\<rparr>"
    using assms(2,3) old_entries_fresh [OF assms(1), of "next_handle m"] by (intro handle_delete_last) auto
  then show "rpc_stream_open so ss conn m = (None, m') \<Longrightarrow> m' = m \<or> m' = m\<lparr>next_handle := Suc (next_handle m)\<rparr>"
    "rpc_stream_open so ss conn m = (Some st, m') \<Longrightarrow> handle_delete st m' = m\<lparr>next_handle := Suc (next_handle m)\<rparr>"
    by (auto simp: rpc_stream_open_def open_handle_def reset_handle_def split: if_splits)
qed

lemma register_keeps_handles:
  assumes "register_connection so ss rpc req resp c m = (ec, resp', m')" "msquic_ok m"
    and conn: "\<And>conn. h_connection c = Some conn \<Longrightarrow> table m \<and> fst conn < next_handle m"
  shows "m' = m \<or> m' = m\<lparr>next_handle := Suc (next_handle m)\<rparr>"
proof (cases "h_connection c")
  case (Some h)
  from rpc_stream_state [OF assms(2) conjunct1 [OF conn [OF Some]] conjunct2 [OF conn [OF Some]], of so ss]
  show ?thesis using assms(1) Some
    by (auto simp: register_connection_def reset_handle_def Let_def split: if_splits prod.splits option.splits rpc_outcome.splits)
qed (use assms(1) in \<open>simp add: register_connection_def\<close>)

text \<open>Closing at any point of a pass puts the handles back.\<close>

lemma thread_close:
  assumes inv: "thread_inv old base (c, m, st)" and old: "\<And>h. base \<le> h \<Longrightarrow> \<forall>(i, k, q) \<in> set old. i \<noteq> h \<and> q \<noteq> Some h"
    and "quic_close c m = (c', m')"
  shows "c' = c\<lparr>h_connection := None, h_configuration := None, h_registration := None\<rparr>" "m' = m\<lparr>opened := old, shut_down := shut_down m @ connection_ids c\<rparr>"
    "msquic_ok m'" "quic_idle c'" "thread_inv old base (c', m', st)"
proof -
  from inv obtain n where n: "base \<le> n" "connect_shape n c" "opened m = old @ connect_entries n c" "msquic_ok m"
    "api_held c \<longrightarrow> table m" "api_held c \<or> h_registration c = None" "conn_ok st" "base \<le> next_handle m"
    by (auto simp: thread_inv_def)
  have "quic_close c m = (c\<lparr>h_connection := None, h_configuration := None, h_registration := None\<rparr>,
      m\<lparr>opened := old, shut_down := shut_down m @ connection_ids c\<rparr>)"
    by (rule quic_close_result [OF n(2) _ n(3)]) (use n old in auto)
  then show c': "c' = c\<lparr>h_connection := None, h_configuration := None, h_registration := None\<rparr>" 
    and m': "m' = m\<lparr>opened := old, shut_down := shut_down m @ connection_ids c\<rparr>"
    using assms(3) by auto
  show ok: "msquic_ok m'" using msquic_ok_opened [OF n(4), of old] by (simp add: m' n(3) msquic_ok_def)
  show "quic_idle c'" by (simp add: c' quic_idle_def)
  show "thread_inv old base (c', m', st)"
    using n ok by (auto simp: thread_inv_def c' m' connect_shape_def connect_entries_def)
qed

lemma thread_connect:
  assumes "thread_inv old base (c, m, st)" "quic_idle c" "connect_begin env c m = (r, c1, m1)"
  shows "thread_inv old base (c1, m1, st)"
proof -
  from assms(1,2) have b: "opened m = old" "msquic_ok m" "api_held c \<longrightarrow> table m" "conn_ok st" "base \<le> next_handle m"
    by (auto simp: thread_inv_def connect_entries_def quic_idle_def)
  show ?thesis
    using connect_begin_result [OF assms(2,3)] connect_begin_table [OF assms(3,2) b(2,3)] connect_begin_ok [OF assms(3,2) b(2,3)] b
    by (auto simp: thread_inv_def)
qed

lemma thread_events: "thread_inv old base (fold on_conn_event es c, m, st) = thread_inv old base (c, m, st)"
  using events_keep_handles [of es c] by (simp add: thread_inv_def connect_shape_def connect_entries_def)

lemma thread_register:
  assumes inv: "thread_inv old base (c, m, st)" and "register_connection so ss rpc req resp c m = (ec, resp', m')"
  shows "thread_inv old base (c, m', st)"
proof -
  from inv obtain n where n: "base \<le> n" "connect_shape n c" "opened m = old @ connect_entries n c" "msquic_ok m"
    "api_held c \<longrightarrow> table m" "api_held c \<or> h_registration c = None"
    by (auto simp: thread_inv_def)
  have "table m \<and> fst conn < next_handle m" if "h_connection c = Some conn" for conn
    using n that by (auto simp: connect_shape_def connect_entries_def msquic_ok_def)
  from register_keeps_handles [OF assms(2) n(4) this] have "m' = m \<or> m' = m\<lparr>next_handle := Suc (next_handle m)\<rparr>" .
  have "msquic_ok m'" "opened m' = opened m" "table m' = table m" "next_handle m \<le> next_handle m'"
    using \<open>m' = m \<or> m' = m\<lparr>next_handle := Suc (next_handle m)\<rparr>\<close> n(4) entries_below_mono [of "next_handle m" "opened m" "Suc (next_handle m)"]
    by (auto simp: msquic_ok_entries)
  then show ?thesis using inv by (auto simp: thread_inv_def)
qed

lemma thread_backoff: "thread_inv old base (c, m, st) \<Longrightarrow> thread_inv old base (c, m, conn_pass a st)"
  by (auto simp: thread_inv_def conn_pass_ok)

lemma thread_handler: "thread_inv old base (set_handler_disconnect h c, m, st) = thread_inv old base (c, m, st)"
  by (simp add: thread_inv_def set_handler_disconnect_def connect_shape_def connect_entries_def)

lemma thread_pass_inv:
  assumes inv: "thread_inv old base s" and old: "\<And>h. base \<le> h \<Longrightarrow> \<forall>(i, k, q) \<in> set old. i \<noteq> h \<and> q \<noteq> Some h"
  shows "thread_inv old base (thread_pass req rd s)"
proof -
  obtain c m st where s: "s = (c, m, st)" by (cases s)
  obtain c0 m0 where cl: "quic_close c m = (c0, m0)" by (cases "quic_close c m")
  note t0 = thread_close [OF inv [unfolded s] old cl]
  obtain r c1 m1 where cb: "connect_begin (rd_connect rd) c0 m0 = (r, c1, m1)" by (cases "connect_begin (rd_connect rd) c0 m0")
  note i1 = thread_connect [OF t0(5,4) cb]
  let ?c2 = "fold on_conn_event (rd_shake rd) c1"
  have i2: "thread_inv old base (?c2, m1, st)" using i1 by (simp add: thread_events)
  obtain ec resp m2 where rg: "register_connection (rd_stream_open rd) (rd_stream_start rd) (rd_rpc rd) req
     register_response_init ?c2 m1 = (ec, resp, m2)"
    by (cases "register_connection (rd_stream_open rd) (rd_stream_start rd) (rd_rpc rd) req register_response_init ?c2 m1")
  note i3 = thread_register [OF i2 rg]
  obtain c4 m4 where cl2: "quic_close ?c2 m2 = (c4, m4)" by (cases "quic_close ?c2 m2")
  note i4 = thread_close(5) [OF i3 old cl2]
  show ?thesis
    using thread_backoff [OF i1] thread_backoff [OF i2] thread_backoff [OF i3] thread_backoff [OF i4]
    by (simp add: thread_pass_def s cl cb rg cl2 Let_def thread_events del: conn_pass.simps)
qed

section \<open>Properties\<close>

text \<open>
  C35: a connection thread leaks nothing: after any number of passes, whatever fails in them, it ends with its
  client idle and exactly the handles open that were open when it started, none closed twice; the disconnect handler is
  cleared, and the backoff and every sleep have stayed within bounds.
\<close>

theorem conn_thread_no_leak:
  assumes "quic_idle c" and "msquic_ok m" and "api_held c \<longrightarrow> table m"
    and "conn_thread req rds c m = (c', m', st)"
  shows "quic_idle c' \<and> opened m' = opened m \<and> \<not> misuse m' \<and> \<not> has_disc_handler c' \<and>
     (\<forall>t \<in> set (sleeps st). 1000 \<le> t \<and> t \<le> kMaxBackoffMs)"
proof -
  have start: "thread_inv (opened m) (next_handle m) (set_handler_disconnect True c, m, conn_init)"
    unfolding thread_handler using assms(1-3) conn_init_ok
    by (auto simp: thread_inv_def quic_idle_def connect_shape_def connect_entries_def)
  have inv: "thread_inv (opened m) (next_handle m) s \<Longrightarrow> thread_inv (opened m) (next_handle m) (fold (thread_pass req) rds s)" for s
    using old_entries_fresh [OF assms(2)] by (induction rds arbitrary: s) (simp_all add: thread_pass_inv)
  obtain c1 m1 st1 where run: "fold (thread_pass req) rds (set_handler_disconnect True c, m, conn_init) = (c1, m1, st1)"
    by (cases "fold (thread_pass req) rds (set_handler_disconnect True c, m, conn_init)")
  have i1: "thread_inv (opened m) (next_handle m) (set_handler_disconnect False c1, m1, st1)"
    using inv [OF start] unfolding run thread_handler .
  obtain c2 m2 where cl: "quic_close (set_handler_disconnect False c1) m1 = (c2, m2)"
    by (cases "quic_close (set_handler_disconnect False c1) m1")
  note t = thread_close [OF i1 old_entries_fresh [OF assms(2)] cl]
  have eq: "c' = c2" "m' = m2" "st = st1" using assms(4) by (simp_all add: conn_thread_def run cl)
  have "\<not> has_disc_handler c2" by (simp add: t(1) set_handler_disconnect_def)
  moreover have "conn_ok st1" "opened m2 = opened m" using i1 by (simp_all add: thread_inv_def t(2))
  ultimately show ?thesis using t(3,4) unfolding eq by (simp add: conn_ok_def msquic_ok_def)
qed

lemma example_sleeps:
  "sleeps (snd (snd (conn_thread register_request_init example_rounds (client_init quic_config_init) msquic_init))) = [1000, 2000]"
  by code_simp

lemma conn_thread_no_leak_witness:
  "case conn_thread register_request_init example_rounds (client_init quic_config_init) msquic_init of
     (c', m', st) \<Rightarrow> sleeps st = [1000, 2000] \<and> opened m' = [] \<and> quic_idle c'"
proof -
  obtain c' m' st where run: "conn_thread register_request_init example_rounds (client_init quic_config_init) msquic_init = (c', m', st)"
    by (cases "conn_thread register_request_init example_rounds (client_init quic_config_init) msquic_init")
  have "quic_idle (client_init quic_config_init)" "msquic_ok msquic_init"
    "api_held (client_init quic_config_init) \<longrightarrow> table msquic_init"
    by (simp_all add: quic_idle_def client_init_def msquic_ok_def msquic_init_def)
  from conn_thread_no_leak [OF this run] have "quic_idle c' \<and> opened m' = opened msquic_init" by blast
  moreover have "opened msquic_init = []" by (simp add: msquic_init_def)
  ultimately show ?thesis using example_sleeps by (simp add: run)
qed

end
