(* ===== verification/Netlink.thy ===== *)
theory Netlink
  imports Cidr "HOL-Library.Monad_Syntax"
begin

text \<open>
  The RTNETLINK client: \<^verbatim>\<open>include/cfd/netlink.hpp\<close> and \<^verbatim>\<open>src/net/netlink.cpp\<close>.

  Messages are built at byte level in a 4096-byte buffer, in the byte order of the host (\<open>le\<close> for
  little-endian), with the structure layouts and constants of the Linux headers. Every write and read of the
  buffer is checked: outside it there is no value. The kernel is a parameter \<open>kern\<close> that answers the last
  of the requests sent so far; an operation returns its error code (0 for success, as \<^verbatim>\<open>std::error_code\<close>
  in the generic category), the client, and the requests sent. \<open>parse_message\<close> and \<open>parse_attrs\<close> are the
  receiving side's walk over a message.
\<close>

section \<open>Definitions\<close>

subsection \<open>Constants of the Linux headers\<close>

definition kScratch :: nat where "kScratch = 4096"

definition RTM_NEWLINK :: u16 where "RTM_NEWLINK = 16"
definition RTM_NEWADDR :: u16 where "RTM_NEWADDR = 20"
definition RTM_NEWROUTE :: u16 where "RTM_NEWROUTE = 24"
definition NLMSG_ERROR :: u16 where "NLMSG_ERROR = 2"
definition NLM_F_REQUEST :: u16 where "NLM_F_REQUEST = 1"
definition NLM_F_ACK :: u16 where "NLM_F_ACK = 4"
definition NLM_F_REPLACE :: u16 where "NLM_F_REPLACE = 0x100"
definition NLM_F_CREATE :: u16 where "NLM_F_CREATE = 0x400"
definition IFLA_MTU :: u16 where "IFLA_MTU = 4"
definition IFA_ADDRESS :: u16 where "IFA_ADDRESS = 1"
definition IFA_LOCAL :: u16 where "IFA_LOCAL = 2"
definition RTA_DST :: u16 where "RTA_DST = 1"
definition RTA_OIF :: u16 where "RTA_OIF = 4"
definition IFF_UP :: u32 where "IFF_UP = 1"
definition IFF_RUNNING :: u32 where "IFF_RUNNING = 0x40"
definition AF_UNSPEC :: u8 where "AF_UNSPEC = 0"
definition AF_INET :: u8 where "AF_INET = 2"
definition AF_INET6 :: u8 where "AF_INET6 = 10"
definition RT_TABLE_MAIN :: u8 where "RT_TABLE_MAIN = 254"
definition RTPROT_BOOT :: u8 where "RTPROT_BOOT = 3"
definition RT_SCOPE_LINK :: u8 where "RT_SCOPE_LINK = 253"
definition RTN_UNICAST :: u8 where "RTN_UNICAST = 1"
definition IFNAMSIZ :: nat where "IFNAMSIZ = 16"
definition EINVAL :: int where "EINVAL = 22"
definition EPROTO :: int where "EPROTO = 71"
definition EMSGSIZE :: int where "EMSGSIZE = 90"
definition EEXIST :: int where "EEXIST = 17"

subsection \<open>Integers in memory\<close>

definition enc16 :: "bool \<Rightarrow> u16 \<Rightarrow> u8 list" where
  "enc16 le w = (let bs = [ucast (drop_bit 8 w), ucast w] in if le then rev bs else bs)"

definition enc32 :: "bool \<Rightarrow> u32 \<Rightarrow> u8 list" where
  "enc32 le w =
     (let bs = [ucast (drop_bit 24 w), ucast (drop_bit 16 w), ucast (drop_bit 8 w), ucast w]
      in if le then rev bs else bs)"

definition dec16 :: "bool \<Rightarrow> u8 list \<Rightarrow> u16" where
  "dec16 le bs = (let be = (if le then rev bs else bs) in push_bit 8 (ucast (be ! 0)) OR ucast (be ! 1))"

definition dec32 :: "bool \<Rightarrow> u8 list \<Rightarrow> u32" where
  "dec32 le bs =
     (let be = (if le then rev bs else bs) in
      push_bit 24 (ucast (be ! 0)) OR push_bit 16 (ucast (be ! 1)) OR push_bit 8 (ucast (be ! 2)) OR ucast (be ! 3))"

definition put8 :: "nat \<Rightarrow> u8 \<Rightarrow> u8 list \<Rightarrow> u8 list option" where
  "put8 off w buf = mem_write off [w] buf"

definition put16 :: "bool \<Rightarrow> nat \<Rightarrow> u16 \<Rightarrow> u8 list \<Rightarrow> u8 list option" where
  "put16 le off w buf = mem_write off (enc16 le w) buf"

definition put32 :: "bool \<Rightarrow> nat \<Rightarrow> u32 \<Rightarrow> u8 list \<Rightarrow> u8 list option" where
  "put32 le off w buf = mem_write off (enc32 le w) buf"

definition get16 :: "bool \<Rightarrow> nat \<Rightarrow> u8 list \<Rightarrow> u16 option" where
  "get16 le off buf = map_option (dec16 le) (sub_bytes buf off 2)"

definition get32 :: "bool \<Rightarrow> nat \<Rightarrow> u8 list \<Rightarrow> u32 option" where
  "get32 le off buf = map_option (dec32 le) (sub_bytes buf off 4)"

subsection \<open>Attributes\<close>

definition NLMSG_ALIGN :: "u32 \<Rightarrow> u32" where
  "NLMSG_ALIGN len = (len + 3) AND NOT 3"

definition NLMSG_LENGTH :: "nat \<Rightarrow> nat" where
  "NLMSG_LENGTH n = n + 16"

definition RTA_LENGTH :: "nat \<Rightarrow> nat" where
  "RTA_LENGTH n = 4 + n"

text \<open>The header's length field is at offset 0; an attribute is its length, its type and its data.\<close>

definition nla_put :: "bool \<Rightarrow> nat \<Rightarrow> u16 \<Rightarrow> u8 list \<Rightarrow> u8 list \<Rightarrow> (bool \<times> u8 list) option" where
  "nla_put le cap ty data buf = do {
     nlen \<leftarrow> get32 le 0 buf;
     let aligned = unat (NLMSG_ALIGN nlen);
     let need = aligned + RTA_LENGTH (length data);
     if need > cap then Some (False, buf)
     else do {
       buf \<leftarrow> put16 le (aligned + 2) ty buf;
       buf \<leftarrow> put16 le aligned (of_nat (RTA_LENGTH (length data))) buf;
       buf \<leftarrow> mem_write (aligned + 4) data buf;
       buf \<leftarrow> put32 le 0 (of_nat need) buf;
       Some (True, buf)
     }
   }"

subsection \<open>The client\<close>

record nl_client =
  nl_fd :: int
  nl_seq :: u32
  nl_pid :: u32

definition nl_init :: nl_client where
  "nl_init = \<lparr>nl_fd = -1, nl_seq = 0, nl_pid = 0\<rparr>"

datatype nl_answer = SendFail int | RecvFail int | RecvData "u8 list"

type_synonym kernel = "u8 list list \<Rightarrow> nl_answer"

text \<open>
  \<^verbatim>\<open>open\<close>: the three calls in order, each with its result (the error is the \<^verbatim>\<open>errno\<close> of the failed one). The
  result is the code, the client, and the descriptors closed: the local \<^verbatim>\<open>UniqueFd\<close> closes the new one on a
  failure after the first call, the move into \<^verbatim>\<open>fd_\<close> the one held before. \<open>nl_drop\<close> is the client's destructor.
\<close>

datatype sock_result = SockFail int | SockOk int
datatype nl_call_result = CallFail int | CallOk

record nl_socket =
  se_socket :: sock_result
  se_bind :: nl_call_result
  se_getname :: nl_call_result
  se_pid :: u32

definition nl_open :: "nl_socket \<Rightarrow> nl_client \<Rightarrow> int \<times> nl_client \<times> int list" where
  "nl_open env c =
     (case se_socket env of
        SockFail e \<Rightarrow> (e, c, [])
      | SockOk f \<Rightarrow>
         (case se_bind env of
            CallFail e \<Rightarrow> (e, c, [f])
          | CallOk \<Rightarrow>
             (case se_getname env of
                CallFail e \<Rightarrow> (e, c, [f])
              | CallOk \<Rightarrow> (0, c\<lparr>nl_fd := f, nl_pid := se_pid env\<rparr>,
                  if 0 \<le> nl_fd c \<and> nl_fd c \<noteq> f then [nl_fd c] else []))))"

definition nl_drop :: "nl_client \<Rightarrow> int list" where
  "nl_drop c = (if 0 \<le> nl_fd c then [nl_fd c] else [])"

text \<open>
  \<^verbatim>\<open>talk\<close>: the reply is read within the bytes received; the rest of the 4096-byte buffer is
  uninitialised, so a read there has no value.
\<close>

definition nl_talk :: "bool \<Rightarrow> kernel \<Rightarrow> u8 list list \<Rightarrow> u8 list \<Rightarrow> (int \<times> u8 list list) option" where
  "nl_talk le kern sent req =
     (let sent' = sent @ [req] in
      case kern sent' of
        SendFail e \<Rightarrow> Some (e, sent')
      | RecvFail e \<Rightarrow> Some (e, sent')
      | RecvData full \<Rightarrow>
         (let bs = take kScratch full; n = length bs in
          if n < 16 then Some (EPROTO, sent')
          else do {
            nlen \<leftarrow> get32 le 0 bs;
            if \<not> (16 \<le> unat nlen \<and> unat nlen \<le> n) then Some (EPROTO, sent')
            else do {
              ty \<leftarrow> get16 le 4 bs;
              if ty \<noteq> NLMSG_ERROR then Some (EPROTO, sent')
              else do {
                err \<leftarrow> get32 le 16 bs;
                if err = 0 then Some (0, sent') else Some (- sint err, sent')
              }
            }
          }))"

text \<open>\<^verbatim>\<open>if_index\<close>: \<open>lookup\<close> is \<^verbatim>\<open>if_nametoindex\<close>, with the \<^verbatim>\<open>errno\<close> of a failed call.\<close>

definition nl_if_index :: "(string \<Rightarrow> int + u32) \<Rightarrow> string \<Rightarrow> u32 \<Rightarrow> int \<times> u32" where
  "nl_if_index lookup name out =
     (if IFNAMSIZ \<le> length name then (EINVAL, out)
      else case lookup (c_str name) of Inl e \<Rightarrow> (e, out) | Inr idx \<Rightarrow> (0, idx))"

text \<open>The header fields every request sets, in the order of the code.\<close>

definition nl_begin :: "bool \<Rightarrow> nat \<Rightarrow> u16 \<Rightarrow> u16 \<Rightarrow> nl_client \<Rightarrow> u8 list option" where
  "nl_begin le body ty flags c = do {
     buf \<leftarrow> put32 le 0 (of_nat (NLMSG_LENGTH body)) (replicate kScratch 0);
     buf \<leftarrow> put16 le 4 ty buf;
     buf \<leftarrow> put16 le 6 flags buf;
     buf \<leftarrow> put32 le 8 (nl_seq c) buf;
     put32 le 12 (nl_pid c) buf
   }"

definition nl_finish :: "bool \<Rightarrow> kernel \<Rightarrow> nl_client \<Rightarrow> u8 list list \<Rightarrow> u8 list \<Rightarrow> (int \<times> nl_client \<times> u8 list list) option" where
  "nl_finish le kern c sent buf = do {
     nlen \<leftarrow> get32 le 0 buf;
     req \<leftarrow> sub_bytes buf 0 (unat nlen);
     (ec, sent') \<leftarrow> nl_talk le kern sent req;
     Some (ec, c, sent')
   }"

definition nl_link_up :: "bool \<Rightarrow> kernel \<Rightarrow> u32 \<Rightarrow> nl_client \<Rightarrow> u8 list list \<Rightarrow> (int \<times> nl_client \<times> u8 list list) option" where
  "nl_link_up le kern ifindex c0 sent = do {
     let c = c0\<lparr>nl_seq := nl_seq c0 + 1\<rparr>;
     buf \<leftarrow> nl_begin le 16 RTM_NEWLINK (NLM_F_REQUEST OR NLM_F_ACK) c;
     buf \<leftarrow> put8 16 AF_UNSPEC buf;
     buf \<leftarrow> put32 le 20 ifindex buf;
     buf \<leftarrow> put32 le 24 (IFF_UP OR IFF_RUNNING) buf;
     buf \<leftarrow> put32 le 28 (IFF_UP OR IFF_RUNNING) buf;
     nl_finish le kern c sent buf
   }"

definition nl_set_mtu :: "bool \<Rightarrow> kernel \<Rightarrow> u32 \<Rightarrow> u32 \<Rightarrow> nl_client \<Rightarrow> u8 list list \<Rightarrow> (int \<times> nl_client \<times> u8 list list) option" where
  "nl_set_mtu le kern ifindex mtu c0 sent = do {
     let c = c0\<lparr>nl_seq := nl_seq c0 + 1\<rparr>;
     buf \<leftarrow> nl_begin le 16 RTM_NEWLINK (NLM_F_REQUEST OR NLM_F_ACK) c;
     buf \<leftarrow> put8 16 AF_UNSPEC buf;
     buf \<leftarrow> put32 le 20 ifindex buf;
     (ok, buf) \<leftarrow> nla_put le kScratch IFLA_MTU (enc32 le mtu) buf;
     if \<not> ok then Some (EMSGSIZE, c, sent) else nl_finish le kern c sent buf
   }"

definition nl_add_addr :: "bool \<Rightarrow> kernel \<Rightarrow> u32 \<Rightarrow> cidr \<Rightarrow> nl_client \<Rightarrow> u8 list list \<Rightarrow> (int \<times> nl_client \<times> u8 list list) option" where
  "nl_add_addr le kern ifindex addr c0 sent = do {
     let c = c0\<lparr>nl_seq := nl_seq c0 + 1\<rparr>;
     buf \<leftarrow> nl_begin le 8 RTM_NEWADDR (NLM_F_REQUEST OR NLM_F_ACK OR NLM_F_CREATE OR NLM_F_REPLACE) c;
     buf \<leftarrow> put8 16 (if ip_family (cidr_addr addr) = V4 then AF_INET else AF_INET6) buf;
     buf \<leftarrow> put8 17 (cidr_prefix_len addr) buf;
     buf \<leftarrow> put8 18 0 buf;
     buf \<leftarrow> put8 19 0 buf;
     buf \<leftarrow> put32 le 20 ifindex buf;
     let alen = (if ip_family (cidr_addr addr) = V4 then 4 else 16);
     bytes \<leftarrow> sub_bytes (ip_bytes (cidr_addr addr)) 0 alen;
     (ok, buf) \<leftarrow> nla_put le kScratch IFA_LOCAL bytes buf;
     if \<not> ok then Some (EMSGSIZE, c, sent)
     else do {
       (ok, buf) \<leftarrow> nla_put le kScratch IFA_ADDRESS bytes buf;
       if \<not> ok then Some (EMSGSIZE, c, sent) else nl_finish le kern c sent buf
     }
   }"

definition nl_add_route :: "bool \<Rightarrow> kernel \<Rightarrow> u32 \<Rightarrow> cidr \<Rightarrow> nl_client \<Rightarrow> u8 list list \<Rightarrow> (int \<times> nl_client \<times> u8 list list) option" where
  "nl_add_route le kern ifindex dst c0 sent = do {
     let c = c0\<lparr>nl_seq := nl_seq c0 + 1\<rparr>;
     buf \<leftarrow> nl_begin le 12 RTM_NEWROUTE (NLM_F_REQUEST OR NLM_F_ACK OR NLM_F_CREATE OR NLM_F_REPLACE) c;
     buf \<leftarrow> put8 16 (if ip_family (cidr_addr dst) = V4 then AF_INET else AF_INET6) buf;
     buf \<leftarrow> put8 17 (cidr_prefix_len dst) buf;
     buf \<leftarrow> put8 20 RT_TABLE_MAIN buf;
     buf \<leftarrow> put8 21 RTPROT_BOOT buf;
     buf \<leftarrow> put8 22 RT_SCOPE_LINK buf;
     buf \<leftarrow> put8 23 RTN_UNICAST buf;
     let alen = (if ip_family (cidr_addr dst) = V4 then 4 else 16);
     bytes \<leftarrow> sub_bytes (ip_bytes (cidr_addr dst)) 0 alen;
     (ok, buf) \<leftarrow> nla_put le kScratch RTA_DST bytes buf;
     if \<not> ok then Some (EMSGSIZE, c, sent)
     else do {
       (ok, buf) \<leftarrow> nla_put le kScratch RTA_OIF (enc32 le ifindex) buf;
       if \<not> ok then Some (EMSGSIZE, c, sent) else nl_finish le kern c sent buf
     }
   }"

subsection \<open>The receiving side\<close>

record nl_message =
  m_type :: u16
  m_flags :: u16
  m_seq :: u32
  m_pid :: u32
  m_body :: "u8 list"

definition parse_message :: "bool \<Rightarrow> u8 list \<Rightarrow> nl_message option" where
  "parse_message le bs = do {
     nlen \<leftarrow> get32 le 0 bs;
     ty \<leftarrow> get16 le 4 bs;
     fl \<leftarrow> get16 le 6 bs;
     seq \<leftarrow> get32 le 8 bs;
     pid \<leftarrow> get32 le 12 bs;
     if unat nlen \<noteq> length bs then None
     else Some \<lparr>m_type = ty, m_flags = fl, m_seq = seq, m_pid = pid, m_body = drop 16 bs\<rparr>
   }"

definition align4 :: "nat \<Rightarrow> nat" where
  "align4 n = (n + 3) div 4 * 4"

function parse_attrs :: "bool \<Rightarrow> u8 list \<Rightarrow> (u16 \<times> u8 list) list option" where
  "parse_attrs le bs =
     (if bs = [] then Some []
      else if length bs < 4 then None
      else let n = unat (dec16 le (take 2 bs)) in
        if n < 4 \<or> length bs < n then None
        else map_option ((#) (dec16 le (take 2 (drop 2 bs)), take (n - 4) (drop 4 bs)))
               (parse_attrs le (drop (align4 n) bs)))"
  by pat_completeness auto
termination
  by (relation "measure (\<lambda>(le, bs). length bs)") (auto simp: align4_def)

declare parse_attrs.simps [simp del]

text \<open>The bytes of a message with a given body, and of an attribute with its padding.\<close>

definition message_bytes :: "bool \<Rightarrow> u16 \<Rightarrow> u16 \<Rightarrow> nl_client \<Rightarrow> u8 list \<Rightarrow> u8 list" where
  "message_bytes le ty fl c body =
     enc32 le (of_nat (16 + length body)) @ enc16 le ty @ enc16 le fl @ enc32 le (nl_seq c) @ enc32 le (nl_pid c) @ body"

definition attr_bytes :: "bool \<Rightarrow> u16 \<times> u8 list \<Rightarrow> u8 list" where
  "attr_bytes le a = enc16 le (of_nat (4 + length (snd a))) @ enc16 le (fst a) @ snd a"

text \<open>A message buffer: the bytes written so far, then zeros up to the capacity.\<close>

definition scratch :: "u8 list \<Rightarrow> u8 list" where
  "scratch msg = msg @ replicate (kScratch - length msg) 0"

text \<open>The requests the four operations should send.\<close>

definition family_code :: "cidr \<Rightarrow> u8" where
  "family_code b = (if ip_family (cidr_addr b) = V4 then AF_INET else AF_INET6)"

definition cidr_addr_bytes :: "cidr \<Rightarrow> u8 list" where
  "cidr_addr_bytes b = take (addr_len (ip_family (cidr_addr b))) (ip_bytes (cidr_addr b))"

definition bump_seq :: "nl_client \<Rightarrow> nl_client" where
  "bump_seq c = c\<lparr>nl_seq := nl_seq c + 1\<rparr>"

definition link_up_request :: "bool \<Rightarrow> nl_client \<Rightarrow> u32 \<Rightarrow> u8 list" where
  "link_up_request le c idx = message_bytes le RTM_NEWLINK (NLM_F_REQUEST OR NLM_F_ACK) c
     ([AF_UNSPEC, 0, 0, 0] @ enc32 le idx @ enc32 le (IFF_UP OR IFF_RUNNING) @ enc32 le (IFF_UP OR IFF_RUNNING))"

definition set_mtu_request :: "bool \<Rightarrow> nl_client \<Rightarrow> u32 \<Rightarrow> u32 \<Rightarrow> u8 list" where
  "set_mtu_request le c idx mtu = message_bytes le RTM_NEWLINK (NLM_F_REQUEST OR NLM_F_ACK) c
     ([AF_UNSPEC, 0, 0, 0] @ enc32 le idx @ replicate 8 0 @ attr_bytes le (IFLA_MTU, enc32 le mtu))"

definition add_addr_request :: "bool \<Rightarrow> nl_client \<Rightarrow> u32 \<Rightarrow> cidr \<Rightarrow> u8 list" where
  "add_addr_request le c idx b =
     message_bytes le RTM_NEWADDR (NLM_F_REQUEST OR NLM_F_ACK OR NLM_F_CREATE OR NLM_F_REPLACE) c
     ([family_code b, cidr_prefix_len b, 0, 0] @ enc32 le idx
      @ attr_bytes le (IFA_LOCAL, cidr_addr_bytes b) @ attr_bytes le (IFA_ADDRESS, cidr_addr_bytes b))"

definition add_route_request :: "bool \<Rightarrow> nl_client \<Rightarrow> u32 \<Rightarrow> cidr \<Rightarrow> u8 list" where
  "add_route_request le c idx b =
     message_bytes le RTM_NEWROUTE (NLM_F_REQUEST OR NLM_F_ACK OR NLM_F_CREATE OR NLM_F_REPLACE) c
     ([family_code b, cidr_prefix_len b, 0, 0, RT_TABLE_MAIN, RTPROT_BOOT, RT_SCOPE_LINK, RTN_UNICAST]
      @ replicate 4 0 @ attr_bytes le (RTA_DST, cidr_addr_bytes b) @ attr_bytes le (RTA_OIF, enc32 le idx))"

section \<open>Lemmas\<close>


subsection \<open>Integers in memory\<close>

lemma length_enc [simp]: "length (enc16 le w) = 2" "length (enc32 le v) = 4"
  by (simp_all add: enc16_def enc32_def Let_def)

lemma dec_enc16 [simp]: "dec16 le (enc16 le w) = w"
proof -
  have "push_bit 8 (ucast (ucast (drop_bit 8 w) :: u8)) OR ucast (ucast w :: u8) = w"
  proof (rule bit_word_eqI)
    fix n assume "n < LENGTH(16)"
    then show "bit (push_bit 8 (ucast (ucast (drop_bit 8 w) :: u8)) OR ucast (ucast w :: u8) :: u16) n = bit w n"
      by (cases "n < 8") (auto simp: bit_simps)
  qed
  then show ?thesis by (simp add: dec16_def enc16_def Let_def)
qed

lemma dec_enc32 [simp]: "dec32 le (enc32 le w) = w"
proof -
  have "push_bit 24 (ucast (ucast (drop_bit 24 w) :: u8)) OR push_bit 16 (ucast (ucast (drop_bit 16 w) :: u8)) OR
     push_bit 8 (ucast (ucast (drop_bit 8 w) :: u8)) OR ucast (ucast w :: u8) = w" (is "?l = w")
  proof (rule bit_word_eqI)
    fix n assume "n < LENGTH(32)"
    then have "n < 8 \<or> (8 \<le> n \<and> n < 16) \<or> (16 \<le> n \<and> n < 24) \<or> (24 \<le> n \<and> n < 32)" by auto
    then show "bit ?l n = bit w n"
      by (elim disjE conjE) (auto simp: bit_simps)
  qed
  then show ?thesis by (simp add: dec32_def enc32_def Let_def)
qed

lemma get32_at [simp]: "get32 le 0 (enc32 le w @ r) = Some w"
  by (simp add: get32_def sub_bytes_def)

lemma NLMSG_ALIGN_align4:
  assumes "n + 3 < 2 ^ 32"
  shows "unat (NLMSG_ALIGN (of_nat n)) = align4 n"
proof -
  let ?w = "of_nat (n + 3) :: u32"
  have "w AND NOT (mask 2) = push_bit 2 (drop_bit 2 w)" for w :: u32
  proof (rule bit_word_eqI)
    fix m assume "m < LENGTH(32)"
    then show "bit (w AND NOT (mask 2)) m = bit (push_bit 2 (drop_bit 2 w)) m"
      by (cases m; cases "m - 1") (auto simp: bit_simps)
  qed
  then have "?w AND NOT (mask 2) = push_bit 2 (drop_bit 2 ?w)" .
  moreover have "(3 :: u32) = mask 2" by (simp add: mask_eq_exp_minus_1)
  ultimately have al: "NLMSG_ALIGN (of_nat n) = push_bit 2 (drop_bit 2 ?w)"
    by (simp add: NLMSG_ALIGN_def)
  have w: "unat ?w = n + 3" using assms by (intro unat_of_nat_small) simp
  have "unat (push_bit 2 (drop_bit 2 v)) = take_bit 32 (push_bit 2 (drop_bit 2 (unat v)))" for v :: u32
  proof -
    have "take_bit 32 (unat v) = unat v" using unsigned_less [of v] by (intro take_bit_nat_eq_self) simp
    then show ?thesis by (simp add: unsigned_push_bit_eq unsigned_drop_bit_eq)
  qed
  from this [of ?w] have "unat (push_bit 2 (drop_bit 2 ?w)) = (n + 3) div 4 * 4 mod 2 ^ 32"
    unfolding w by (simp add: take_bit_eq_mod push_bit_eq_mult drop_bit_eq_div)
  moreover have "(n + 3) div 4 * 4 < 2 ^ 32" using assms by (rule le_less_trans [OF div_times_less_eq_dividend])
  ultimately show ?thesis unfolding al align4_def by simp
qed

subsection \<open>Buffers\<close>

lemma kScratch_le [simp]: "numeral n \<le> kScratch \<longleftrightarrow> numeral n \<le> (4096 :: nat)"
  by (simp add: kScratch_def)

lemma scratch_empty: "replicate kScratch 0 = scratch []"
  by (simp add: scratch_def)

lemma length_scratch: "length msg \<le> kScratch \<Longrightarrow> length (scratch msg) = kScratch"
  by (simp add: scratch_def)

lemma write_fresh:
  assumes "length msg \<le> off" "off + length src \<le> kScratch"
  shows "mem_write off src (scratch msg) = Some (scratch (msg @ replicate (off - length msg) 0 @ src))"
proof -
  have "off + length src \<le> length (scratch msg)" using assms by (simp add: length_scratch)
  moreover have "take off (scratch msg) = msg @ replicate (off - length msg) 0"
    using assms by (simp add: scratch_def min_def)
  moreover have "drop (off + length src) (scratch msg) = replicate (kScratch - (off + length src)) 0"
    using assms by (simp add: scratch_def)
  ultimately show ?thesis using assms by (simp add: mem_write_Some scratch_def)
qed

lemma write_within:
  assumes "off = length a" "length x = length src" "length (a @ x @ b) \<le> kScratch"
  shows "mem_write off src (scratch (a @ x @ b)) = Some (scratch (a @ src @ b))"
  using assms by (simp add: mem_write_def scratch_def)

lemma scratch_sub: "length msg \<le> kScratch \<Longrightarrow> sub_bytes (scratch msg) 0 (length msg) = Some msg"
  by (simp add: sub_bytes_def scratch_def)

lemma get32_scratch [simp]: "get32 le 0 (scratch (enc32 le w @ r)) = Some w"
  by (simp add: scratch_def)

lemma length_message_bytes [simp]: "length (message_bytes le ty fl c body) = 16 + length body"
  by (simp add: message_bytes_def)

lemma length_attr_bytes [simp]: "length (attr_bytes le a) = 4 + length (snd a)"
  by (simp add: attr_bytes_def)

lemma nl_begin_scratch:
  "n \<le> 4000 \<Longrightarrow> nl_begin le n ty fl c = Some (scratch (enc32 le (of_nat (16 + n)) @ enc16 le ty @ enc16 le fl
     @ enc32 le (nl_seq c) @ enc32 le (nl_pid c)))"
  by (simp add: nl_begin_def scratch_empty put32_def put16_def write_fresh NLMSG_LENGTH_def add.commute)

subsection \<open>Attributes\<close>

lemma align4_mult [simp]: "align4 (4 * n) = 4 * n"
  by (simp add: align4_def)

lemma align4_bounds: "n \<le> align4 n" "align4 n \<le> n + 3"
  by (simp_all add: align4_def)

lemma nla_put_scratch:
  fixes body :: "u8 list"
  defines "L \<equiv> 16 + length body"
  assumes "L \<le> kScratch"
  shows "nla_put le kScratch t d (scratch (message_bytes le ty fl c body)) =
     (if align4 L + 4 + length d \<le> kScratch
      then Some (True, scratch (message_bytes le ty fl c (body @ replicate (align4 L - L) 0 @ attr_bytes le (t, d))))
      else Some (False, scratch (message_bytes le ty fl c body)))"
proof -
  have L: "unat (of_nat L :: u32) = L" using assms by (intro unat_of_nat_small) (simp add: kScratch_def)
  have al: "unat (NLMSG_ALIGN (of_nat L)) = align4 L"
    using assms by (intro NLMSG_ALIGN_align4) (simp add: kScratch_def)
  have nlen: "get32 le 0 (scratch (message_bytes le ty fl c body)) = Some (of_nat L)"
    by (simp add: message_bytes_def L_def)
  show ?thesis
  proof (cases "align4 L + 4 + length d \<le> kScratch")
    case False
    then show ?thesis by (simp add: nla_put_def nlen al Let_def RTA_LENGTH_def)
  next
    case fits: True
    let ?pre = "message_bytes le ty fl c body @ replicate (align4 L - L) 0"
    have Lp: "length ?pre = align4 L" using align4_bounds [of L] by (simp add: L_def)
    have w1: "put16 le (align4 L + 2) t (scratch (message_bytes le ty fl c body))
        = Some (scratch (?pre @ [0, 0] @ enc16 le t))"
    proof -
      have "align4 L + 2 - length (message_bytes le ty fl c body) = (align4 L - L) + 2"
        using align4_bounds [of L] by (simp add: L_def)
      then have "replicate (align4 L + 2 - length (message_bytes le ty fl c body)) 0
          = replicate (align4 L - L) (0 :: u8) @ [0, 0]"
        by (simp only: replicate_add) (simp add: numeral_2_eq_2)
      then show ?thesis using fits align4_bounds [of L]
        by (simp add: put16_def write_fresh L_def)
    qed
    have w2: "put16 le (align4 L) (of_nat (4 + length d)) (scratch (?pre @ [0, 0] @ enc16 le t))
        = Some (scratch (?pre @ enc16 le (of_nat (4 + length d)) @ enc16 le t))"
      unfolding put16_def using fits Lp by (intro write_within) auto
    have w3: "mem_write (align4 L + 4) d (scratch (?pre @ enc16 le (of_nat (4 + length d)) @ enc16 le t))
        = Some (scratch (?pre @ attr_bytes le (t, d)))"
      using fits Lp by (subst write_fresh) (auto simp: attr_bytes_def)
    have w4: "put32 le 0 (of_nat (align4 L + (4 + length d))) (scratch (?pre @ attr_bytes le (t, d)))
        = Some (scratch (message_bytes le ty fl c (body @ replicate (align4 L - L) 0 @ attr_bytes le (t, d))))"
    proof -
      have len: "16 + length (body @ replicate (align4 L - L) 0 @ attr_bytes le (t, d)) = align4 L + (4 + length d)"
        using align4_bounds [of L] by (simp add: L_def)
      show ?thesis
        unfolding put32_def message_bytes_def len append_assoc
        using write_within [of 0 "[]" "enc32 le (of_nat (16 + length body))" "enc32 le (of_nat (align4 L + (4 + length d)))"
          "enc16 le ty @ enc16 le fl @ enc32 le (nl_seq c) @ enc32 le (nl_pid c) @ body @ replicate (align4 L - L) 0
           @ attr_bytes le (t, d)"] fits align4_bounds [of L]
        by (simp add: L_def)
    qed
    show ?thesis using fits
      by (simp add: nla_put_def nlen al Let_def RTA_LENGTH_def w1 w2 w3 w4
         del: of_nat_add append_assoc append_Cons append_Nil add_2_eq_Suc add_2_eq_Suc')
  qed
qed

subsection \<open>Requests\<close>

lemma nl_finish_message:
  assumes "16 + length body \<le> kScratch"
  shows "nl_finish le kern c sent (scratch (message_bytes le ty fl c' body)) =
     map_option (\<lambda>(ec, sent'). (ec, c, sent')) (nl_talk le kern sent (message_bytes le ty fl c' body))"
proof -
  let ?m = "message_bytes le ty fl c' body"
  have "unat (of_nat (16 + length body) :: u32) = length ?m"
    using assms by (subst unat_of_nat_small) (auto simp: kScratch_def)
  moreover have "get32 le 0 (scratch ?m) = Some (of_nat (16 + length body))" by (simp add: message_bytes_def)
  moreover have "sub_bytes (scratch ?m) 0 (length ?m) = Some ?m" using assms by (intro scratch_sub) simp
  ultimately show ?thesis
    by (auto simp: nl_finish_def split: bind_split simp del: length_message_bytes)
qed

lemma length_cidr_addr_bytes: "wf_cidr b \<Longrightarrow> length (cidr_addr_bytes b) = addr_len (ip_family (cidr_addr b))"
  by (cases "ip_family (cidr_addr b)") (auto simp: cidr_addr_bytes_def wf_cidr_def wf_ip_def)

lemma sub_cidr_addr: "wf_cidr b \<Longrightarrow>
    sub_bytes (ip_bytes (cidr_addr b)) 0 (if ip_family (cidr_addr b) = V4 then 4 else 16) = Some (cidr_addr_bytes b)"
  by (cases "ip_family (cidr_addr b)") (auto simp: cidr_addr_bytes_def wf_cidr_def wf_ip_def sub_bytes_def)

text \<open>An attribute whose data is a multiple of four bytes, after a body that is one, needs no padding.\<close>

lemma nla_put_aligned:
  assumes "length body = 4 * k" "length d \<le> 100" "k \<le> 100"
  shows "nla_put le kScratch t d (scratch (message_bytes le ty fl c body)) =
     Some (True, scratch (message_bytes le ty fl c (body @ attr_bytes le (t, d))))"
proof -
  have "16 + length body = 4 * (4 + k)" using assms by simp
  then have "align4 (16 + length body) = 16 + length body" by (simp only: align4_mult)
  then show ?thesis
    using nla_put_scratch [where body = body and c = c and d = d and le = le and t = t and ty = ty and fl = fl] assms
    by (simp add: kScratch_def)
qed

lemma nl_link_up_request:
  "nl_link_up le kern idx c sent =
     map_option (\<lambda>(ec, sent'). (ec, bump_seq c, sent')) (nl_talk le kern sent (link_up_request le (bump_seq c) idx))"
proof -
  have "nl_begin le 16 RTM_NEWLINK (NLM_F_REQUEST OR NLM_F_ACK) (bump_seq c) \<bind> put8 16 AF_UNSPEC \<bind> put32 le 20 idx \<bind>
     put32 le 24 (IFF_UP OR IFF_RUNNING) \<bind> put32 le 28 (IFF_UP OR IFF_RUNNING)
     = Some (scratch (link_up_request le (bump_seq c) idx))"
    by (simp add: nl_begin_scratch put8_def put32_def write_fresh link_up_request_def message_bytes_def
        numeral_3_eq_3)
  then show ?thesis
    using nl_finish_message [of "[AF_UNSPEC, 0, 0, 0] @ enc32 le idx @ enc32 le (IFF_UP OR IFF_RUNNING) @ enc32 le (IFF_UP OR IFF_RUNNING)"]
    by (simp add: nl_link_up_def Let_def bump_seq_def link_up_request_def split: bind_split_asm)
qed

lemma nl_set_mtu_request:
  "nl_set_mtu le kern idx mtu c sent =
     map_option (\<lambda>(ec, sent'). (ec, bump_seq c, sent')) (nl_talk le kern sent (set_mtu_request le (bump_seq c) idx mtu))"
proof -
  let ?body = "[AF_UNSPEC, 0, 0, 0] @ enc32 le idx @ replicate 8 0"
  have zeros: "scratch (x @ y @ replicate 8 0) = scratch (x @ y)" if "length (x @ y) = 24" for x y :: "u8 list"
    using that by (simp add: scratch_def kScratch_def flip: replicate_add)
  have "nl_begin le 16 RTM_NEWLINK (NLM_F_REQUEST OR NLM_F_ACK) (bump_seq c) \<bind> put8 16 AF_UNSPEC \<bind> put32 le 20 idx
     = Some (scratch (message_bytes le RTM_NEWLINK (NLM_F_REQUEST OR NLM_F_ACK) (bump_seq c) ?body))"
    using zeros [of "enc32 le 32 @ enc16 le RTM_NEWLINK @ enc16 le (NLM_F_REQUEST OR NLM_F_ACK)
       @ enc32 le (nl_seq (bump_seq c)) @ enc32 le (nl_pid (bump_seq c))" "[AF_UNSPEC, 0, 0, 0] @ enc32 le idx"]
    by (simp add: nl_begin_scratch put8_def put32_def write_fresh message_bytes_def numeral_3_eq_3)
  moreover have "nla_put le kScratch IFLA_MTU (enc32 le mtu)
      (scratch (message_bytes le RTM_NEWLINK (NLM_F_REQUEST OR NLM_F_ACK) (bump_seq c) ?body))
      = Some (True, scratch (set_mtu_request le (bump_seq c) idx mtu))"
    using nla_put_aligned [of ?body 4] by (simp add: set_mtu_request_def)
  ultimately show ?thesis
    using nl_finish_message [of "?body @ attr_bytes le (IFLA_MTU, enc32 le mtu)"]
    by (simp add: nl_set_mtu_def Let_def bump_seq_def set_mtu_request_def split: bind_split_asm)
qed

lemma two_attrs:
  assumes "length body = 4 * k" "k \<le> 50" "length d = 4 * j" "j \<le> 10" "length d' = 4 * j'" "j' \<le> 10"
  shows "nla_put le kScratch t d (scratch (message_bytes le ty fl c body)) =
     Some (True, scratch (message_bytes le ty fl c (body @ attr_bytes le (t, d))))"
    and "nla_put le kScratch t' d' (scratch (message_bytes le ty fl c (body @ attr_bytes le (t, d)))) =
     Some (True, scratch (message_bytes le ty fl c (body @ attr_bytes le (t, d) @ attr_bytes le (t', d'))))"
  using assms nla_put_aligned [of body k d] nla_put_aligned [of "body @ attr_bytes le (t, d)" "k + 1 + j" d']
  by simp_all

lemma cidr_addr_words:
  assumes "wf_cidr b"
  obtains j where "length (cidr_addr_bytes b) = 4 * j" "j \<le> 10"
  using length_cidr_addr_bytes [OF assms] that [of 1] that [of 4] by (cases "ip_family (cidr_addr b)") auto

lemma nl_add_addr_request:
  assumes "wf_cidr b"
  shows "nl_add_addr le kern idx b c sent =
     map_option (\<lambda>(ec, sent'). (ec, bump_seq c, sent')) (nl_talk le kern sent (add_addr_request le (bump_seq c) idx b))"
proof -
  let ?fl = "NLM_F_REQUEST OR NLM_F_ACK OR NLM_F_CREATE OR NLM_F_REPLACE"
  let ?body = "[family_code b, cidr_prefix_len b, 0, 0] @ enc32 le idx"
  let ?d = "cidr_addr_bytes b"
  obtain j where j: "length ?d = 4 * j" "j \<le> 10" using cidr_addr_words [OF assms] .
  have "nl_begin le 8 RTM_NEWADDR ?fl (bump_seq c) \<bind> put8 16 (family_code b) \<bind>
      put8 17 (cidr_prefix_len b) \<bind> put8 18 0 \<bind> put8 19 0 \<bind> put32 le 20 idx
     = Some (scratch (message_bytes le RTM_NEWADDR ?fl (bump_seq c) ?body))"
    by (simp add: nl_begin_scratch put8_def put32_def write_fresh message_bytes_def)
  moreover have "nl_finish le kern (bump_seq c) sent (scratch (add_addr_request le (bump_seq c) idx b))
     = map_option (\<lambda>(ec, sent'). (ec, bump_seq c, sent')) (nl_talk le kern sent (add_addr_request le (bump_seq c) idx b))"
    unfolding add_addr_request_def using j by (intro nl_finish_message) (simp add: kScratch_def)
  moreover note two_attrs(1) [of ?body 2 ?d j ?d j le IFA_LOCAL RTM_NEWADDR ?fl "bump_seq c"]
    two_attrs(2) [of ?body 2 ?d j ?d j le IFA_ADDRESS RTM_NEWADDR ?fl "bump_seq c" IFA_LOCAL]
  ultimately show ?thesis using j sub_cidr_addr [OF assms]
    by (simp add: nl_add_addr_def Let_def bump_seq_def add_addr_request_def family_code_def [symmetric]
        split: bind_split_asm)
qed

lemma nl_add_route_request:
  assumes "wf_cidr b"
  shows "nl_add_route le kern idx b c sent =
     map_option (\<lambda>(ec, sent'). (ec, bump_seq c, sent')) (nl_talk le kern sent (add_route_request le (bump_seq c) idx b))"
proof -
  let ?fl = "NLM_F_REQUEST OR NLM_F_ACK OR NLM_F_CREATE OR NLM_F_REPLACE"
  let ?body = "[family_code b, cidr_prefix_len b, 0, 0, RT_TABLE_MAIN, RTPROT_BOOT, RT_SCOPE_LINK, RTN_UNICAST] @ replicate 4 0"
  let ?d = "cidr_addr_bytes b"
  obtain j where j: "length ?d = 4 * j" "j \<le> 10" using cidr_addr_words [OF assms] .
  have zeros: "scratch (x @ y @ replicate 4 0) = scratch (x @ y)" if "length (x @ y) = 24" for x y :: "u8 list"
    using that by (simp add: scratch_def kScratch_def flip: replicate_add)
  have "nl_begin le 12 RTM_NEWROUTE ?fl (bump_seq c) \<bind> put8 16 (family_code b) \<bind>
      put8 17 (cidr_prefix_len b) \<bind> put8 20 RT_TABLE_MAIN \<bind> put8 21 RTPROT_BOOT \<bind> put8 22 RT_SCOPE_LINK \<bind>
      put8 23 RTN_UNICAST
     = Some (scratch (message_bytes le RTM_NEWROUTE ?fl (bump_seq c) ?body))"
    using zeros [of "enc32 le 28 @ enc16 le RTM_NEWROUTE @ enc16 le ?fl
       @ enc32 le (nl_seq (bump_seq c)) @ enc32 le (nl_pid (bump_seq c))"
       "[family_code b, cidr_prefix_len b, 0, 0, RT_TABLE_MAIN, RTPROT_BOOT, RT_SCOPE_LINK, RTN_UNICAST]"]
    by (simp add: nl_begin_scratch put8_def put32_def write_fresh message_bytes_def numeral_2_eq_2)
  moreover have "nl_finish le kern (bump_seq c) sent (scratch (add_route_request le (bump_seq c) idx b))
     = map_option (\<lambda>(ec, sent'). (ec, bump_seq c, sent')) (nl_talk le kern sent (add_route_request le (bump_seq c) idx b))"
    unfolding add_route_request_def using j by (intro nl_finish_message) (simp add: kScratch_def)
  moreover note two_attrs(1) [of ?body 3 ?d j "enc32 le idx" 1 le RTA_DST RTM_NEWROUTE ?fl "bump_seq c"]
    two_attrs(2) [of ?body 3 ?d j "enc32 le idx" 1 le RTA_OIF RTM_NEWROUTE ?fl "bump_seq c" RTA_DST]
  ultimately show ?thesis using j sub_cidr_addr [OF assms]
    by (simp add: nl_add_route_def Let_def bump_seq_def add_route_request_def family_code_def [symmetric]
        split: bind_split_asm)
qed

subsection \<open>Reading a message\<close>

lemma get_skip:
  "get32 le (length a) (a @ enc32 le w @ r) = Some w" "get16 le (length a) (a @ enc16 le v @ r) = Some v"
  by (simp_all add: get32_def get16_def sub_bytes_def)

lemma message_fields:
  "get32 le 0 (message_bytes le ty fl c body) = Some (of_nat (16 + length body))"
  "get16 le 4 (message_bytes le ty fl c body) = Some ty"
  "get16 le 6 (message_bytes le ty fl c body) = Some fl"
  "get32 le 8 (message_bytes le ty fl c body) = Some (nl_seq c)"
  "get32 le 12 (message_bytes le ty fl c body) = Some (nl_pid c)"
  "drop 16 (message_bytes le ty fl c body) = body"
proof -
  let ?l = "enc32 le (of_nat (16 + length body))"
  note g16 = get_skip(2) [where le = le] and g32 = get_skip(1) [where le = le]
  show "get32 le 0 (message_bytes le ty fl c body) = Some (of_nat (16 + length body))"
    by (simp add: message_bytes_def)
  show "get16 le 4 (message_bytes le ty fl c body) = Some ty"
    using g16 [of ?l] by (simp add: message_bytes_def)
  show "get16 le 6 (message_bytes le ty fl c body) = Some fl"
    using g16 [of "?l @ enc16 le ty"] by (simp add: message_bytes_def)
  show "get32 le 8 (message_bytes le ty fl c body) = Some (nl_seq c)"
    using g32 [of "?l @ enc16 le ty @ enc16 le fl"] by (simp add: message_bytes_def)
  show "get32 le 12 (message_bytes le ty fl c body) = Some (nl_pid c)"
    using g32 [of "?l @ enc16 le ty @ enc16 le fl @ enc32 le (nl_seq c)"] by (simp add: message_bytes_def)
  show "drop 16 (message_bytes le ty fl c body) = body"
    by (simp add: message_bytes_def)
qed

lemma unat_message_length:
  "16 + length body \<le> kScratch \<Longrightarrow> unat (of_nat (16 + length body) :: u32) = 16 + length body"
  by (subst unat_of_nat_small) (auto simp: kScratch_def)

lemma parse_message_bytes:
  assumes "16 + length body \<le> kScratch"
  shows "parse_message le (message_bytes le ty fl c body) =
     Some \<lparr>m_type = ty, m_flags = fl, m_seq = nl_seq c, m_pid = nl_pid c, m_body = body\<rparr>"
  using unat_message_length [OF assms] by (simp add: parse_message_def message_fields del: of_nat_add)

lemma parse_attrs_Nil [simp]: "parse_attrs le [] = Some []"
  by (subst parse_attrs.simps) simp

lemma parse_attrs_attr:
  assumes "length d = 4 * j" "j \<le> 1000"
  shows "parse_attrs le (attr_bytes le (t, d) @ rest) = map_option ((#) (t, d)) (parse_attrs le rest)"
proof -
  have n: "unat (of_nat (4 + length d) :: u16) = 4 + length d"
    using assms by (subst unat_of_nat_small) auto
  have "4 + length d = 4 * (1 + j)" using assms by simp
  then have al: "align4 (4 + length d) = 4 + length d" by (simp only: align4_mult)
  have "attr_bytes le (t, d) @ rest \<noteq> []" by (simp add: attr_bytes_def enc16_def Let_def)
  moreover have "take 2 (attr_bytes le (t, d) @ rest) = enc16 le (of_nat (4 + length d))"
    "take 2 (drop 2 (attr_bytes le (t, d) @ rest)) = enc16 le t"
    "take (4 + length d - 4) (drop 4 (attr_bytes le (t, d) @ rest)) = d"
    "drop (4 + length d) (attr_bytes le (t, d) @ rest) = rest"
    by (simp_all add: attr_bytes_def)
  ultimately show ?thesis
    using n al by (subst parse_attrs.simps) (simp add: Let_def del: of_nat_add)
qed

subsection \<open>The reply\<close>

lemma nl_talk_ack:
  assumes "kern (sent @ [req]) = RecvData (message_bytes le NLMSG_ERROR fl c (enc32 le err @ rest))"
    and "20 + length rest \<le> kScratch"
  shows "nl_talk le kern sent req = Some (if err = 0 then 0 else - sint err, sent @ [req])"
proof -
  let ?m = "message_bytes le NLMSG_ERROR fl c (enc32 le err @ rest)"
  have tk: "take kScratch ?m = ?m" using assms(2) by simp
  have "get32 le 16 ?m = Some err"
    using get_skip(1) [of le "enc32 le (of_nat (20 + length rest)) @ enc16 le NLMSG_ERROR @ enc16 le fl
      @ enc32 le (nl_seq c) @ enc32 le (nl_pid c)" err rest] by (simp add: message_bytes_def)
  moreover have "unat (of_nat (16 + length (enc32 le err @ rest)) :: u32) = 20 + length rest"
    using unat_message_length [of "enc32 le err @ rest"] assms(2) by simp
  then have "unat (of_nat (16 + (4 + length rest)) :: u32) = 20 + length rest" by simp
  ultimately show ?thesis
    using tk by (simp add: nl_talk_def assms(1) message_fields(1,2) Let_def del: of_nat_add)
qed

lemma get_fits: "get32 le off bs \<noteq> None \<longleftrightarrow> off + 4 \<le> length bs" "get16 le off bs \<noteq> None \<longleftrightarrow> off + 2 \<le> length bs"
  by (simp_all add: get32_def get16_def sub_bytes_def)

section \<open>Properties\<close>

text \<open>
  Appending an attribute to a message in the 4096-byte buffer either fails, exactly when the aligned
  message and the attribute do not fit, and leaves the buffer as it was, or yields the message whose body is
  extended by padding to a multiple of four and the attribute, with the header's length updated; it never
  writes outside the buffer.
\<close>

theorem nla_put_appends:
  assumes "16 + length body \<le> kScratch"
  shows "nla_put le kScratch t d (scratch (message_bytes le ty fl c body)) =
     (let L = 16 + length body in
      if align4 L + 4 + length d \<le> kScratch
      then Some (True, scratch (message_bytes le ty fl c (body @ replicate (align4 L - L) 0 @ attr_bytes le (t, d))))
      else Some (False, scratch (message_bytes le ty fl c body)))"
  using nla_put_scratch [OF assms] by (simp only: Let_def)

lemma nla_put_appends_witness:
  "nla_put True kScratch IFLA_MTU [0, 5, 0, 0] (scratch (message_bytes True RTM_NEWLINK 5 nl_init (replicate 18 0))) =
     Some (True, scratch (message_bytes True RTM_NEWLINK 5 nl_init
        (replicate 18 0 @ replicate 2 0 @ attr_bytes True (IFLA_MTU, [0, 5, 0, 0]))))"
  using nla_put_appends [of "replicate 18 0" True IFLA_MTU "[0, 5, 0, 0]" RTM_NEWLINK 5 nl_init]
  by (simp add: align4_def Let_def del: replicate.simps)

text \<open>
  Adding an address sends one \<^verbatim>\<open>RTM_NEWADDR\<close> request and returns what the reply says. A receiver that
  walks the request finds the next sequence number, the family and prefix length of the block, the interface
  index, and two attributes, the local and the prefix address, each with the block's address bytes.
\<close>

theorem add_addr_request_correct:
  assumes "wf_cidr b"
  shows "\<exists>msg m. nl_add_addr le kern idx b c sent =
       map_option (\<lambda>(ec, sent'). (ec, c\<lparr>nl_seq := nl_seq c + 1\<rparr>, sent')) (nl_talk le kern sent msg) \<and>
     parse_message le msg = Some m \<and> m_type m = RTM_NEWADDR \<and>
     m_flags m = NLM_F_REQUEST OR NLM_F_ACK OR NLM_F_CREATE OR NLM_F_REPLACE \<and>
     m_seq m = nl_seq c + 1 \<and> m_pid m = nl_pid c \<and>
     take 8 (m_body m) = [family_code b, cidr_prefix_len b, 0, 0] @ enc32 le idx \<and>
     parse_attrs le (drop 8 (m_body m)) =
       Some [(IFA_LOCAL, cidr_addr_bytes b), (IFA_ADDRESS, cidr_addr_bytes b)]"
proof -
  obtain j where j: "length (cidr_addr_bytes b) = 4 * j" "j \<le> 10" using cidr_addr_words [OF assms] .
  show ?thesis
    using j nl_add_addr_request [OF assms] parse_attrs_attr [OF j(1), of le IFA_LOCAL]
      parse_attrs_attr [OF j(1), of le IFA_ADDRESS "[]"]
    by (intro exI conjI) (auto simp: bump_seq_def add_addr_request_def parse_message_bytes kScratch_def)
qed

lemma add_addr_request_correct_witness:
  "\<exists>msg m. nl_add_addr True (\<lambda>_. RecvFail 11) 7 cidr_init nl_init [] =
       map_option (\<lambda>(ec, sent'). (ec, nl_init\<lparr>nl_seq := nl_seq nl_init + 1\<rparr>, sent')) (nl_talk True (\<lambda>_. RecvFail 11) [] msg) \<and>
     parse_message True msg = Some m \<and> m_type m = RTM_NEWADDR"
proof -
  have "wf_cidr cidr_init" by (simp add: wf_cidr_def cidr_init_def ip_addr_init_def wf_ip_def)
  from add_addr_request_correct [OF this, of True "\<lambda>_. RecvFail 11" 7 nl_init "[]"] show ?thesis by blast
qed

text \<open>
  C30: adding a route sends one \<^verbatim>\<open>RTM_NEWROUTE\<close> request for the main table, with link scope and no gateway, whose
  attributes are the destination bytes and the index of the outgoing interface.
\<close>

theorem add_route_request_correct:
  assumes "wf_cidr b"
  shows "\<exists>msg m. nl_add_route le kern idx b c sent =
       map_option (\<lambda>(ec, sent'). (ec, c\<lparr>nl_seq := nl_seq c + 1\<rparr>, sent')) (nl_talk le kern sent msg) \<and>
     parse_message le msg = Some m \<and> m_type m = RTM_NEWROUTE \<and>
     m_seq m = nl_seq c + 1 \<and> m_pid m = nl_pid c \<and>
     take 12 (m_body m) = [family_code b, cidr_prefix_len b, 0, 0, RT_TABLE_MAIN, RTPROT_BOOT, RT_SCOPE_LINK,
        RTN_UNICAST, 0, 0, 0, 0] \<and>
     parse_attrs le (drop 12 (m_body m)) = Some [(RTA_DST, cidr_addr_bytes b), (RTA_OIF, enc32 le idx)]"
proof -
  obtain j where j: "length (cidr_addr_bytes b) = 4 * j" "j \<le> 10" using cidr_addr_words [OF assms] .
  have "replicate 4 (0 :: u8) = [0, 0, 0, 0]" by (simp add: numeral_eq_Suc)
  then show ?thesis
    using j nl_add_route_request [OF assms] parse_attrs_attr [OF j(1), of le RTA_DST]
      parse_attrs_attr [of "enc32 le idx" 1 le RTA_OIF "[]"]
    by (intro exI conjI) (auto simp: bump_seq_def add_route_request_def parse_message_bytes kScratch_def)
qed

lemma add_route_request_correct_witness:
  "\<exists>msg m. nl_add_route False (\<lambda>_. RecvFail 11) 7 cidr_init nl_init [] =
       map_option (\<lambda>(ec, sent'). (ec, nl_init\<lparr>nl_seq := nl_seq nl_init + 1\<rparr>, sent')) (nl_talk False (\<lambda>_. RecvFail 11) [] msg) \<and>
     parse_message False msg = Some m \<and> m_type m = RTM_NEWROUTE"
proof -
  have "wf_cidr cidr_init" by (simp add: wf_cidr_def cidr_init_def ip_addr_init_def wf_ip_def)
  from add_route_request_correct [OF this, of False "\<lambda>_. RecvFail 11" 7 nl_init "[]"] show ?thesis by blast
qed

text \<open>
  An acknowledgement that carries its error field is reported faithfully: success exactly when the field is
  zero, otherwise the positive errno of the kernel's negative value.
\<close>

theorem talk_reports_ack:
  assumes "kern (sent @ [req]) = RecvData (message_bytes le NLMSG_ERROR fl c (enc32 le err @ rest))"
    and "20 + length rest \<le> kScratch"
  shows "\<exists>ec. nl_talk le kern sent req = Some (ec, sent @ [req]) \<and> ec = - sint err \<and> (ec = 0 \<longleftrightarrow> err = 0)"
  using nl_talk_ack [of kern sent req le fl c err rest, OF assms] by (auto simp: signed_eq_0_iff)

lemma talk_reports_ack_witness:
  "\<exists>ec. nl_talk True (\<lambda>_. RecvData (message_bytes True NLMSG_ERROR 0 nl_init (enc32 True (-17) @ replicate 16 0))) [] []
     = Some (ec, [[]]) \<and> ec = - sint (-17 :: u32) \<and> (ec = 0 \<longleftrightarrow> (-17 :: u32) = 0)"
  using talk_reports_ack [of "\<lambda>_. RecvData (message_bytes True NLMSG_ERROR 0 nl_init (enc32 True (-17) @ replicate 16 0))"
     "[]" "[]" True 0 nl_init "-17" "replicate 16 0"] by (simp add: kScratch_def)

text \<open>
  \<open>talk\<close> reads outside the bytes it received for exactly these replies: an error message of 16 to 19 bytes
  with a consistent length field. The checks accept it although it has no error field.
\<close>

theorem talk_reads_past_short_error:
  assumes "kern (sent @ [req]) = RecvData bs" "length bs \<le> kScratch"
  shows "nl_talk le kern sent req = None \<longleftrightarrow>
     16 \<le> length bs \<and> length bs < 20 \<and> get16 le 4 bs = Some NLMSG_ERROR \<and>
     (\<exists>n. get32 le 0 bs = Some n \<and> 16 \<le> unat n \<and> unat n \<le> length bs)"
proof (cases "16 \<le> length bs")
  case False
  then show ?thesis using assms by (simp add: nl_talk_def Let_def)
next
  case True
  then obtain n ty where g: "get32 le 0 bs = Some n" "get16 le 4 bs = Some ty"
    using get_fits(1) [of le 0 bs] get_fits(2) [of le 4 bs] by auto
  show ?thesis
  proof (cases "length bs < 20")
    case short: True
    then have "get32 le 16 bs = None" using get_fits(1) [of le 16 bs] by auto
    then show ?thesis using assms True g short by (auto simp: nl_talk_def Let_def)
  next
    case False
    then obtain err where "get32 le 16 bs = Some err" using get_fits(1) [of le 16 bs] by auto
    then show ?thesis using assms True g False by (auto simp: nl_talk_def Let_def)
  qed
qed

lemma talk_reads_past_short_error_witness:
  "nl_talk True (\<lambda>_. RecvData (message_bytes True NLMSG_ERROR 0 nl_init [])) [] [] = None"
proof -
  have "length (message_bytes True NLMSG_ERROR 0 nl_init []) \<le> kScratch" by simp
  from talk_reads_past_short_error [OF refl this, of True "[]" "[]"] show ?thesis
    by (simp add: message_fields)
qed

end
