(* ===== verification/Unique_Fd.thy ===== *)
theory Unique_Fd
  imports Prelude
begin

text \<open>
  The owning file descriptor of \<^verbatim>\<open>include/cfd/unique_fd.hpp\<close>, with the part of the process it acts on: the live
  \<^verbatim>\<open>UniqueFd\<close> objects (each with its \<^verbatim>\<open>fd_\<close>), the descriptors the kernel has open, and a flag that a
  \<^verbatim>\<open>close\<close> hit a descriptor that was not open. \<open>loose\<close> holds the open descriptors no object owns (fresh
  from a system call, or released). The relation \<open>ufd_step\<close> allows the calls the class's contract allows:
  a descriptor is handed to an object only while it is loose.
\<close>

section \<open>Definitions\<close>

record fd_state =
  objs :: "nat \<Rightarrow> int option"
  open_fds :: "int set"
  loose :: "int set"
  bad_close :: bool

definition fd_init :: fd_state where
  "fd_init = \<lparr>objs = (\<lambda>_. None), open_fds = {}, loose = {}, bad_close = False\<rparr>"

definition sys_close :: "int \<Rightarrow> fd_state \<Rightarrow> fd_state" where
  "sys_close f s = s\<lparr>open_fds := open_fds s - {f}, bad_close := (bad_close s \<or> f \<notin> open_fds s)\<rparr>"

definition ufd_set :: "nat \<Rightarrow> int \<Rightarrow> fd_state \<Rightarrow> fd_state" where
  "ufd_set x f s = s\<lparr>objs := (objs s)(x \<mapsto> f)\<rparr>"

definition ufd_get :: "nat \<Rightarrow> fd_state \<Rightarrow> int" where
  "ufd_get x s = (case objs s x of Some f \<Rightarrow> f | None \<Rightarrow> -1)"

definition ufd_valid :: "nat \<Rightarrow> fd_state \<Rightarrow> bool" where
  "ufd_valid x s \<longleftrightarrow> ufd_get x s \<ge> 0"

definition ufd_reset :: "nat \<Rightarrow> int \<Rightarrow> fd_state \<Rightarrow> fd_state" where
  "ufd_reset x new_fd s =
     (let fd = ufd_get x s;
          s1 = (if fd \<ge> 0 \<and> fd \<noteq> new_fd then sys_close fd s else s)
      in ufd_set x new_fd s1)"

definition ufd_release :: "nat \<Rightarrow> fd_state \<Rightarrow> int \<times> fd_state" where
  "ufd_release x s = (let t = ufd_get x s in (t, ufd_set x (-1) s))"

definition ufd_construct :: "nat \<Rightarrow> int \<Rightarrow> fd_state \<Rightarrow> fd_state" where
  "ufd_construct x f s = ufd_set x f s"

definition ufd_move_construct :: "nat \<Rightarrow> nat \<Rightarrow> fd_state \<Rightarrow> fd_state" where
  "ufd_move_construct d src s = ufd_set src (-1) (ufd_set d (ufd_get src s) s)"

definition ufd_move_assign :: "nat \<Rightarrow> nat \<Rightarrow> fd_state \<Rightarrow> fd_state" where
  "ufd_move_assign d src s =
     (if d \<noteq> src then ufd_set src (-1) (ufd_reset d (ufd_get src s) s) else s)"

definition ufd_destroy :: "nat \<Rightarrow> fd_state \<Rightarrow> fd_state" where
  "ufd_destroy x s = (let s1 = ufd_reset x (-1) s in s1\<lparr>objs := (objs s1)(x := None)\<rparr>)"

text \<open>Taking a loose descriptor (or a negative one, an invalid object) into an object's care.\<close>

definition take_loose :: "int \<Rightarrow> fd_state \<Rightarrow> fd_state" where
  "take_loose f s = s\<lparr>loose := loose s - {f}\<rparr>"

inductive ufd_step :: "fd_state \<Rightarrow> fd_state \<Rightarrow> bool" where
  sys_open: "f \<ge> 0 \<Longrightarrow> f \<notin> open_fds s \<Longrightarrow>
     ufd_step s (s\<lparr>open_fds := insert f (open_fds s), loose := insert f (loose s)\<rparr>)"
| construct: "objs s x = None \<Longrightarrow> f < 0 \<or> f \<in> loose s \<Longrightarrow>
     ufd_step s (ufd_construct x f (take_loose f s))"
| move_construct: "objs s d = None \<Longrightarrow> objs s src \<noteq> None \<Longrightarrow>
     ufd_step s (ufd_move_construct d src s)"
| move_assign: "objs s d \<noteq> None \<Longrightarrow> objs s src \<noteq> None \<Longrightarrow>
     ufd_step s (ufd_move_assign d src s)"
| reset: "objs s x \<noteq> None \<Longrightarrow> f < 0 \<or> f \<in> loose s \<or> objs s x = Some f \<Longrightarrow>
     ufd_step s (ufd_reset x f (take_loose f s))"
| release: "objs s x = Some f \<Longrightarrow> ufd_release x s = (f, s') \<Longrightarrow>
     ufd_step s (if f \<ge> 0 then s'\<lparr>loose := insert f (loose s')\<rparr> else s')"
| destroy: "objs s x \<noteq> None \<Longrightarrow> ufd_step s (ufd_destroy x s)"

inductive ufd_reachable :: "fd_state \<Rightarrow> bool" where
  init: "ufd_reachable fd_init"
| next_step: "ufd_reachable s \<Longrightarrow> ufd_step s s' \<Longrightarrow> ufd_reachable s'"

text \<open>The ownership invariant: every open descriptor has exactly one owner, an object or the loose set.\<close>

definition fd_inv :: "fd_state \<Rightarrow> bool" where
  "fd_inv s \<longleftrightarrow>
     \<not> bad_close s \<and>
     (\<forall>x y f. objs s x = Some f \<and> f \<ge> 0 \<and> y \<noteq> x \<longrightarrow> objs s y \<noteq> Some f) \<and>
     (\<forall>x f. objs s x = Some f \<and> f \<ge> 0 \<longrightarrow> f \<in> open_fds s \<and> f \<notin> loose s) \<and>
     (\<forall>f \<in> open_fds s. f \<ge> 0 \<and> (f \<in> loose s \<or> (\<exists>x. objs s x = Some f))) \<and>
     loose s \<subseteq> open_fds s"

text \<open>Both moves first drop the source's descriptor into the loose set and then take it from there.\<close>

definition drop_fd :: "nat \<Rightarrow> int \<Rightarrow> fd_state \<Rightarrow> fd_state" where
  "drop_fd x f s = s\<lparr>objs := (objs s)(x \<mapsto> -1), loose := (if f \<ge> 0 then insert f (loose s) else loose s)\<rparr>"

section \<open>Lemmas\<close>

lemmas ufd_defs = ufd_set_def ufd_get_def ufd_reset_def ufd_release_def ufd_construct_def
  ufd_move_construct_def ufd_move_assign_def ufd_destroy_def take_loose_def sys_close_def

inductive_cases ufd_stepE: "ufd_step s s'"

lemma fd_invI:
  assumes "\<not> bad_close s"
    "\<And>x y f. objs s x = Some f \<Longrightarrow> f \<ge> 0 \<Longrightarrow> y \<noteq> x \<Longrightarrow> objs s y \<noteq> Some f"
    "\<And>x f. objs s x = Some f \<Longrightarrow> f \<ge> 0 \<Longrightarrow> f \<in> open_fds s \<and> f \<notin> loose s"
    "\<And>f. f \<in> open_fds s \<Longrightarrow> f \<ge> 0 \<and> (f \<in> loose s \<or> (\<exists>x. objs s x = Some f))"
    "loose s \<subseteq> open_fds s"
  shows "fd_inv s"
  unfolding fd_inv_def using assms by blast

lemma fd_invD:
  assumes "fd_inv s"
  shows "\<not> bad_close s"
    and "objs s x = Some f \<Longrightarrow> f \<ge> 0 \<Longrightarrow> y \<noteq> x \<Longrightarrow> objs s y \<noteq> Some f"
    and "objs s x = Some f \<Longrightarrow> f \<ge> 0 \<Longrightarrow> f \<in> open_fds s"
    and "objs s x = Some f \<Longrightarrow> f \<ge> 0 \<Longrightarrow> f \<notin> loose s"
    and "f \<in> open_fds s \<Longrightarrow> f \<ge> 0"
    and "f \<in> open_fds s \<Longrightarrow> f \<in> loose s \<or> (\<exists>x. objs s x = Some f)"
    and "f \<in> loose s \<Longrightarrow> f \<in> open_fds s"
  using assms unfolding fd_inv_def by blast+

text \<open>Four elementary changes of ownership, of which every operation is made.\<close>

lemma inv_give:
  assumes inv: "fd_inv s" and x: "\<And>c. objs s x = Some c \<Longrightarrow> c < 0" and f: "f < 0 \<or> f \<in> loose s"
  shows "fd_inv (s\<lparr>objs := (objs s)(x \<mapsto> f), loose := loose s - {f}\<rparr>)" (is "fd_inv ?s")
proof (rule fd_invI)
  note D = fd_invD [OF inv]
  show "\<not> bad_close ?s" using D(1) by simp
  show "objs ?s z \<noteq> Some g" if "objs ?s y = Some g" "g \<ge> 0" "z \<noteq> y" for y z g
    using that D(2) [of y g z] D(4) [of y g] D(4) [of z g] f by (cases "y = x"; cases "z = x") auto
  show "g \<in> open_fds ?s \<and> g \<notin> loose ?s" if "objs ?s y = Some g" "g \<ge> 0" for y g
    using that D(3) [of y g] D(4) [of y g] D(7) [of g] f by (cases "y = x") auto
  show "g \<ge> 0 \<and> (g \<in> loose ?s \<or> (\<exists>y. objs ?s y = Some g))" if o: "g \<in> open_fds ?s" for g
  proof -
    have g: "g \<ge> 0" "g \<in> loose s \<or> (\<exists>y. objs s y = Some g)" using o D(5,6) by simp_all
    then have "g = f \<or> g \<in> loose s - {f} \<or> (\<exists>y. y \<noteq> x \<and> objs s y = Some g)" using x by force
    with g(1) show ?thesis by auto
  qed
  show "loose ?s \<subseteq> open_fds ?s" using D(7) by auto
qed

lemma inv_drop:
  assumes inv: "fd_inv s" and x: "objs s x = Some f"
  shows "fd_inv (s\<lparr>objs := (objs s)(x \<mapsto> -1), loose := (if f \<ge> 0 then insert f (loose s) else loose s)\<rparr>)"
    (is "fd_inv ?s")
proof (rule fd_invI)
  note D = fd_invD [OF inv]
  show "\<not> bad_close ?s" using D(1) by simp
  show "objs ?s z \<noteq> Some g" if "objs ?s y = Some g" "g \<ge> 0" "z \<noteq> y" for y z g
    using that D(2) [of y g z] by (cases "y = x"; cases "z = x") auto
  show "g \<in> open_fds ?s \<and> g \<notin> loose ?s" if "objs ?s y = Some g" "g \<ge> 0" for y g
    using that D(2) [of x f y] D(3) [of y g] D(4) [of y g] x by (cases "y = x") auto
  show "g \<ge> 0 \<and> (g \<in> loose ?s \<or> (\<exists>y. objs ?s y = Some g))" if o: "g \<in> open_fds ?s" for g
  proof -
    have g: "g \<ge> 0" "g \<in> loose s \<or> (\<exists>y. objs s y = Some g)" using o D(5,6) by simp_all
    then have "g = f \<or> g \<in> loose s \<or> (\<exists>y. y \<noteq> x \<and> objs s y = Some g)" using x by force
    with g(1) show ?thesis by auto
  qed
  show "loose ?s \<subseteq> open_fds ?s" using D(7) D(3) [OF x] by auto
qed

lemma inv_close:
  assumes inv: "fd_inv s" and x: "objs s x = Some f" "f \<ge> 0"
  shows "fd_inv (s\<lparr>objs := (objs s)(x \<mapsto> -1), open_fds := open_fds s - {f}\<rparr>)" (is "fd_inv ?s")
proof (rule fd_invI)
  note D = fd_invD [OF inv]
  show "\<not> bad_close ?s" using D(1) by simp
  show "objs ?s z \<noteq> Some g" if "objs ?s y = Some g" "g \<ge> 0" "z \<noteq> y" for y z g
    using that D(2) [of y g z] by (cases "y = x"; cases "z = x") auto
  show "g \<in> open_fds ?s \<and> g \<notin> loose ?s" if "objs ?s y = Some g" "g \<ge> 0" for y g
    using that D(2) [of x f y] D(3) [of y g] D(4) [of y g] x by (cases "y = x") auto
  show "g \<ge> 0 \<and> (g \<in> loose ?s \<or> (\<exists>y. objs ?s y = Some g))" if o: "g \<in> open_fds ?s" for g
  proof -
    have g: "g \<ge> 0" "g \<in> loose s \<or> (\<exists>y. objs s y = Some g)" using o D(5,6) by simp_all
    then have "g \<in> loose s \<or> (\<exists>y. y \<noteq> x \<and> objs s y = Some g)" using x o by force
    with g(1) show ?thesis by auto
  qed
  show "loose ?s \<subseteq> open_fds ?s" using D(7) D(4) [OF x] by auto
qed

lemma inv_remove:
  assumes inv: "fd_inv s" and x: "objs s x = Some c" "c < 0"
  shows "fd_inv (s\<lparr>objs := (objs s)(x := None)\<rparr>)" (is "fd_inv ?s")
proof (rule fd_invI)
  note D = fd_invD [OF inv]
  show "\<not> bad_close ?s" using D(1) by simp
  show "objs ?s z \<noteq> Some g" if "objs ?s y = Some g" "g \<ge> 0" "z \<noteq> y" for y z g
    using that D(2) [of y g z] by (cases "y = x"; cases "z = x") auto
  show "g \<in> open_fds ?s \<and> g \<notin> loose ?s" if "objs ?s y = Some g" "g \<ge> 0" for y g
    using that D(3) [of y g] D(4) [of y g] by (cases "y = x") auto
  show "g \<ge> 0 \<and> (g \<in> loose ?s \<or> (\<exists>y. objs ?s y = Some g))" if o: "g \<in> open_fds ?s" for g
  proof -
    have g: "g \<ge> 0" "g \<in> loose s \<or> (\<exists>y. objs s y = Some g)" using o D(5,6) by simp_all
    then have "g \<in> loose s \<or> (\<exists>y. y \<noteq> x \<and> objs s y = Some g)" using x by force
    with g(1) show ?thesis by auto
  qed
  show "loose ?s \<subseteq> open_fds ?s" using D(7) by auto
qed

lemma negative_not_loose: "fd_inv s \<Longrightarrow> f < 0 \<Longrightarrow> f \<notin> loose s"
  using fd_invD(5,7) [of s f] by force

lemma take_loose_id: "f \<notin> loose s \<Longrightarrow> take_loose f s = s"
  by (simp add: take_loose_def)

lemma ufd_reset_inv:
  assumes inv: "fd_inv s" and x: "objs s x = Some cur" and f: "f < 0 \<or> f \<in> loose s \<or> f = cur"
  shows "fd_inv (ufd_reset x f (take_loose f s))"
proof (cases "f = cur")
  case True
  then have "f \<notin> loose s" using fd_invD(4) [OF inv x] negative_not_loose [OF inv] by force
  then have "ufd_reset x f (take_loose f s) = s"
    using True x by (simp add: ufd_defs fun_upd_idem)
  with inv show ?thesis by simp
next
  case False
  show ?thesis
  proof (cases "cur \<ge> 0")
    case True
    let ?t = "s\<lparr>objs := (objs s)(x \<mapsto> -1), open_fds := open_fds s - {cur}\<rparr>"
    have "fd_inv ?t" using inv_close [OF inv x True] .
    then have "fd_inv (?t\<lparr>objs := (objs ?t)(x \<mapsto> f), loose := loose ?t - {f}\<rparr>)"
      by (rule inv_give) (use f False in auto)
    moreover have "ufd_reset x f (take_loose f s) = ?t\<lparr>objs := (objs ?t)(x \<mapsto> f), loose := loose ?t - {f}\<rparr>"
      using x True \<open>f \<noteq> cur\<close> fd_invD(3) [OF inv x True] fd_invD(1) [OF inv] by (simp add: ufd_defs)
    ultimately show ?thesis by simp
  next
    case neg: False
    have "fd_inv (s\<lparr>objs := (objs s)(x \<mapsto> f), loose := loose s - {f}\<rparr>)"
      by (rule inv_give [OF inv]) (use x neg f False in auto)
    moreover have "ufd_reset x f (take_loose f s) = s\<lparr>objs := (objs s)(x \<mapsto> f), loose := loose s - {f}\<rparr>"
      using x neg by (simp add: ufd_defs)
    ultimately show ?thesis by simp
  qed
qed

lemma take_drop_fd:
  assumes "fd_inv s" "objs s x = Some f"
  shows "take_loose f (drop_fd x f s) = s\<lparr>objs := (objs s)(x \<mapsto> -1)\<rparr>"
  using fd_invD(4) [OF assms] negative_not_loose [OF assms(1)]
  by (cases "f \<ge> 0") (simp_all add: take_loose_def drop_fd_def)

lemma drop_fd_fields [simp]:
  "objs (drop_fd x f s) = (objs s)(x \<mapsto> -1)" "open_fds (drop_fd x f s) = open_fds s"
  by (simp_all add: drop_fd_def)

lemma inv_sys_open:
  assumes inv: "fd_inv s" and f: "f \<ge> 0" "f \<notin> open_fds s"
  shows "fd_inv (s\<lparr>open_fds := insert f (open_fds s), loose := insert f (loose s)\<rparr>)" (is "fd_inv ?s")
proof -
  note D = fd_invD [OF inv]
  have no: "objs s x \<noteq> Some f" for x using D(3) [of x f] f by auto
  show ?thesis
  proof (rule fd_invI)
    show "g \<in> open_fds ?s \<and> g \<notin> loose ?s" if "objs ?s y = Some g" "g \<ge> 0" for y g
      using that no [of y] D(3,4) [of y g] by auto
    show "g \<ge> 0 \<and> (g \<in> loose ?s \<or> (\<exists>y. objs ?s y = Some g))" if "g \<in> open_fds ?s" for g
      using that f D(5,6) [of g] by auto
    show "objs ?s z \<noteq> Some g" if "objs ?s y = Some g" "g \<ge> 0" "z \<noteq> y" for y z g
      using that D(2) [of y g z] by simp
    show "loose ?s \<subseteq> open_fds ?s" using D(7) by auto
  qed (use D(1) in simp)
qed

lemma ufd_construct_inv:
  assumes "fd_inv s" "objs s x = None" "f < 0 \<or> f \<in> loose s"
  shows "fd_inv (ufd_construct x f (take_loose f s))"
proof -
  have "fd_inv (s\<lparr>objs := (objs s)(x \<mapsto> f), loose := loose s - {f}\<rparr>)"
    using assms by (intro inv_give) auto
  moreover have "ufd_construct x f (take_loose f s) = s\<lparr>objs := (objs s)(x \<mapsto> f), loose := loose s - {f}\<rparr>"
    by (simp add: ufd_defs)
  ultimately show ?thesis by simp
qed

lemma ufd_move_construct_inv:
  assumes inv: "fd_inv s" and d: "objs s d = None" and g: "objs s src = Some g"
  shows "fd_inv (ufd_move_construct d src s)"
proof -
  have "src \<noteq> d" using g d by auto
  note twist = fun_upd_twist [OF this, of "objs s" "Some (-1)" "Some g"]
  have "fd_inv (drop_fd src g s)" unfolding drop_fd_def using inv g by (rule inv_drop)
  then have "fd_inv ((drop_fd src g s)\<lparr>objs := (objs (drop_fd src g s))(d \<mapsto> g), loose := loose (drop_fd src g s) - {g}\<rparr>)"
    by (rule inv_give) (use d in \<open>auto simp: drop_fd_def split: if_splits\<close>)
  also have "(drop_fd src g s)\<lparr>objs := (objs (drop_fd src g s))(d \<mapsto> g), loose := loose (drop_fd src g s) - {g}\<rparr>
      = (take_loose g (drop_fd src g s))\<lparr>objs := (objs (drop_fd src g s))(d \<mapsto> g)\<rparr>"
    by (simp add: take_loose_def)
  also have "\<dots> = ufd_move_construct d src s"
    using g twist by (auto simp: take_drop_fd [OF inv g] ufd_move_construct_def ufd_set_def ufd_get_def)
  finally show ?thesis .
qed

lemma ufd_move_assign_inv:
  assumes inv: "fd_inv s" and c: "objs s d = Some c" and g: "objs s src = Some g"
  shows "fd_inv (ufd_move_assign d src s)"
proof (cases "d = src")
  case True
  then show ?thesis using inv by (simp add: ufd_move_assign_def)
next
  case False
  have "fd_inv (drop_fd src g s)" unfolding drop_fd_def using inv g by (rule inv_drop)
  then have "fd_inv (ufd_reset d g (take_loose g (drop_fd src g s)))"
    by (rule ufd_reset_inv) (use c False in \<open>auto simp: drop_fd_def\<close>)
  moreover have "ufd_reset d g (take_loose g (drop_fd src g s)) = ufd_move_assign d src s"
    using g c False fun_upd_twist [of src d "objs s" "Some (-1)" "Some g"]
    by (auto simp: take_drop_fd [OF inv g] ufd_reset_def ufd_move_assign_def ufd_set_def ufd_get_def sys_close_def Let_def)
  ultimately show ?thesis by simp
qed

lemma ufd_release_inv:
  assumes "fd_inv s" "objs s x = Some f" "ufd_release x s = (f, s')"
  shows "fd_inv (if f \<ge> 0 then s'\<lparr>loose := insert f (loose s')\<rparr> else s')"
proof -
  have "fd_inv (drop_fd x f s)" unfolding drop_fd_def using assms(1,2) by (rule inv_drop)
  moreover have "(if f \<ge> 0 then s'\<lparr>loose := insert f (loose s')\<rparr> else s') = drop_fd x f s"
    using assms(2,3) by (auto simp: ufd_defs drop_fd_def)
  ultimately show ?thesis by simp
qed

lemma ufd_destroy_inv:
  assumes "fd_inv s" "objs s x = Some c"
  shows "fd_inv (ufd_destroy x s)"
proof -
  have "fd_inv (ufd_reset x (-1) (take_loose (-1) s))"
    using assms by (rule ufd_reset_inv) simp
  then have "fd_inv (ufd_reset x (-1) s)"
    using negative_not_loose [OF assms(1), of "-1"] by (simp add: take_loose_id)
  then show ?thesis unfolding ufd_destroy_def Let_def
    by (rule inv_remove [where c = "-1"]) (simp_all add: ufd_reset_def ufd_set_def Let_def)
qed

lemmas ufd_inv_intros = inv_sys_open ufd_construct_inv ufd_move_construct_inv ufd_move_assign_inv ufd_reset_inv
  ufd_release_inv ufd_destroy_inv

lemma ufd_step_inv: "ufd_step s s' \<Longrightarrow> fd_inv s \<Longrightarrow> fd_inv s'"
proof (induction rule: ufd_step.induct)
  case (release s x f s')
  then show ?case by (intro ufd_release_inv)
qed (auto intro: ufd_inv_intros)

lemma ufd_reachable_inv: "ufd_reachable s \<Longrightarrow> fd_inv s"
proof (induction rule: ufd_reachable.induct)
  case init
  show ?case by (simp add: fd_inv_def fd_init_def)
next
  case (next_step s s')
  then show ?case by (blast intro: ufd_step_inv)
qed

section \<open>Properties\<close>

text \<open>C33: In every run of the class's operations no \<^verbatim>\<open>close\<close> hits a descriptor that is not open (so none is
  closed twice), no two live objects own the same descriptor, every owned descriptor is open, and once no
  live object holds a descriptor, the only open ones are those that were released or never wrapped.\<close>

theorem unique_fd_ownership:
  assumes "ufd_reachable s"
  shows "\<not> bad_close s
    \<and> (\<forall>x y f. objs s x = Some f \<and> objs s y = Some f \<and> f \<ge> 0 \<longrightarrow> x = y)
    \<and> (\<forall>x. ufd_valid x s \<longrightarrow> ufd_get x s \<in> open_fds s)
    \<and> ((\<forall>x. \<not> ufd_valid x s) \<longrightarrow> open_fds s = loose s)"
proof -
  note D = fd_invD [OF ufd_reachable_inv [OF assms]]
  have "x = y" if "objs s x = Some f" "objs s y = Some f" "f \<ge> 0" for x y f
    using D(2) [of x f y] that by blast
  moreover have "ufd_get x s \<in> open_fds s" if "ufd_valid x s" for x
    using that D(3) [of x] by (cases "objs s x") (auto simp: ufd_valid_def ufd_get_def)
  moreover have "open_fds s = loose s" if none: "\<forall>x. \<not> ufd_valid x s"
  proof
    show "open_fds s \<subseteq> loose s"
    proof
      fix f assume f: "f \<in> open_fds s"
      have "objs s x \<noteq> Some f" for x
        using none [rule_format, of x] D(5) [OF f] by (auto simp: ufd_valid_def ufd_get_def)
      with D(6) [OF f] show "f \<in> loose s" by blast
    qed
    show "loose s \<subseteq> open_fds s" using D(7) by blast
  qed
  ultimately show ?thesis using D(1) by blast
qed

theorem unique_fd_ownership_witness:
  "\<not> bad_close (ufd_destroy 1 (ufd_move_construct 1 0 (ufd_construct 0 3
     (take_loose 3 (fd_init\<lparr>open_fds := {3}, loose := {3}\<rparr>)))))"
proof -
  let ?s1 = "fd_init\<lparr>open_fds := insert 3 (open_fds fd_init), loose := insert 3 (loose fd_init)\<rparr>"
  have eq: "?s1 = fd_init\<lparr>open_fds := {3}, loose := {3}\<rparr>" by (simp add: fd_init_def)
  have r1: "ufd_reachable ?s1"
    by (rule ufd_reachable.next_step [OF ufd_reachable.init ufd_step.sys_open]) (simp_all add: fd_init_def)
  let ?s2 = "ufd_construct 0 3 (take_loose 3 ?s1)"
  have r2: "ufd_reachable ?s2"
    by (rule ufd_reachable.next_step [OF r1 ufd_step.construct]) (simp_all add: fd_init_def)
  let ?s3 = "ufd_move_construct 1 0 ?s2"
  have r3: "ufd_reachable ?s3"
    by (rule ufd_reachable.next_step [OF r2 ufd_step.move_construct]) (simp_all add: ufd_defs fd_init_def)
  have "ufd_reachable (ufd_destroy 1 ?s3)"
    by (rule ufd_reachable.next_step [OF r3 ufd_step.destroy]) (simp add: ufd_defs fd_init_def)
  from unique_fd_ownership [OF this] show ?thesis by (simp add: eq)
qed

end
