(* ===== verification/Tun.thy ===== *)
theory Tun
  imports Netlink Unique_Fd
begin

text \<open>
  The TUN device of \<^verbatim>\<open>include/cfd/tun.hpp\<close> and \<^verbatim>\<open>src/tun/tun_device_linux.cpp\<close> (the Linux part).

  \<open>tun_open\<close> takes the results of the two system calls and returns the error code, the device and the
  descriptors it closed. \<open>configure_link\<close> and \<open>install_route\<close> are the bodies of \<^verbatim>\<open>configure\<close> and \<^verbatim>\<open>add_route\<close>
  after the socket is open, over the client's operations; the locale \<open>link_client\<close> states what they rely on
  (each operation sends the one request it should and returns the code of its reply), and the interpretation on the
  operations of \<open>Netlink\<close> carries its lemmas to \<open>tun_configure\<close> and \<open>tun_add_route\<close>.
\<close>

section \<open>Definitions\<close>

record tun_device =
  tun_fd :: int
  tun_dev_name :: string

definition tun_init :: tun_device where
  "tun_init = \<lparr>tun_fd = -1, tun_dev_name = []\<rparr>"

definition tun_mtu :: u32 where
  "tun_mtu = 1280"

text \<open>The sixteen bytes of \<^verbatim>\<open>ifr_name\<close>: at most fifteen characters of the request, then zeros.\<close>

definition ifr_name :: "string \<Rightarrow> string" where
  "ifr_name requested =
     (let n = min (length requested) (IFNAMSIZ - 1) in
      if requested = [] then replicate IFNAMSIZ (CHR 0x00)
      else take n requested @ replicate (IFNAMSIZ - n) (CHR 0x00))"

definition IFF_TUN :: u16 where "IFF_TUN = 1"
definition IFF_NO_PI :: u16 where "IFF_NO_PI = 0x1000"

text \<open>
  \<open>sys_open\<close> is the descriptor of \<^verbatim>\<open>/dev/net/tun\<close> or the \<^verbatim>\<open>errno\<close>; \<open>tunsetiff\<close> the \<^verbatim>\<open>ioctl\<close>, which stores
  the interface name the kernel chose. The local \<^verbatim>\<open>UniqueFd\<close> closes on the error path.
\<close>

definition tun_open ::
  "(int + int) \<Rightarrow> (int \<Rightarrow> u16 \<Rightarrow> string \<Rightarrow> int + string) \<Rightarrow> string \<Rightarrow> tun_device \<Rightarrow> int \<times> tun_device \<times> int list" where
  "tun_open sys_open tunsetiff requested dev =
     (case sys_open of
        Inl e \<Rightarrow> (e, dev, [])
      | Inr f \<Rightarrow>
         (case tunsetiff f (IFF_TUN OR IFF_NO_PI) (ifr_name requested) of
            Inl e \<Rightarrow> (e, dev, [f])
          | Inr name \<Rightarrow>
              (0, dev\<lparr>tun_fd := f, tun_dev_name := c_str name\<rparr>, if tun_fd dev \<ge> 0 \<and> tun_fd dev \<noteq> f then [tun_fd dev] else [])))"

text \<open>Reading and writing a packet are one system call on the device's descriptor: \<^verbatim>\<open>errno\<close>, or what it moved.\<close>

definition tun_read_packet :: "(int \<Rightarrow> nat \<Rightarrow> int + u8 list) \<Rightarrow> tun_device \<Rightarrow> nat \<Rightarrow> int + u8 list" where
  "tun_read_packet sys_read dev cap = sys_read (tun_fd dev) cap"

definition tun_write_packet :: "(int \<Rightarrow> u8 list \<Rightarrow> int + nat) \<Rightarrow> tun_device \<Rightarrow> u8 list \<Rightarrow> int + nat" where
  "tun_write_packet sys_write dev p = sys_write (tun_fd dev) p"

subsection \<open>Configuration over a netlink client\<close>

type_synonym 'c link_op = "'c \<Rightarrow> (int \<times> 'c) option"

definition configure_link ::
  "(u32 \<Rightarrow> u32 \<Rightarrow> 'c link_op) \<Rightarrow> (u32 \<Rightarrow> 'c link_op) \<Rightarrow> (u32 \<Rightarrow> cidr \<Rightarrow> 'c link_op) \<Rightarrow> (u32 \<Rightarrow> cidr \<Rightarrow> 'c link_op) \<Rightarrow>
   u32 \<Rightarrow> cidr \<Rightarrow> cidr \<Rightarrow> 'c link_op" where
  "configure_link set_mtu link_up add_addr add_route idx local route nl = do {
     (mtu_ec, nl) \<leftarrow> set_mtu idx tun_mtu nl;
     (ec, nl) \<leftarrow> link_up idx nl;
     if ec \<noteq> 0 then Some (ec, nl)
     else do {
       (ec, nl) \<leftarrow> add_addr idx local nl;
       if ec \<noteq> 0 then Some (ec, nl)
       else do {
         (ec, nl) \<leftarrow> add_route idx route nl;
         if ec \<noteq> 0 \<and> ec \<noteq> EEXIST then Some (ec, nl) else Some (0, nl)
       }
     }
   }"

definition install_route :: "(u32 \<Rightarrow> cidr \<Rightarrow> 'c link_op) \<Rightarrow> u32 \<Rightarrow> cidr \<Rightarrow> 'c link_op" where
  "install_route add_route idx route nl = do {
     (ec, nl) \<leftarrow> add_route idx route nl;
     if ec \<noteq> 0 \<and> ec \<noteq> EEXIST then Some (ec, nl) else Some (0, nl)
   }"

text \<open>The operations of the netlink client on its state and the requests sent.\<close>

definition on_client ::
  "(nl_client \<Rightarrow> u8 list list \<Rightarrow> (int \<times> nl_client \<times> u8 list list) option) \<Rightarrow> (nl_client \<times> u8 list list) link_op" where
  "on_client oper s = map_option (\<lambda>(ec, c, sent). (ec, (c, sent))) (oper (fst s) (snd s))"

text \<open>
  The methods: open the socket of a local client, resolve the interface, then the requests. The result is the
  code, the requests and the descriptors closed, those of the client's destructor included.
\<close>

definition with_link ::
  "nl_socket \<Rightarrow> (string \<Rightarrow> int + u32) \<Rightarrow> tun_device \<Rightarrow> (u32 \<Rightarrow> (nl_client \<times> u8 list list) link_op) \<Rightarrow>
   (int \<times> u8 list list \<times> int list) option" where
  "with_link sock lookup dev body =
     (let (ec, nl, closed) = nl_open sock nl_init in
      if ec \<noteq> 0 then Some (ec, [], closed @ nl_drop nl)
      else let (ec, idx) = nl_if_index lookup (tun_dev_name dev) 0 in
        if ec \<noteq> 0 then Some (ec, [], closed @ nl_drop nl)
        else map_option (\<lambda>(ec, s). (ec, snd s, closed @ nl_drop (fst s))) (body idx (nl, [])))"

definition tun_configure ::
  "bool \<Rightarrow> kernel \<Rightarrow> nl_socket \<Rightarrow> (string \<Rightarrow> int + u32) \<Rightarrow> tun_device \<Rightarrow> cidr \<Rightarrow> cidr \<Rightarrow>
   (int \<times> u8 list list \<times> int list) option" where
  "tun_configure le kern sock lookup dev local route =
     with_link sock lookup dev (\<lambda>idx.
       configure_link (\<lambda>i m. on_client (nl_set_mtu le kern i m)) (\<lambda>i. on_client (nl_link_up le kern i))
         (\<lambda>i b. on_client (nl_add_addr le kern i b)) (\<lambda>i b. on_client (nl_add_route le kern i b)) idx local route)"

definition tun_add_route ::
  "bool \<Rightarrow> kernel \<Rightarrow> nl_socket \<Rightarrow> (string \<Rightarrow> int + u32) \<Rightarrow> tun_device \<Rightarrow> cidr \<Rightarrow>
   (int \<times> u8 list list \<times> int list) option" where
  "tun_add_route le kern sock lookup dev route =
     with_link sock lookup dev (\<lambda>idx. install_route (\<lambda>i b. on_client (nl_add_route le kern i b)) idx route)"

text \<open>A socket that opens, for the witnesses.\<close>

definition good_socket :: nl_socket where
  "good_socket = \<lparr>se_socket = SockOk 7, se_bind = CallOk, se_getname = CallOk, se_pid = 4242\<rparr>"

text \<open>
  The code \<open>talk\<close> reports for the last of the requests sent, and kernels whose replies all carry an error
  field (so that \<open>talk\<close> stays within them).
\<close>

definition reply_code :: "bool \<Rightarrow> kernel \<Rightarrow> u8 list list \<Rightarrow> int" where
  "reply_code le kern sent = (case nl_talk le kern (butlast sent) (last sent) of None \<Rightarrow> 0 | Some (ec, _) \<Rightarrow> ec)"

definition whole_replies :: "bool \<Rightarrow> kernel \<Rightarrow> bool" where
  "whole_replies le kern \<longleftrightarrow> (\<forall>sent req. nl_talk le kern sent req \<noteq> None)"

text \<open>The four requests of \<^verbatim>\<open>configure\<close> on a client with this descriptor and port, numbered from 1.\<close>

definition configure_requests :: "bool \<Rightarrow> int \<Rightarrow> u32 \<Rightarrow> u32 \<Rightarrow> cidr \<Rightarrow> cidr \<Rightarrow> u8 list list" where
  "configure_requests le f pid idx local route =
     (let c = (\<lambda>k. \<lparr>nl_fd = f, nl_seq = k, nl_pid = pid\<rparr>)
      in [set_mtu_request le (c 1) idx 1280, link_up_request le (c 2) idx, add_addr_request le (c 3) idx local,
          add_route_request le (c 4) idx route])"

section \<open>The client's contract\<close>

locale link_client =
  fixes set_mtu :: "u32 \<Rightarrow> u32 \<Rightarrow> 'c link_op"
    and link_up :: "u32 \<Rightarrow> 'c link_op"
    and add_addr :: "u32 \<Rightarrow> cidr \<Rightarrow> 'c link_op"
    and add_route :: "u32 \<Rightarrow> cidr \<Rightarrow> 'c link_op"
    and mtu_req :: "u32 \<Rightarrow> u32 \<Rightarrow> 'c \<Rightarrow> 'r"
    and up_req :: "u32 \<Rightarrow> 'c \<Rightarrow> 'r"
    and addr_req :: "u32 \<Rightarrow> cidr \<Rightarrow> 'c \<Rightarrow> 'r"
    and route_req :: "u32 \<Rightarrow> cidr \<Rightarrow> 'c \<Rightarrow> 'r"
    and after :: "'c \<Rightarrow> 'r \<Rightarrow> 'c"
    and requests :: "'c \<Rightarrow> 'r list"
    and holds :: "'c \<Rightarrow> 'h"
    and code :: "'r list \<Rightarrow> int"
    and serves :: bool
  assumes mtu_one: "serves \<Longrightarrow> set_mtu i m s = Some (code (requests s @ [mtu_req i m s]), after s (mtu_req i m s))"
    and up_one: "serves \<Longrightarrow> link_up i s = Some (code (requests s @ [up_req i s]), after s (up_req i s))"
    and addr_one: "serves \<Longrightarrow> wf_cidr b \<Longrightarrow> add_addr i b s = Some (code (requests s @ [addr_req i b s]), after s (addr_req i b s))"
    and route_one: "serves \<Longrightarrow> wf_cidr b \<Longrightarrow>
      add_route i b s = Some (code (requests s @ [route_req i b s]), after s (route_req i b s))"
    and after_requests [simp]: "requests (after s r) = requests s @ [r]"
    and after_holds [simp]: "holds (after s r) = holds s"
begin

lemma configure_sequence:
  assumes serves and wf: "wf_cidr local" "wf_cidr route"
    and r: "r1 = mtu_req i tun_mtu s" "r2 = up_req i (after s r1)" "r3 = addr_req i local (after (after s r1) r2)"
      "r4 = route_req i route (after (after (after s r1) r2) r3)"
  shows "\<exists>ec s' n. configure_link set_mtu link_up add_addr add_route i local route s = Some (ec, s') \<and>
     requests s' = requests s @ take n [r1, r2, r3, r4] \<and> holds s' = holds s \<and> n \<in> {2, 3, 4} \<and>
     (ec = 0 \<longleftrightarrow> n = 4 \<and> code (requests s @ [r1, r2, r3, r4]) \<in> {0, EEXIST}) \<and>
     (ec \<noteq> 0 \<longrightarrow> ec = code (requests s @ take n [r1, r2, r3, r4])) \<and>
     (2 < n \<longrightarrow> code (requests s @ [r1, r2]) = 0) \<and> (3 < n \<longrightarrow> code (requests s @ [r1, r2, r3]) = 0)"
proof -
  note steps = mtu_one [OF assms(1), of i tun_mtu s] up_one [OF assms(1), of i "after s r1"]
    addr_one [OF assms(1) wf(1), of i "after (after s r1) r2"] route_one [OF assms(1) wf(2), of i "after (after (after s r1) r2) r3"]
  let ?c2 = "code (requests s @ [r1, r2])" and ?c3 = "code (requests s @ [r1, r2, r3])"
    and ?c4 = "code (requests s @ [r1, r2, r3, r4])" and ?s3 = "after (after (after s r1) r2) r3"
  consider (up) "?c2 \<noteq> 0" | (addr) "?c2 = 0" "?c3 \<noteq> 0" | (route) "?c2 = 0" "?c3 = 0" by blast
  then show ?thesis
  proof cases
    case up
    then show ?thesis using steps [folded r]
      by (intro exI [of _ ?c2] exI [of _ "after (after s r1) r2"] exI [of _ 2]) (simp add: configure_link_def)
  next
    case addr
    then show ?thesis using steps [folded r]
      by (intro exI [of _ ?c3] exI [of _ ?s3] exI [of _ 3]) (simp add: configure_link_def)
  next
    case route
    then show ?thesis using steps [folded r]
      by (intro exI [of _ "if ?c4 = EEXIST then 0 else ?c4"] exI [of _ "after ?s3 r4"] exI [of _ 4]) (simp add: configure_link_def)
  qed
qed

lemma route_sequence:
  assumes serves and "wf_cidr b" and r: "r = route_req i b s"
  shows "\<exists>ec. install_route add_route i b s = Some (ec, after s r) \<and>
     (ec = 0 \<longleftrightarrow> code (requests s @ [r]) \<in> {0, EEXIST}) \<and> (ec \<noteq> 0 \<longrightarrow> ec = code (requests s @ [r]))"
  using route_one [OF assms(1,2), of i s, folded r]
  by (intro exI [of _ "if code (requests s @ [r]) = EEXIST then 0 else code (requests s @ [r])"]) (simp add: install_route_def)

end

section \<open>Lemmas\<close>

lemma nl_talk_sent: "nl_talk le kern sent req = Some (ec, sent') \<Longrightarrow> sent' = sent @ [req]"
  by (auto simp: nl_talk_def Let_def split: nl_answer.splits if_splits bind_splits)

lemma talk_reply_code:
  assumes "whole_replies le kern"
  shows "nl_talk le kern sent req = Some (reply_code le kern (sent @ [req]), sent @ [req])"
proof -
  obtain ec sent' where t: "nl_talk le kern sent req = Some (ec, sent')"
    using assms unfolding whole_replies_def by fast
  with nl_talk_sent [OF t] show ?thesis by (simp add: reply_code_def)
qed

text \<open>The state of a client and its requests after one more request, which has the next sequence number.\<close>

lemma on_client_one:
  assumes "whole_replies le kern"
    and "oper (fst s) (snd s) = map_option (\<lambda>(ec, sent'). (ec, bump_seq (fst s), sent')) (nl_talk le kern (snd s) req)"
  shows "on_client oper s = Some (reply_code le kern (snd s @ [req]), (bump_seq (fst s), snd s @ [req]))"
  using talk_reply_code [OF assms(1)] assms(2) by (simp add: on_client_def)

interpretation tun_link: link_client "\<lambda>i m. on_client (nl_set_mtu le kern i m)" "\<lambda>i. on_client (nl_link_up le kern i)"
  "\<lambda>i b. on_client (nl_add_addr le kern i b)" "\<lambda>i b. on_client (nl_add_route le kern i b)"
  "\<lambda>i m s. set_mtu_request le (bump_seq (fst s)) i m" "\<lambda>i s. link_up_request le (bump_seq (fst s)) i"
  "\<lambda>i b s. add_addr_request le (bump_seq (fst s)) i b" "\<lambda>i b s. add_route_request le (bump_seq (fst s)) i b"
  "\<lambda>s r. (bump_seq (fst s), snd s @ [r])" snd "\<lambda>s. nl_fd (fst s)" "reply_code le kern" "whole_replies le kern" for le kern
proof unfold_locales
  show "nl_fd (fst (bump_seq (fst s), snd s @ [r])) = nl_fd (fst s)" for s :: "nl_client \<times> u8 list list" and r
    by (simp add: bump_seq_def)
qed (simp_all add: on_client_one nl_set_mtu_request nl_link_up_request nl_add_addr_request nl_add_route_request)

text \<open>With the socket open and the interface found, the body runs on the fresh client, which is then destroyed.\<close>

lemma with_link_open:
  assumes "se_socket sock = SockOk f" "se_bind sock = CallOk" "se_getname sock = CallOk"
    and "lookup (c_str (tun_dev_name dev)) = Inr idx" "length (tun_dev_name dev) < IFNAMSIZ"
  shows "with_link sock lookup dev body =
    map_option (\<lambda>(ec, s). (ec, snd s, nl_drop (fst s))) (body idx (\<lparr>nl_fd = f, nl_seq = 0, nl_pid = se_pid sock\<rparr>, []))"
  using assms by (simp add: with_link_def nl_open_def nl_init_def nl_if_index_def)

lemma ack_whole: "whole_replies le (\<lambda>_. RecvData (message_bytes le NLMSG_ERROR 0 nl_init (enc32 le err)))"
  using nl_talk_ack [where rest = "[]" and le = le and fl = 0 and c = nl_init and err = err]
  by (simp add: whole_replies_def)

lemma length_ifr_name: "length (ifr_name s) = IFNAMSIZ"
  by (simp add: ifr_name_def Let_def IFNAMSIZ_def)

section \<open>Properties\<close>

text \<open>
  C29: with the socket open and the interface resolved, \<^verbatim>\<open>configure\<close> sends the first two to four of these requests, in this order
  and numbered from 1: the MTU 1280, link up, the address \<open>local\<close>, the route \<open>route\<close>. It stops at the first failure after the MTU; a
  failed MTU request and a route that exists already are not failures, and the code it returns is otherwise that of the last reply. On
  every path the socket is closed exactly once.
\<close>

theorem tun_configure_sequence:
  assumes "whole_replies le kern" and wf: "wf_cidr local" "wf_cidr route"
    and "se_socket sock = SockOk f" "se_bind sock = CallOk" "se_getname sock = CallOk" "0 \<le> f"
    and "lookup (c_str (tun_dev_name dev)) = Inr idx" and "length (tun_dev_name dev) < IFNAMSIZ"
  shows "let rs = configure_requests le f (se_pid sock) idx local route in
     \<exists>ec n. tun_configure le kern sock lookup dev local route = Some (ec, take n rs, [f]) \<and> n \<in> {2, 3, 4} \<and>
       (ec = 0 \<longleftrightarrow> n = 4 \<and> reply_code le kern rs \<in> {0, EEXIST}) \<and>
       (ec \<noteq> 0 \<longrightarrow> ec = reply_code le kern (take n rs)) \<and>
       (2 < n \<longrightarrow> reply_code le kern (take 2 rs) = 0) \<and> (3 < n \<longrightarrow> reply_code le kern (take 3 rs) = 0)"
proof -
  let ?c = "\<lambda>k. \<lparr>nl_fd = f, nl_seq = k, nl_pid = se_pid sock\<rparr>"
  have next_seq: "bump_seq (?c 0) = ?c 1" "bump_seq (?c 1) = ?c 2" "bump_seq (?c 2) = ?c 3" "bump_seq (?c 3) = ?c 4"
    by (simp_all add: bump_seq_def)
  define r1 r2 r3 r4 where r: "r1 = set_mtu_request le (?c 1) idx 1280" "r2 = link_up_request le (?c 2) idx"
    "r3 = add_addr_request le (?c 3) idx local" "r4 = add_route_request le (?c 4) idx route"
  let ?rs = "configure_requests le f (se_pid sock) idx local route"
  have rs: "?rs = [r1, r2, r3, r4]" by (simp add: configure_requests_def r)
  have cut: "take 2 [r1, r2, r3, r4] = [r1, r2]" "take 3 [r1, r2, r3, r4] = [r1, r2, r3]" by simp_all
  from tun_link.configure_sequence [OF assms(1) wf, of r1 "(?c 0, [])" idx r2 r3 r4] obtain ec s' n where
    run: "configure_link (\<lambda>i m. on_client (nl_set_mtu le kern i m)) (\<lambda>i. on_client (nl_link_up le kern i))
       (\<lambda>i b. on_client (nl_add_addr le kern i b)) (\<lambda>i b. on_client (nl_add_route le kern i b)) idx local route (?c 0, []) = Some (ec, s')"
    and sent: "snd s' = take n ?rs" "nl_fd (fst s') = f" and n: "n \<in> {2, 3, 4}"
    and code: "ec = 0 \<longleftrightarrow> n = 4 \<and> reply_code le kern ?rs \<in> {0, EEXIST}" "ec \<noteq> 0 \<longrightarrow> ec = reply_code le kern (take n ?rs)"
      "2 < n \<longrightarrow> reply_code le kern (take 2 ?rs) = 0" "3 < n \<longrightarrow> reply_code le kern (take 3 ?rs) = 0"
    unfolding cut rs fst_conv snd_conv next_seq tun_mtu_def append_Nil r [symmetric] nl_client.simps by blast
  have "nl_drop (fst s') = [f]" using sent(2) assms(7) by (simp add: nl_drop_def)
  then have "tun_configure le kern sock lookup dev local route =
      Some (ec, take n (configure_requests le f (se_pid sock) idx local route), [f])"
    using run sent(1) by (simp add: tun_configure_def with_link_open [where lookup = lookup and idx = idx, OF assms(4-6,8,9)])
  then show ?thesis using n code unfolding Let_def by blast
qed

lemma tun_configure_sequence_witness:
  "\<exists>ec n. tun_configure True (\<lambda>_. RecvData (message_bytes True NLMSG_ERROR 0 nl_init (enc32 True 0)))
      good_socket (\<lambda>_. Inr 3) (tun_init\<lparr>tun_dev_name := ''cfd0''\<rparr>) cidr_init cidr_init =
        Some (ec, take n (configure_requests True 7 4242 3 cidr_init cidr_init), [7]) \<and> n \<in> {2, 3, 4}"
proof -
  have wf: "wf_cidr cidr_init" by (simp add: wf_cidr_def cidr_init_def ip_addr_init_def wf_ip_def)
  have "se_pid good_socket = 4242" by (simp add: good_socket_def)
  then show ?thesis
    using tun_configure_sequence [OF ack_whole [of True 0] wf wf, where sock = good_socket and lookup = "\<lambda>_. Inr 3"
      and dev = "tun_init\<lparr>tun_dev_name := ''cfd0''\<rparr>" and f = 7 and idx = 3]
    unfolding Let_def by (auto simp: IFNAMSIZ_def good_socket_def)
qed

text \<open>
  Installing a further route sends exactly one request and treats a route that exists already as success.
\<close>

theorem tun_add_route_tolerates_existing:
  assumes "whole_replies le kern" and "wf_cidr route"
    and "se_socket sock = SockOk f" "se_bind sock = CallOk" "se_getname sock = CallOk" "0 \<le> f"
    and "lookup (c_str (tun_dev_name dev)) = Inr idx" and "length (tun_dev_name dev) < IFNAMSIZ"
  shows "\<exists>ec r. tun_add_route le kern sock lookup dev route = Some (ec, [r], [f]) \<and>
     (ec = 0 \<longleftrightarrow> reply_code le kern [r] \<in> {0, EEXIST}) \<and> (ec \<noteq> 0 \<longrightarrow> ec = reply_code le kern [r])"
proof -
  obtain ec where "install_route (\<lambda>i b. on_client (nl_add_route le kern i b)) idx route (\<lparr>nl_fd = f, nl_seq = 0, nl_pid = se_pid sock\<rparr>, []) =
      Some (ec, \<lparr>nl_fd = f, nl_seq = 1, nl_pid = se_pid sock\<rparr>, [r])" "ec = 0 \<longleftrightarrow> reply_code le kern [r] \<in> {0, EEXIST}"
      "ec \<noteq> 0 \<longrightarrow> ec = reply_code le kern [r]" if "r = add_route_request le \<lparr>nl_fd = f, nl_seq = 1, nl_pid = se_pid sock\<rparr> idx route" for r
    using tun_link.route_sequence [OF assms(1,2) refl, of idx "(\<lparr>nl_fd = f, nl_seq = 0, nl_pid = se_pid sock\<rparr>, [])"]
    by (auto simp: bump_seq_def)
  then show ?thesis using assms(6) by (simp add: tun_add_route_def with_link_open [where lookup = lookup and idx = idx, OF assms(3-5,7,8)] nl_drop_def)
qed

lemma tun_add_route_tolerates_existing_witness:
  "\<exists>r. tun_add_route True (\<lambda>_. RecvData (message_bytes True NLMSG_ERROR 0 nl_init (enc32 True (-17))))
      good_socket (\<lambda>_. Inr 3) (tun_init\<lparr>tun_dev_name := ''cfd0''\<rparr>) cidr_init = Some (0, [r], [7])"
proof -
  let ?k = "\<lambda>_. RecvData (message_bytes True NLMSG_ERROR 0 nl_init (enc32 True (-17)))"
  have wf: "wf_cidr cidr_init" by (simp add: wf_cidr_def cidr_init_def ip_addr_init_def wf_ip_def)
  have "nl_talk True ?k [] r = Some (17, [r])" for r
    using nl_talk_ack [where rest = "[]" and le = True and fl = 0 and c = nl_init and err = "-17" and kern = ?k and sent = "[]"
      and req = r] by simp
  then have "reply_code True ?k [r] = EEXIST" for r by (simp add: reply_code_def EEXIST_def)
  then show ?thesis
    using tun_add_route_tolerates_existing [OF ack_whole [of True "-17"] wf, where sock = good_socket
      and lookup = "\<lambda>_. Inr 3" and dev = "tun_init\<lparr>tun_dev_name := ''cfd0''\<rparr>" and f = 7 and idx = 3]
    by (auto simp: IFNAMSIZ_def good_socket_def)
qed

text \<open>
  Opening the device asks for a name of at most fifteen characters, the prefix of the requested one, ended by
  a NUL; on every failure the device is unchanged and the descriptor it opened is closed, on success the
  device holds the new descriptor and only the one it held before is closed.
\<close>

theorem tun_open_owns:
  assumes "tun_open sys_open tunsetiff requested dev = (ec, dev', closed)"
  shows "(\<forall>f. sys_open = Inr f \<longrightarrow>
       (case tunsetiff f (IFF_TUN OR IFF_NO_PI) (ifr_name requested) of
          Inl e \<Rightarrow> ec = e \<and> dev' = dev \<and> closed = [f]
        | Inr name \<Rightarrow> ec = 0 \<and> tun_fd dev' = f \<and> tun_dev_name dev' = c_str name \<and>
            closed = (if tun_fd dev \<ge> 0 \<and> tun_fd dev \<noteq> f then [tun_fd dev] else []))) \<and>
     (\<forall>e. sys_open = Inl e \<longrightarrow> ec = e \<and> dev' = dev \<and> closed = []) \<and>
     length (ifr_name requested) = IFNAMSIZ \<and> c_str (ifr_name requested) = c_str (take (IFNAMSIZ - 1) requested)"
proof -
  have "c_str (take n requested @ replicate k (CHR 0x00)) = c_str (take n requested)" if "0 < k" for n k
  proof -
    have "takeWhile P (xs @ ys) = takeWhile P xs" if "takeWhile P ys = []" for P :: "char \<Rightarrow> bool" and xs ys
      using that by (induction xs) auto
    then show ?thesis using that by (cases k) (simp_all add: c_str_def)
  qed
  from this [of "16 - min (length requested) 15" "min (length requested) 15"]
  have "c_str (ifr_name requested) = c_str (take (IFNAMSIZ - 1) requested)"
    by (auto simp: ifr_name_def Let_def IFNAMSIZ_def c_str_def min_def)
  then show ?thesis using assms length_ifr_name
    by (auto simp: tun_open_def split: sum.splits)
qed

lemma tun_open_owns_witness:
  "snd (snd (tun_open (Inr 5) (\<lambda>_ _ _. Inl 16) ''cfd0'' tun_init)) = [5]"
proof -
  obtain ec dev closed where r: "tun_open (Inr 5) (\<lambda>_ _ _. Inl 16) ''cfd0'' tun_init = (ec, dev, closed)"
    by (cases "tun_open (Inr 5) (\<lambda>_ _ _. Inl 16) ''cfd0'' tun_init")
  from tun_open_owns [OF r] r show ?thesis by simp
qed

end
