(* ===== verification/Route_Table.thy ===== *)
theory Route_Table
  imports Cidr
begin

text \<open>
  The contract of a routing table keyed by CIDR blocks, as \<^verbatim>\<open>include/cfd/router.hpp\<close> uses one.

  \<^item> \<open>longest_match\<close> is the longest-prefix rule over a map from bit strings to values, \<open>scan_routes\<close> the
    linear reference over a list of blocks, and \<open>insert_routes\<close> the repeated insertion of a list.
  \<^item> The locale \<open>route_table\<close> states what a table promises: every insertion of a well-formed block
    succeeds and updates one key, every lookup is the longest match. Inside it, the lookup after a list of
    insertions is proved equal to the reference.
\<close>

section \<open>Definitions\<close>

definition longest_len :: "(bool list \<Rightarrow> 'a option) \<Rightarrow> bool list \<Rightarrow> nat option" where
  "longest_len m bs = find (\<lambda>n. m (take n bs) \<noteq> None) (rev [0..<Suc (length bs)])"

definition longest_match :: "(bool list \<Rightarrow> 'a option) \<Rightarrow> bool list \<Rightarrow> 'a option" where
  "longest_match m bs = (case longest_len m bs of None \<Rightarrow> None | Some n \<Rightarrow> m (take n bs))"

definition lookup_bits :: "ip_addr \<Rightarrow> bool list" where
  "lookup_bits a = take (max_bits (ip_family a)) (ip_bits a)"

text \<open>The reference: the matching block with the longest prefix, the latest one among equals.\<close>

definition scan_step :: "ip_addr \<Rightarrow> (nat \<times> 'a) option \<Rightarrow> cidr \<times> 'a \<Rightarrow> (nat \<times> 'a) option" where
  "scan_step a best cv =
     (let n = unat (cidr_prefix_len (fst cv)) in
      if cidr_matches (fst cv) a \<and> (case best of None \<Rightarrow> True | Some (k, _) \<Rightarrow> k \<le> n)
      then Some (n, snd cv) else best)"

definition scan_routes :: "(cidr \<times> 'a) list \<Rightarrow> ip_addr \<Rightarrow> 'a option" where
  "scan_routes rs a = map_option snd (foldl (scan_step a) None rs)"

fun insert_routes :: "(cidr \<Rightarrow> 'v \<Rightarrow> 't \<Rightarrow> 't option) \<Rightarrow> (cidr \<times> 'v) list \<Rightarrow> 't \<Rightarrow> 't option" where
  "insert_routes ins [] t = Some t"
| "insert_routes ins ((c, v) # rs) t =
     (case ins c v t of None \<Rightarrow> None | Some t' \<Rightarrow> insert_routes ins rs t')"

section \<open>Lemmas\<close>

lemma find_rev_upt_Some:
  "find P (rev [0..<Suc n]) = Some k \<longleftrightarrow> k \<le> n \<and> P k \<and> (\<forall>j. k < j \<and> j \<le> n \<longrightarrow> \<not> P j)"
proof (induction n)
  case 0
  then show ?case by auto
next
  case (Suc n)
  show ?case
  proof (cases "P (Suc n)")
    case True
    then show ?thesis by (auto simp: le_Suc_eq)
  next
    case False
    then have "find P (rev [0..<Suc (Suc n)]) = find P (rev [0..<Suc n])" by simp
    then show ?thesis using Suc False by (auto simp: le_Suc_eq)
  qed
qed

lemma longest_len_Some:
  "longest_len m bs = Some n \<longleftrightarrow>
     n \<le> length bs \<and> m (take n bs) \<noteq> None \<and> (\<forall>k. n < k \<and> k \<le> length bs \<longrightarrow> m (take k bs) = None)"
  by (auto simp: longest_len_def find_rev_upt_Some simp del: upt_Suc)

lemma longest_len_None: "longest_len m bs = None \<longleftrightarrow> (\<forall>k \<le> length bs. m (take k bs) = None)"
  by (auto simp: longest_len_def find_None_iff simp del: upt_Suc)

lemma longest_match_Nil [simp]: "longest_match m [] = m []"
  by (simp add: longest_match_def longest_len_def)

lemma longest_match_Cons:
  "longest_match m (b # bs) =
     (case longest_match (\<lambda>ks. m (b # ks)) bs of None \<Rightarrow> m [] | Some v \<Rightarrow> Some v)"
proof (cases "longest_len (\<lambda>ks. m (b # ks)) bs")
  case None
  then have no: "m (take k (b # bs)) = None" if "0 < k" "k \<le> Suc (length bs)" for k
    using that by (cases k) (auto simp: longest_len_None)
  have "longest_match m (b # bs) = m []"
  proof (cases "m []")
    case None
    have "longest_len m (b # bs) = None"
      unfolding longest_len_None using no None by (metis length_Cons not_gr0 take0)
    then show ?thesis using None by (simp add: longest_match_def)
  next
    case (Some v)
    then have "longest_len m (b # bs) = Some 0" using no by (auto simp: longest_len_Some)
    then show ?thesis by (simp add: longest_match_def)
  qed
  with None show ?thesis by (simp add: longest_match_def)
next
  case (Some n)
  then have "longest_len m (b # bs) = Some (Suc n)"
    unfolding longest_len_Some
  proof (intro conjI allI impI)
    fix k assume "Suc n < k \<and> k \<le> length (b # bs)"
    then obtain j where "k = Suc j" "n < j" "j \<le> length bs" by (cases k) auto
    then show "m (take k (b # bs)) = None" using Some by (simp add: longest_len_Some)
  qed simp_all
  moreover obtain v where "m (b # take n bs) = Some v" using Some by (auto simp: longest_len_Some)
  ultimately show ?thesis using Some by (simp add: longest_match_def)
qed

lemma longest_match_empty [simp]: "longest_match (\<lambda>_. None) bs = None"
  by (induction bs) (simp_all add: longest_match_Cons)

lemma longest_len_upd:
  assumes "k \<le> length bs"
  shows "longest_len (m(take k bs \<mapsto> v)) bs =
     Some (case longest_len m bs of None \<Rightarrow> k | Some n \<Rightarrow> max k n)"
proof -
  have eq: "take j bs = take k bs \<longleftrightarrow> j = k" if "j \<le> length bs" for j
    using that assms by (metis length_take min.absorb2)
  show ?thesis
  proof (cases "longest_len m bs")
    case None
    then have no: "\<forall>j\<le>length bs. m (take j bs) = None" by (simp add: longest_len_None)
    have "longest_len (m(take k bs \<mapsto> v)) bs = Some k"
      unfolding longest_len_Some using assms no eq by auto
    then show ?thesis using None by simp
  next
    case (Some n)
    then have n: "n \<le> length bs" "m (take n bs) \<noteq> None" "\<forall>j. n < j \<and> j \<le> length bs \<longrightarrow> m (take j bs) = None"
      by (auto simp: longest_len_Some)
    have "longest_len (m(take k bs \<mapsto> v)) bs = Some (max k n)"
      unfolding longest_len_Some using assms n eq by (auto simp: max_def)
    then show ?thesis using Some by simp
  qed
qed

lemma longest_len_upd_other:
  assumes "\<forall>k \<le> length bs. take k bs \<noteq> p"
  shows "longest_len (m(p \<mapsto> v)) bs = longest_len m bs"
proof (cases "longest_len m bs")
  case None
  then have "longest_len (m(p \<mapsto> v)) bs = None" using assms by (simp add: longest_len_None)
  with None show ?thesis by simp
next
  case (Some n)
  then have "longest_len (m(p \<mapsto> v)) bs = Some n" using assms by (simp add: longest_len_Some)
  with Some show ?thesis by simp
qed

lemma length_lookup_bits [bits_simps]: "wf_ip a \<Longrightarrow> length (lookup_bits a) = max_bits (ip_family a)"
  by (cases "ip_family a") (simp_all add: lookup_bits_def length_ip_bits)

lemma matches_lookup_bits:
  assumes "wf_cidr c" "ip_family a = ip_family (cidr_addr c)"
  shows "cidr_matches c a \<longleftrightarrow> take (unat (cidr_prefix_len c)) (lookup_bits a) = cidr_prefix c"
  using assms by (simp add: cidr_matches_def lookup_bits_def wf_cidr_def min_def)

lemma no_match_no_key:
  assumes "wf_cidr c" "wf_ip a" "ip_family a = ip_family (cidr_addr c)" "\<not> cidr_matches c a"
  shows "\<forall>k \<le> length (lookup_bits a). take k (lookup_bits a) \<noteq> cidr_prefix c"
proof (intro allI impI notI)
  fix k assume k: "k \<le> length (lookup_bits a)" "take k (lookup_bits a) = cidr_prefix c"
  then have "k = unat (cidr_prefix_len c)"
    using length_cidr_prefix [OF assms(1)] by (metis length_take min.absorb2)
  with k(2) assms show False by (simp add: matches_lookup_bits)
qed

subsection \<open>What the scan selects\<close>

lemma scan_fold_spec:
  "case foldl (scan_step a) None rs of
     None \<Rightarrow> \<forall>(c, v) \<in> set rs. \<not> cidr_matches c a
   | Some (n, v) \<Rightarrow> (\<exists>c. (c, v) \<in> set rs \<and> cidr_matches c a \<and> unat (cidr_prefix_len c) = n) \<and>
       (\<forall>(c, w) \<in> set rs. cidr_matches c a \<longrightarrow> unat (cidr_prefix_len c) \<le> n)"
proof (induction rs rule: rev_induct)
  case Nil
  then show ?case by simp
next
  case (snoc cv rs)
  show ?case
  proof (cases "foldl (scan_step a) None rs")
    case None
    obtain d w where cv: "cv = (d, w)" by fastforce
    have "foldl (scan_step a) None (rs @ [cv]) =
        (if cidr_matches d a then Some (unat (cidr_prefix_len d), w) else None)"
      by (simp add: None cv scan_step_def)
    moreover have "\<forall>(c, v) \<in> set rs. \<not> cidr_matches c a" using snoc None by simp
    ultimately show ?thesis by (auto simp: cv simp del: foldl_append)
  next
    case (Some nv)
    obtain n v where nv: "nv = (n, v)" by fastforce
    obtain d w where cv: "cv = (d, w)" by fastforce
    have old: "\<exists>c. (c, v) \<in> set rs \<and> cidr_matches c a \<and> unat (cidr_prefix_len c) = n"
      "\<forall>(c, w) \<in> set rs. cidr_matches c a \<longrightarrow> unat (cidr_prefix_len c) \<le> n"
      using snoc Some nv by simp_all
    show ?thesis
    proof (cases "cidr_matches d a \<and> n \<le> unat (cidr_prefix_len d)")
      case True
      then have "foldl (scan_step a) None (rs @ [cv]) = Some (unat (cidr_prefix_len d), w)"
        by (simp add: Some nv cv scan_step_def)
      then show ?thesis using True old(2) cv by fastforce
    next
      case False
      then have "foldl (scan_step a) None (rs @ [cv]) = Some (n, v)"
        by (auto simp: Some nv cv scan_step_def Let_def)
      then show ?thesis using False old cv by fastforce
    qed
  qed
qed

lemma scan_routes_None: "scan_routes rs a = None \<longleftrightarrow> (\<forall>(c, v) \<in> set rs. \<not> cidr_matches c a)"
  using scan_fold_spec [where a = a and rs = rs]
  by (cases "foldl (scan_step a) None rs") (auto simp: scan_routes_def)

lemma scan_routes_Some:
  "scan_routes rs a = Some v \<Longrightarrow>
     \<exists>c. (c, v) \<in> set rs \<and> cidr_matches c a \<and>
       (\<forall>(d, w) \<in> set rs. cidr_matches d a \<longrightarrow> unat (cidr_prefix_len d) \<le> unat (cidr_prefix_len c))"
  using scan_fold_spec [where a = a and rs = rs]
  by (cases "foldl (scan_step a) None rs") (auto simp: scan_routes_def)

section \<open>The interface\<close>

locale route_table =
  fixes empty :: 't
    and insert :: "cidr \<Rightarrow> 'v \<Rightarrow> 't \<Rightarrow> 't option"
    and lookup :: "'t \<Rightarrow> ip_addr \<Rightarrow> 'v option option"
    and invar :: "'t \<Rightarrow> bool"
    and routes :: "'t \<Rightarrow> family \<Rightarrow> bool list \<Rightarrow> 'v option"
  assumes invar_empty: "invar empty"
    and routes_empty: "routes empty f = (\<lambda>_. None)"
    and insert_ok: "invar t \<Longrightarrow> wf_cidr c \<Longrightarrow>
      \<exists>t'. insert c v t = Some t' \<and> invar t' \<and>
        routes t' = (routes t)(ip_family (cidr_addr c) := (routes t (ip_family (cidr_addr c)))(cidr_prefix c \<mapsto> v))"
    and lookup_ok: "invar t \<Longrightarrow> wf_ip a \<Longrightarrow>
      lookup t a = Some (longest_match (routes t (ip_family a)) (lookup_bits a))"
begin

lemma insert_routes_total:
  assumes "invar t" "\<forall>(c, v) \<in> set rs. wf_cidr c"
  shows "\<exists>t'. insert_routes insert rs t = Some t' \<and> invar t'"
  using assms
proof (induction rs arbitrary: t)
  case Nil
  then show ?case by simp
next
  case (Cons cv rs)
  obtain c v where cv: "cv = (c, v)" by fastforce
  with Cons.prems insert_ok [of t c v] obtain t1 where "insert c v t = Some t1" "invar t1" by auto
  then show ?case using Cons cv by auto
qed

lemma insert_routes_append:
  "insert_routes insert (rs @ qs) t =
     (case insert_routes insert rs t of None \<Rightarrow> None | Some t' \<Rightarrow> insert_routes insert qs t')"
  by (induction rs arbitrary: t) (auto split: option.splits)

text \<open>The scan and the table agree after every prefix of the route list.\<close>

lemma scan_invariant:
  assumes "\<forall>(c, v) \<in> set rs. wf_cidr c" "wf_ip a" "insert_routes insert rs empty = Some t"
  shows "invar t \<and> foldl (scan_step a) None rs =
     map_option (\<lambda>n. (n, the (routes t (ip_family a) (take n (lookup_bits a)))))
       (longest_len (routes t (ip_family a)) (lookup_bits a))"
  using assms(1,3)
proof (induction rs arbitrary: t rule: rev_induct)
  case Nil
  then have "t = empty" by simp
  then show ?case using invar_empty routes_empty by (auto simp: longest_len_None)
next
  case (snoc cv rs)
  obtain c v where cv: "cv = (c, v)" by fastforce
  let ?f = "ip_family a" and ?bs = "lookup_bits a" and ?p = "unat (cidr_prefix_len c)"
  have c: "wf_cidr c" using snoc.prems(1) cv by auto
  obtain s where s: "insert_routes insert rs empty = Some s" "insert c v s = Some t"
    using snoc.prems(2) cv by (auto simp: insert_routes_append split: option.splits)
  have IH: "invar s" "foldl (scan_step a) None rs =
     map_option (\<lambda>n. (n, the (routes s ?f (take n ?bs)))) (longest_len (routes s ?f) ?bs)"
    using snoc.IH [OF _ s(1)] snoc.prems(1) by auto
  have t: "invar t" "routes t = (routes s)(ip_family (cidr_addr c) := (routes s (ip_family (cidr_addr c)))(cidr_prefix c \<mapsto> v))"
    using insert_ok [OF IH(1) c, of v] s(2) by auto
  show ?case
  proof (cases "cidr_matches c a")
    case False
    then have "longest_len (routes t ?f) ?bs = longest_len (routes s ?f) ?bs \<and>
        (\<forall>k \<le> length ?bs. routes t ?f (take k ?bs) = routes s ?f (take k ?bs))"
      using no_match_no_key [OF c assms(2)] by (auto simp: t(2) longest_len_upd_other)
    moreover have "n \<le> length ?bs" if "longest_len (routes s ?f) ?bs = Some n" for n
      using that by (simp add: longest_len_Some)
    moreover have "scan_step a b (c, v) = b" for b using False by (simp add: scan_step_def)
    ultimately show ?thesis using IH t(1)
      by (cases "longest_len (routes s ?f) ?bs") (simp_all add: cv)
  next
    case True
    then have f: "ip_family (cidr_addr c) = ?f" by (simp add: cidr_matches_def)
    have key: "cidr_prefix c = take ?p ?bs" using True matches_lookup_bits [OF c, of a] f by simp
    have p: "?p \<le> length ?bs" using c assms(2) f by (simp add: length_lookup_bits wf_cidr_def)
    have len: "longest_len (routes t ?f) ?bs =
        Some (case longest_len (routes s ?f) ?bs of None \<Rightarrow> ?p | Some n \<Rightarrow> max ?p n)"
      using longest_len_upd [OF p] by (simp add: t(2) f key)
    have at: "routes t ?f (take k ?bs) = (if k = ?p then Some v else routes s ?f (take k ?bs))"
      if "k \<le> length ?bs" for k
      using that p by (auto simp: t(2) f key dest: arg_cong [where f = length])
    have step: "scan_step a b (c, v) =
        (case b of None \<Rightarrow> Some (?p, v) | Some (k, w) \<Rightarrow> if k \<le> ?p then Some (?p, v) else b)" for b
      using True by (auto simp: scan_step_def split: option.splits)
    show ?thesis
    proof (cases "longest_len (routes s ?f) ?bs")
      case None
      then show ?thesis using IH t(1) len p by (simp add: cv step at)
    next
      case (Some n)
      then have "n \<le> length ?bs" by (simp add: longest_len_Some)
      then show ?thesis using Some IH t(1) len p by (simp add: cv step at max_def)
    qed
  qed
qed

lemma lookup_scan:
  assumes "\<forall>(c, v) \<in> set rs. wf_cidr c" "wf_ip a" "insert_routes insert rs empty = Some t"
  shows "lookup t a = Some (scan_routes rs a)"
proof (cases "longest_len (routes t (ip_family a)) (lookup_bits a)")
  case None
  then show ?thesis
    using scan_invariant [OF assms] lookup_ok [OF _ assms(2), of t]
    by (simp add: scan_routes_def longest_match_def)
next
  case (Some n)
  moreover from Some obtain v where "routes t (ip_family a) (take n (lookup_bits a)) = Some v"
    by (auto simp: longest_len_Some)
  ultimately show ?thesis
    using scan_invariant [OF assms] lookup_ok [OF _ assms(2), of t]
    by (simp add: scan_routes_def longest_match_def)
qed

end

end
