(* ===== verification/Lpm_Trie.thy ===== *)
theory Lpm_Trie
  imports Route_Table
begin

text \<open>
  The longest-prefix-match trie of \<^verbatim>\<open>include/cfd/lpm_trie.hpp\<close>.

  \<^item> \<open>node\<close> is \<^verbatim>\<open>struct Node\<close> with its null pointer; \<open>lpm_trie\<close> holds the two roots. The parameter \<open>dflt\<close>
    is \<^verbatim>\<open>T{}\<close>, the value of a freshly allocated node.
  \<^item> \<open>bit_of\<close>, \<open>lpm_insert\<close>, \<open>lpm_lookup\<close> and \<open>lpm_destroy\<close> are the operations, their loops
    \<open>insert_walk\<close>, \<open>lookup_walk\<close> and \<open>destroy_node\<close>; \<open>None\<close> stands for a read of an address byte out of range.
  \<^item> \<open>node_map\<close> is the abstraction: the finite map from bit strings to values a tree represents;
    \<open>trie_wf\<close> is the invariant. The locale \<open>route_table\<close> is interpreted on these operations.
\<close>

section \<open>Definitions\<close>

datatype 'a node = Null | Node (left: "'a node") (right: "'a node") (node_value: 'a) (has_value: bool)

record 'a lpm_trie =
  root_v4 :: "'a node"
  root_v6 :: "'a node"

definition lpm_empty :: "'a lpm_trie" where
  "lpm_empty = \<lparr>root_v4 = Null, root_v6 = Null\<rparr>"

definition new_node :: "'a \<Rightarrow> 'a node" where
  "new_node dflt = Node Null Null dflt False"

definition bit_of :: "ip_addr \<Rightarrow> nat \<Rightarrow> bool option" where
  "bit_of a i =
     (case arr_get (ip_bytes a) (i div 8) of
        None \<Rightarrow> None
      | Some b \<Rightarrow> Some (drop_bit (7 - i mod 8) b AND 1 \<noteq> 0))"

definition root_for :: "'a lpm_trie \<Rightarrow> family \<Rightarrow> 'a node" where
  "root_for t f = (if f = V4 then root_v4 t else root_v6 t)"

definition set_root :: "'a lpm_trie \<Rightarrow> family \<Rightarrow> 'a node \<Rightarrow> 'a lpm_trie" where
  "set_root t f n = (if f = V4 then t\<lparr>root_v4 := n\<rparr> else t\<lparr>root_v6 := n\<rparr>)"

text \<open>
  The descent of \<^verbatim>\<open>insert\<close> through the pointer \<^verbatim>\<open>Node** cur\<close>: the subtree \<^verbatim>\<open>*cur\<close> is rebuilt with the
  value stored. \<open>i\<close> is the loop's bit, \<open>k\<close> the number of bits still to walk.
\<close>

definition ensure_node :: "'a \<Rightarrow> 'a node \<Rightarrow> 'a node" where
  "ensure_node dflt t = (if t = Null then new_node dflt else t)"

fun insert_walk :: "'a \<Rightarrow> ip_addr \<Rightarrow> nat \<Rightarrow> nat \<Rightarrow> 'a \<Rightarrow> 'a node \<Rightarrow> 'a node option" where
  "insert_walk dflt a i 0 v t =
     (let t' = ensure_node dflt t in Some (Node (left t') (right t') v True))"
| "insert_walk dflt a i (Suc k) v t =
     (let t' = ensure_node dflt t in
      case bit_of a i of
        None \<Rightarrow> None
      | Some True \<Rightarrow>
          map_option (\<lambda>r. Node (left t') r (node_value t') (has_value t'))
            (insert_walk dflt a (Suc i) k v (right t'))
      | Some False \<Rightarrow>
          map_option (\<lambda>l. Node l (right t') (node_value t') (has_value t'))
            (insert_walk dflt a (Suc i) k v (left t')))"

definition lpm_insert :: "'a \<Rightarrow> cidr \<Rightarrow> 'a \<Rightarrow> 'a lpm_trie \<Rightarrow> 'a lpm_trie option" where
  "lpm_insert dflt c v t =
     (let f = ip_family (cidr_addr c) in
      map_option (set_root t f)
        (insert_walk dflt (cidr_addr c) 0 (unat (cidr_prefix_len c)) v (root_for t f)))"

fun lookup_walk :: "ip_addr \<Rightarrow> nat \<Rightarrow> nat \<Rightarrow> 'a option \<Rightarrow> 'a node \<Rightarrow> 'a option option" where
  "lookup_walk a mx i best Null = Some best"
| "lookup_walk a mx i best (Node l r v h) =
     (if \<not> i \<le> mx then Some best
      else let best' = (if h then Some v else best) in
        if i = mx then Some best'
        else case bit_of a i of
               None \<Rightarrow> None
             | Some b \<Rightarrow> lookup_walk a mx (Suc i) best' (if b then r else l))"

definition lpm_lookup :: "'a lpm_trie \<Rightarrow> ip_addr \<Rightarrow> 'a option option" where
  "lpm_lookup t a =
     lookup_walk a (if ip_family a = V4 then 32 else 128) 0 None
       (if ip_family a = V4 then root_v4 t else root_v6 t)"

text \<open>\<^verbatim>\<open>destroy\<close> with the number of nodes it deletes, and the destructor over both roots.\<close>

fun destroy_node :: "'a node \<Rightarrow> 'a node \<times> nat" where
  "destroy_node Null = (Null, 0)"
| "destroy_node (Node l r v h) = (Null, snd (destroy_node l) + snd (destroy_node r) + 1)"

definition lpm_destroy :: "'a lpm_trie \<Rightarrow> 'a lpm_trie \<times> nat" where
  "lpm_destroy t =
     (let (r4, n4) = destroy_node (root_v4 t); (r6, n6) = destroy_node (root_v6 t)
      in (\<lparr>root_v4 = r4, root_v6 = r6\<rparr>, n4 + n6))"

subsection \<open>Specification\<close>

fun node_map :: "'a node \<Rightarrow> bool list \<Rightarrow> 'a option" where
  "node_map Null bs = None"
| "node_map (Node l r v h) [] = (if h then Some v else None)"
| "node_map (Node l r v h) (b # bs) = node_map (if b then r else l) bs"

definition trie_routes :: "'a lpm_trie \<Rightarrow> family \<Rightarrow> bool list \<Rightarrow> 'a option" where
  "trie_routes t f = node_map (root_for t f)"

text \<open>
  The shape of a trie: no path is longer than the family's bits, and a node without children
  holds a value (so the trie has no dead branches).
\<close>

fun node_fits :: "nat \<Rightarrow> 'a node \<Rightarrow> bool" where
  "node_fits d Null = True"
| "node_fits 0 (Node l r v h) = (l = Null \<and> r = Null \<and> h)"
| "node_fits (Suc d) (Node l r v h) =
     (node_fits d l \<and> node_fits d r \<and> (l = Null \<and> r = Null \<longrightarrow> h))"

definition trie_wf :: "'a lpm_trie \<Rightarrow> bool" where
  "trie_wf t \<longleftrightarrow> node_fits 32 (root_v4 t) \<and> node_fits 128 (root_v6 t)"

fun node_count :: "'a node \<Rightarrow> nat" where
  "node_count Null = 0"
| "node_count (Node l r v h) = Suc (node_count l + node_count r)"

text \<open>Blocks and an address for the witnesses: 10.0.0.0/8, 10.99.0.0/12 and 10.99.5.7.\<close>

definition block_8 :: cidr where
  "block_8 = \<lparr>cidr_addr = \<lparr>ip_family = V4, ip_bytes = [10, 0] @ replicate 14 0\<rparr>, cidr_prefix_len = 8\<rparr>"

definition block_12 :: cidr where
  "block_12 = \<lparr>cidr_addr = \<lparr>ip_family = V4, ip_bytes = [10, 99] @ replicate 14 0\<rparr>, cidr_prefix_len = 12\<rparr>"

definition host_10_99 :: ip_addr where
  "host_10_99 = \<lparr>ip_family = V4, ip_bytes = [10, 99, 5, 7] @ replicate 12 0\<rparr>"

section \<open>Lemmas\<close>

subsection \<open>Address bits\<close>

lemma bit_of_nth [bits_simps]:
  assumes "wf_ip a" "i < 128"
  shows "bit_of a i = Some (ip_bits a ! i)"
proof -
  have "bit (ip_bytes a ! (i div 8)) (7 - i mod 8) \<longleftrightarrow>
      drop_bit (7 - i mod 8) (ip_bytes a ! (i div 8)) AND 1 \<noteq> 0"
    by (simp add: bit_iff_odd_drop_bit and_one_eq mod_2_eq_odd)
  then show ?thesis
    using assms by (simp add: bit_of_def wf_ip_def arr_get_in ip_bits_def nth_bytes_bits less_mult_imp_div_less)
qed

subsection \<open>Insertion updates the map at one key\<close>

lemma node_map_leaf: "node_map (Node Null Null v h) bs = (if bs = [] \<and> h then Some v else None)"
  by (cases bs) auto

lemma insert_walk_map:
  assumes "wf_ip a" "i + k \<le> 128"
  shows "\<exists>t'. insert_walk dflt a i k v t = Some t' \<and>
     node_map t' = (node_map t)(take k (drop i (ip_bits a)) \<mapsto> v)"
  using assms(2)
proof (induction k arbitrary: i t)
  case 0
  have "node_map (Node (left (ensure_node dflt t)) (right (ensure_node dflt t)) v True) bs
     = (if bs = [] then Some v else node_map t bs)" for bs
    by (cases t; cases bs) (auto simp: ensure_node_def new_node_def)
  then show ?case by (auto simp: Let_def)
next
  case (Suc k)
  let ?t = "ensure_node dflt t" and ?bs = "take k (drop (Suc i) (ip_bits a))"
  obtain l r x h where n: "?t = Node l r x h"
    by (cases t) (auto simp: ensure_node_def new_node_def)
  have tm: "node_map t = node_map ?t"
    by (cases t) (auto simp: ensure_node_def new_node_def node_map_leaf)
  have i: "i < 128" using Suc.prems by simp
  then have key: "take (Suc k) (drop i (ip_bits a)) = ip_bits a ! i # ?bs"
    using length_ip_bits [OF assms(1)] by (simp add: Cons_nth_drop_Suc [symmetric])
  have step: "Suc i + k \<le> 128" using Suc.prems by simp
  have upd: "node_map (if b then Node l t1 x h else Node t1 r x h) = (node_map ?t)(b # ?bs \<mapsto> v)"
    if "node_map t1 = (node_map (if b then r else l))(?bs \<mapsto> v)" for t1 b
  proof
    fix ks show "node_map (if b then Node l t1 x h else Node t1 r x h) ks = ((node_map ?t)(b # ?bs \<mapsto> v)) ks"
      using that by (cases ks) (auto simp: n)
  qed
  obtain t1 where t1: "insert_walk dflt a (Suc i) k v (if ip_bits a ! i then r else l) = Some t1"
     "node_map t1 = (node_map (if ip_bits a ! i then r else l))(?bs \<mapsto> v)"
    using Suc.IH [OF step] by blast
  show ?case
    using t1(1) upd [OF t1(2)] by (cases "ip_bits a ! i") (simp_all add: bit_of_nth [OF assms(1) i] Let_def n key tm fun_upd_def)
qed

lemma insert_walk_fits:
  assumes "insert_walk dflt a i k v t = Some t'" "node_fits d t" "k \<le> d"
  shows "node_fits d t' \<and> t' \<noteq> Null"
  using assms
proof (induction k arbitrary: i t t' d)
  case 0
  then show ?case by (cases t; cases d) (auto simp: ensure_node_def new_node_def Let_def)
next
  case (Suc k)
  then obtain e where d: "d = Suc e" by (cases d) auto
  obtain l r x h where n: "ensure_node dflt t = Node l r x h"
    by (cases t) (auto simp: ensure_node_def new_node_def)
  have lr: "node_fits e l" "node_fits e r"
    using Suc.prems(2) n by (cases t; auto simp: d ensure_node_def new_node_def)+
  show ?case
    using Suc.prems(1,3) Suc.IH [of "Suc i" _ _ e] lr
    by (auto simp: n d Let_def split: option.splits bool.splits)
qed

subsection \<open>The lookup finds the longest key that is a prefix\<close>

lemma lookup_walk_longest:
  assumes "wf_ip a" "i + k = mx" "mx \<le> 128"
  shows "lookup_walk a mx i best t =
    Some (case longest_match (node_map t) (take k (drop i (ip_bits a))) of None \<Rightarrow> best | Some v \<Rightarrow> Some v)"
  using assms(2)
proof (induction t arbitrary: i k best)
  case Null
  have "node_map Null = (\<lambda>_. None)" by auto
  then show ?case by simp
next
  case (Node l r v h)
  show ?case
  proof (cases k)
    case 0
    then show ?thesis using Node.prems by auto
  next
    case (Suc k')
    then have i: "i < 128" using Node.prems assms(3) by simp
    then have key: "take (Suc k') (drop i (ip_bits a)) = ip_bits a ! i # take k' (drop (Suc i) (ip_bits a))"
      using length_ip_bits [OF assms(1)] by (simp add: Cons_nth_drop_Suc [symmetric])
    have sub: "(\<lambda>ks. node_map (Node l r v h) (b # ks)) = node_map (if b then r else l)" for b
      by auto
    have "Suc i + k' = mx" using Node.prems Suc by simp
    with Node.IH(1) [of "Suc i" k'] Node.IH(2) [of "Suc i" k']
    show ?thesis using Node.prems Suc
      by (simp add: bit_of_nth [OF assms(1) i] key longest_match_Cons sub Let_def split: option.splits)
  qed
qed


subsection \<open>The trie is a route table\<close>

lemma root_for_set_root [simp]:
  "root_for (set_root t f n) g = (if g = f then n else root_for t g)"
  by (cases f; cases g) (auto simp: root_for_def set_root_def)

lemma trie_wf_root: "trie_wf t \<longleftrightarrow> (\<forall>f. node_fits (max_bits f) (root_for t f))"
proof -
  have "(\<forall>f. P f) \<longleftrightarrow> P V4 \<and> P V6" for P
    by (metis family.exhaust)
  then show ?thesis by (simp add: trie_wf_def root_for_def)
qed

lemma lpm_insert_ok:
  assumes t: "trie_wf t" and c: "wf_cidr c"
  shows "\<exists>t'. lpm_insert dflt c v t = Some t' \<and> trie_wf t' \<and>
     trie_routes t' = (trie_routes t)(ip_family (cidr_addr c) :=
       (trie_routes t (ip_family (cidr_addr c)))(cidr_prefix c \<mapsto> v))"
proof -
  let ?a = "cidr_addr c" and ?p = "unat (cidr_prefix_len c)" and ?f = "ip_family (cidr_addr c)"
  have a: "wf_ip ?a" and p: "0 + ?p \<le> 128" "?p \<le> max_bits ?f"
    using c wf_cidr_plen_le [OF c] by (auto simp: wf_cidr_def)
  obtain n where n: "insert_walk dflt ?a 0 ?p v (root_for t ?f) = Some n"
     "node_map n = (node_map (root_for t ?f))(cidr_prefix c \<mapsto> v)"
    using insert_walk_map [OF a p(1), of dflt v "root_for t ?f"] by (auto simp: cidr_prefix_def)
  have "node_fits (max_bits ?f) n"
    using insert_walk_fits [OF n(1) _ p(2)] t by (simp add: trie_wf_root)
  then have "trie_wf (set_root t ?f n)" using t by (simp add: trie_wf_root)
  then show ?thesis using n by (auto simp: lpm_insert_def Let_def trie_routes_def)
qed

lemma lpm_lookup_ok:
  assumes "wf_ip a"
  shows "lpm_lookup t a = Some (longest_match (trie_routes t (ip_family a)) (lookup_bits a))"
proof -
  have mx: "max_bits (ip_family a) = (if ip_family a = V4 then 32 else 128)"
    by (cases "ip_family a") auto
  show ?thesis
    using lookup_walk_longest [OF assms, of 0 "max_bits (ip_family a)" "max_bits (ip_family a)" None "root_for t (ip_family a)"]
    by (simp add: lpm_lookup_def lookup_bits_def trie_routes_def root_for_def mx split: option.splits)
qed

interpretation lpm: route_table lpm_empty "lpm_insert dflt" lpm_lookup trie_wf trie_routes for dflt
proof unfold_locales
  show "trie_wf lpm_empty" by (simp add: trie_wf_def lpm_empty_def)
  show "trie_routes lpm_empty f = (\<lambda>_. None)" for f
    by (auto simp: trie_routes_def lpm_empty_def root_for_def)
qed (rule lpm_insert_ok lpm_lookup_ok; assumption)+

subsection \<open>Nodes\<close>

lemma destroy_node_counts: "destroy_node n = (Null, node_count n)"
  by (induction n) auto

lemma insert_walk_count:
  "insert_walk dflt a i k v t = Some t' \<Longrightarrow> node_count t \<le> node_count t' \<and> node_count t' \<le> node_count t + Suc k"
proof (induction k arbitrary: i t t')
  case 0
  then show ?case by (cases t) (auto simp: Let_def ensure_node_def new_node_def)
next
  case (Suc k)
  obtain l r x h where n: "ensure_node dflt t = Node l r x h"
    by (cases t) (auto simp: ensure_node_def new_node_def)
  have "node_count t \<le> Suc (node_count l + node_count r) \<and> Suc (node_count l + node_count r) \<le> Suc (node_count t)
     \<and> (t = Null \<longrightarrow> l = Null \<and> r = Null)"
    using n by (cases t) (auto simp: ensure_node_def new_node_def)
  moreover obtain s b where "insert_walk dflt a (Suc i) k v (if b then r else l) = Some s"
     "t' = (if b then Node l s x h else Node s r x h)"
    using Suc.prems by (auto simp: n Let_def split: option.splits bool.splits) metis+
  ultimately show ?case using Suc.IH [of "Suc i" "if b then r else l" s]
    by (cases "t = Null"; cases b) auto
qed

lemma insert_routes_trie:
  assumes "\<forall>(c, v) \<in> set rs. wf_cidr c"
  obtains t where "insert_routes (lpm_insert dflt) rs lpm_empty = Some t" "trie_wf t"
  using lpm.insert_routes_total [OF lpm.invar_empty assms] by blast

section \<open>Properties\<close>

text \<open>C3: After inserting any list of well-formed blocks into an empty trie, \<^verbatim>\<open>lookup\<close> returns for every
  address exactly what a linear scan of the list with \<^verbatim>\<open>Cidr::contains\<close> semantics selects: the value of the
  matching block with the longest prefix, the last inserted among blocks with the same prefix. No read of
  the address leaves its sixteen bytes.\<close>

theorem lpm_lookup_reference:
  assumes "\<forall>(c, v) \<in> set rs. wf_cidr c" and "wf_ip a"
  shows "\<exists>t. insert_routes (lpm_insert dflt) rs lpm_empty = Some t \<and> lpm_lookup t a = Some (scan_routes rs a)"
proof -
  obtain t where t: "insert_routes (lpm_insert dflt) rs lpm_empty = Some t"
    using insert_routes_trie [OF assms(1)] by blast
  with lpm.lookup_scan [OF assms t] show ?thesis by blast
qed

lemma example_wf: "wf_cidr block_8" "wf_cidr block_12" "wf_ip host_10_99"
  by (simp_all add: block_8_def block_12_def host_10_99_def wf_cidr_def wf_ip_def)

theorem lpm_lookup_reference_witness:
  "\<exists>t. insert_routes (lpm_insert (0::nat)) [(block_12, 2), (block_8, 1)] lpm_empty = Some t \<and>
     lpm_lookup t host_10_99 = Some (scan_routes [(block_12, 2), (block_8, 1)] host_10_99)"
  by (rule lpm_lookup_reference) (simp_all add: example_wf)

text \<open>One insertion of a well-formed block always succeeds, keeps the trie's shape (no path longer than
  the family's bits, no childless node without a value), and changes the represented map at exactly one key:
  the block's family and prefix bits.\<close>

theorem lpm_insert_updates_one_key:
  assumes "trie_wf t" and "wf_cidr c"
  shows "\<exists>t'. lpm_insert dflt c v t = Some t' \<and> trie_wf t' \<and>
     (\<forall>f p. trie_routes t' f p =
        (if f = ip_family (cidr_addr c) \<and> p = cidr_prefix c then Some v else trie_routes t f p))"
proof -
  obtain t' where "lpm_insert dflt c v t = Some t'" "trie_wf t'"
    "trie_routes t' = (trie_routes t)(ip_family (cidr_addr c) := (trie_routes t (ip_family (cidr_addr c)))(cidr_prefix c \<mapsto> v))"
    using lpm_insert_ok [OF assms] by blast
  then show ?thesis by (intro exI [of _ t']) auto
qed

theorem lpm_insert_updates_one_key_witness:
  "\<exists>t'. lpm_insert (0::nat) block_12 7 lpm_empty = Some t' \<and> trie_wf t' \<and>
     (\<forall>f p. trie_routes t' f p =
        (if f = ip_family (cidr_addr block_12) \<and> p = cidr_prefix block_12 then Some 7 else trie_routes lpm_empty f p))"
  by (rule lpm_insert_updates_one_key) (simp_all add: example_wf lpm.invar_empty)

text \<open>A lookup after inserting a list of blocks misses exactly when \<^verbatim>\<open>Cidr::contains\<close> is false for every
  block of the list; when it returns a value, that value was inserted with a block that contains the address
  and no containing block of the list has a longer prefix.\<close>

theorem lpm_lookup_contains:
  assumes rs: "\<forall>(c, v) \<in> set rs. wf_cidr c" and a: "wf_ip a"
    and t: "insert_routes (lpm_insert dflt) rs lpm_empty = Some t"
  shows "(lpm_lookup t a = Some None \<longleftrightarrow> (\<forall>(c, v) \<in> set rs. cidr_contains c a = Some False)) \<and>
    (\<forall>v. lpm_lookup t a = Some (Some v) \<longrightarrow>
      (\<exists>c. (c, v) \<in> set rs \<and> cidr_contains c a = Some True \<and>
        (\<forall>(d, w) \<in> set rs. cidr_contains d a = Some True \<longrightarrow> unat (cidr_prefix_len d) \<le> unat (cidr_prefix_len c))))"
proof -
  have cont: "cidr_contains c a = Some (cidr_matches c a)" if "(c, v) \<in> set rs" for c v
    using rs a that by (intro cidr_contains_matches) auto
  have lk: "lpm_lookup t a = Some (scan_routes rs a)" using lpm.lookup_scan [OF rs a t] .
  have "lpm_lookup t a = Some None \<longleftrightarrow> (\<forall>(c, v) \<in> set rs. cidr_contains c a = Some False)"
    using cont by (auto simp: lk scan_routes_None)
  moreover have "\<exists>c. (c, v) \<in> set rs \<and> cidr_contains c a = Some True \<and>
        (\<forall>(d, w) \<in> set rs. cidr_contains d a = Some True \<longrightarrow> unat (cidr_prefix_len d) \<le> unat (cidr_prefix_len c))"
    if v: "lpm_lookup t a = Some (Some v)" for v
  proof -
    obtain c where c: "(c, v) \<in> set rs" "cidr_matches c a"
      and longest: "\<forall>(d, w) \<in> set rs. cidr_matches d a \<longrightarrow> unat (cidr_prefix_len d) \<le> unat (cidr_prefix_len c)"
      using scan_routes_Some [of rs a v] v by (auto simp: lk)
    have "\<forall>(d, w) \<in> set rs. cidr_contains d a = Some True \<longrightarrow> unat (cidr_prefix_len d) \<le> unat (cidr_prefix_len c)"
      using longest cont by auto
    with c cont [OF c(1)] show ?thesis by auto
  qed
  ultimately show ?thesis by blast
qed

theorem lpm_lookup_contains_witness:
  "\<exists>t. insert_routes (lpm_insert (0::nat)) [(block_12, 2), (block_8, 1)] lpm_empty = Some t \<and>
     lpm_lookup t host_10_99 = Some (Some 2) \<and> cidr_contains block_12 host_10_99 = Some True"
proof -
  let ?rs = "[(block_12, 2), (block_8, 1 :: nat)]"
  have wf: "\<forall>(c, v) \<in> set ?rs. wf_cidr c" by (simp add: example_wf)
  obtain t where t: "insert_routes (lpm_insert 0) ?rs lpm_empty = Some t"
    using insert_routes_trie [OF wf] by blast
  have "scan_routes ?rs host_10_99 = Some 2" by code_simp
  then have v: "lpm_lookup t host_10_99 = Some (Some 2)"
    using lpm.lookup_scan [OF wf example_wf(3) t] by simp
  with lpm_lookup_contains [OF wf example_wf(3) t] obtain c where
    "(c, 2) \<in> set ?rs" "cidr_contains c host_10_99 = Some True" by blast
  with t v show ?thesis by auto
qed

text \<open>The destructor clears both roots and deletes exactly the nodes of the two trees; inserting a block
  allocates at most one node per prefix bit plus one, and never loses one.\<close>

theorem lpm_node_balance:
  "lpm_destroy t = (lpm_empty, node_count (root_v4 t) + node_count (root_v6 t)) \<and>
   (\<forall>t'. lpm_insert dflt c v t = Some t' \<longrightarrow>
      snd (lpm_destroy t) \<le> snd (lpm_destroy t') \<and>
      snd (lpm_destroy t') \<le> snd (lpm_destroy t) + Suc (unat (cidr_prefix_len c)))"
proof -
  have d: "lpm_destroy s = (lpm_empty, node_count (root_v4 s) + node_count (root_v6 s))" for s :: "'a lpm_trie"
    by (simp add: lpm_destroy_def destroy_node_counts lpm_empty_def)
  have "snd (lpm_destroy t) \<le> snd (lpm_destroy t') \<and>
      snd (lpm_destroy t') \<le> snd (lpm_destroy t) + Suc (unat (cidr_prefix_len c))"
    if ins: "lpm_insert dflt c v t = Some t'" for t'
  proof -
    let ?f = "ip_family (cidr_addr c)"
    obtain n where n: "insert_walk dflt (cidr_addr c) 0 (unat (cidr_prefix_len c)) v (root_for t ?f) = Some n"
      and t': "t' = set_root t ?f n"
      using ins by (auto simp: lpm_insert_def Let_def)
    from insert_walk_count [OF n] show ?thesis
      by (cases ?f) (simp_all add: d t' set_root_def root_for_def)
  qed
  with d show ?thesis by blast
qed

theorem lpm_node_balance_witness:
  "lpm_destroy (lpm_empty :: nat lpm_trie) = (lpm_empty, 0) \<and>
   (\<forall>t'. lpm_insert (0::nat) block_12 7 lpm_empty = Some t' \<longrightarrow> snd (lpm_destroy t') \<le> 13)"
  using lpm_node_balance [of "lpm_empty :: nat lpm_trie" 0 block_12 7]
  by (force simp: lpm_empty_def block_12_def)

end
