(* ===== verification/Router.thy ===== *)
theory Router
  imports Lpm_Trie
begin

text \<open>
  The router: \<^verbatim>\<open>include/cfd/router.hpp\<close> and \<^verbatim>\<open>src/router/router.cpp\<close>.

  \<^item> \<open>dst_from_packet\<close> reads the destination out of a packet in the reader's buffer; a read outside the
    buffer has no value. \<open>router_iter\<close> is one pass of the reader loop given the answers of \<^verbatim>\<open>poll\<close> and of
    the TUN read, \<open>reader_loop\<close> the loop over a sequence of answers, each with the value of \<^verbatim>\<open>running_\<close> the
    pass observed. The packets handed to the sink are returned as a list.
  \<^item> \<open>router_step\<close> interleaves the control thread (\<^verbatim>\<open>start\<close>, \<^verbatim>\<open>stop\<close>) with the reader thread, one atomic
    action at a time, over the flag, the wake pipe and the reader's program counter.
\<close>

section \<open>Definitions\<close>

datatype action = Drop | ToTunnel | ToTun

definition kPacketMtu :: nat where
  "kPacketMtu = 1500"

definition action_code :: "action \<Rightarrow> u8" where
  "action_code a = (case a of Drop \<Rightarrow> 0 | ToTunnel \<Rightarrow> 1 | ToTun \<Rightarrow> 2)"

subsection \<open>Destination of a packet\<close>

definition dst_from_packet :: "u8 list \<Rightarrow> nat \<Rightarrow> ip_addr \<Rightarrow> (bool \<times> ip_addr) option" where
  "dst_from_packet p len out =
     (if len < 1 then Some (False, out)
      else case arr_get p 0 of
        None \<Rightarrow> None
      | Some b0 \<Rightarrow>
         (let version = drop_bit 4 b0 in
          if version = 4 then
            if len < 20 then Some (False, out)
            else map_option (\<lambda>src. (True, out\<lparr>ip_family := V4,
                    ip_bytes := store_front src (replicate (length (ip_bytes out)) 0)\<rparr>)) (sub_bytes p 16 4)
          else if version = 6 then
            if len < 40 then Some (False, out)
            else map_option (\<lambda>src. (True, out\<lparr>ip_family := V6, ip_bytes := store_front src (ip_bytes out)\<rparr>))
                   (sub_bytes p 24 16)
          else Some (False, out)))"

subsection \<open>The reader loop\<close>

text \<open>
  \<open>PollFail e\<close> is a negative result with \<^verbatim>\<open>errno\<close> \<open>e\<close>; \<open>PollReady w\<close> a positive one, \<open>w\<close> saying whether the
  wake pipe has \<^verbatim>\<open>POLLIN\<close>. \<open>ReadData bs\<close> is a read that stored \<open>bs\<close> (the empty list is end of file).
\<close>

datatype poll_result = PollFail int | PollTimeout | PollReady bool
datatype read_result = ReadFail int | ReadData "u8 list"

definition EINTR :: int where "EINTR = 4"
definition EAGAIN :: int where "EAGAIN = 11"

datatype loop_next = Continue | Break

text \<open>One pass of the loop body: whether the loop goes on, the buffer, and what the sink was given.\<close>

definition router_iter ::
  "action lpm_trie \<Rightarrow> bool \<Rightarrow> u8 list \<Rightarrow> poll_result \<Rightarrow> read_result \<Rightarrow> (loop_next \<times> u8 list \<times> u8 list list) option" where
  "router_iter routes has_sink buf pr rr =
     (case pr of
        PollFail e \<Rightarrow> Some (if e = EINTR then Continue else Break, buf, [])
      | PollTimeout \<Rightarrow> Some (Continue, buf, [])
      | PollReady wake \<Rightarrow>
         if wake then Some (Break, buf, [])
         else case rr of
           ReadFail e \<Rightarrow> Some (if e = EINTR \<or> e = EAGAIN then Continue else Break, buf, [])
         | ReadData bs \<Rightarrow>
             if bs = [] then Some (Break, buf, [])
             else case mem_write 0 bs buf of
               None \<Rightarrow> None
             | Some buf' \<Rightarrow>
                (case dst_from_packet buf' (length bs) ip_addr_init of
                   None \<Rightarrow> None
                 | Some (ok, dst) \<Rightarrow>
                     if \<not> ok then Some (Continue, buf', [])
                     else case lpm_lookup routes dst of
                       None \<Rightarrow> None
                     | Some act \<Rightarrow>
                         (case act of
                            None \<Rightarrow> Some (Continue, buf', [])
                          | Some a \<Rightarrow>
                              if a = Drop then Some (Continue, buf', [])
                              else if a = ToTunnel \<and> has_sink
                                then Some (Continue, buf', [take (length bs) buf'])
                              else Some (Continue, buf', []))))"

text \<open>\<open>LoopIn\<close> is a loop still running when the observed answers end, \<open>LoopOut\<close> one that returned.\<close>

datatype loop_state = LoopIn | LoopOut

fun reader_passes ::
  "action lpm_trie \<Rightarrow> bool \<Rightarrow> u8 list \<Rightarrow> (bool \<times> poll_result \<times> read_result) list \<Rightarrow> (loop_state \<times> u8 list list) option" where
  "reader_passes routes has_sink buf [] = Some (LoopIn, [])"
| "reader_passes routes has_sink buf ((running, pr, rr) # evs) =
     (if \<not> running then Some (LoopOut, [])
      else case router_iter routes has_sink buf pr rr of
        None \<Rightarrow> None
      | Some (Break, buf', out) \<Rightarrow> Some (LoopOut, out)
      | Some (Continue, buf', out) \<Rightarrow>
          map_option (\<lambda>(st, out'). (st, out @ out')) (reader_passes routes has_sink buf' evs))"

definition tun_reader_loop ::
  "action lpm_trie \<Rightarrow> bool \<Rightarrow> (bool \<times> poll_result \<times> read_result) list \<Rightarrow> (loop_state \<times> u8 list list) option" where
  "tun_reader_loop routes has_sink evs = reader_passes routes has_sink (replicate kPacketMtu 0) evs"

text \<open>\<open>inject_from_tunnel\<close>: the packets written to the TUN device, if there is one.\<close>

definition inject_from_tunnel :: "bool \<Rightarrow> u8 list \<Rightarrow> u8 list list \<Rightarrow> u8 list list" where
  "inject_from_tunnel has_tun p written = (if \<not> has_tun then written else written @ [p])"

definition router_add_route :: "cidr \<Rightarrow> action \<Rightarrow> action lpm_trie \<Rightarrow> action lpm_trie option" where
  "router_add_route c a routes = lpm_insert Drop c a routes"

subsection \<open>Start and stop\<close>

text \<open>
  The control thread is in \<^verbatim>\<open>start\<close> after its exchange (\<open>StartPipe\<close>) or with the pipe open (\<open>StartSpawn\<close>),
  in \<^verbatim>\<open>stop\<close> before the write (\<open>StopWrite\<close>), in the join (\<open>StopJoin\<close>) or before the two resets
  (\<open>StopReset\<close>), or in neither. The reader is not there (the thread object is not joinable), at the loop
  condition, in \<^verbatim>\<open>poll\<close>, in the rest of the body, or has returned and awaits its join.
\<close>

datatype control_pc = Idle | StartPipe | StartSpawn | StopWrite | StopJoin | StopReset
datatype reader_pc = NoReader | AtHead | AtPoll | InBody | Returned

record router_state =
  running :: bool
  wake_open :: bool
  wake_bytes :: nat
  control :: control_pc
  reader :: reader_pc
  forwarded :: nat

definition router_init :: router_state where
  "router_init = \<lparr>running = False, wake_open = False, wake_bytes = 0, control = Idle, reader = NoReader, forwarded = 0\<rparr>"

inductive control_step :: "router_state \<Rightarrow> router_state \<Rightarrow> bool" where
  start_noop: "control s = Idle \<Longrightarrow> running s \<Longrightarrow> control_step s s"
| start_cas: "control s = Idle \<Longrightarrow> \<not> running s \<Longrightarrow> control_step s (s\<lparr>running := True, control := StartPipe\<rparr>)"
| pipe_fail: "control s = StartPipe \<Longrightarrow> control_step s (s\<lparr>running := False, control := Idle\<rparr>)"
| pipe_ok: "control s = StartPipe \<Longrightarrow> control_step s (s\<lparr>wake_open := True, wake_bytes := 0, control := StartSpawn\<rparr>)"
| spawn: "control s = StartSpawn \<Longrightarrow> control_step s (s\<lparr>reader := AtHead, control := Idle\<rparr>)"
| stop_noop: "control s = Idle \<Longrightarrow> \<not> running s \<Longrightarrow> control_step s s"
| stop_exchange: "control s = Idle \<Longrightarrow> running s \<Longrightarrow> control_step s (s\<lparr>running := False, control := StopWrite\<rparr>)"
| stop_write: "control s = StopWrite \<Longrightarrow> wake_open s \<Longrightarrow>
    control_step s (s\<lparr>wake_bytes := Suc (wake_bytes s), control := StopJoin\<rparr>)"
| stop_write_fails: "control s = StopWrite \<Longrightarrow> control_step s (s\<lparr>control := StopJoin\<rparr>)"
| stop_join: "control s = StopJoin \<Longrightarrow> reader s = NoReader \<or> reader s = Returned \<Longrightarrow>
    control_step s (s\<lparr>reader := NoReader, control := StopReset\<rparr>)"
| stop_reset: "control s = StopReset \<Longrightarrow> control_step s (s\<lparr>wake_open := False, wake_bytes := 0, control := Idle\<rparr>)"

text \<open>
  A step of the reader with what it saw: the flag at the loop condition, the answer of \<^verbatim>\<open>poll\<close>, or how the rest of the body
  ended and whether it gave the sink a packet. \<^verbatim>\<open>poll\<close> reports the wake pipe whenever it holds a byte, and times out only when
  neither descriptor is ready.
\<close>

datatype reader_event = Checked bool | Polled poll_result | Handled loop_next bool

inductive reader_sees :: "reader_event \<Rightarrow> router_state \<Rightarrow> router_state \<Rightarrow> bool" where
  head_go: "reader s = AtHead \<Longrightarrow> running s \<Longrightarrow> reader_sees (Checked True) s (s\<lparr>reader := AtPoll\<rparr>)"
| head_exit: "reader s = AtHead \<Longrightarrow> \<not> running s \<Longrightarrow> reader_sees (Checked False) s (s\<lparr>reader := Returned\<rparr>)"
| poll_eintr: "reader s = AtPoll \<Longrightarrow> reader_sees (Polled (PollFail EINTR)) s (s\<lparr>reader := AtHead\<rparr>)"
| poll_error: "reader s = AtPoll \<Longrightarrow> e \<noteq> EINTR \<Longrightarrow> reader_sees (Polled (PollFail e)) s (s\<lparr>reader := Returned\<rparr>)"
| poll_timeout: "reader s = AtPoll \<Longrightarrow> wake_bytes s = 0 \<Longrightarrow> reader_sees (Polled PollTimeout) s (s\<lparr>reader := AtHead\<rparr>)"
| poll_wake: "reader s = AtPoll \<Longrightarrow> 0 < wake_bytes s \<Longrightarrow> reader_sees (Polled (PollReady True)) s (s\<lparr>reader := Returned\<rparr>)"
| poll_tun: "reader s = AtPoll \<Longrightarrow> wake_bytes s = 0 \<Longrightarrow> reader_sees (Polled (PollReady False)) s (s\<lparr>reader := InBody\<rparr>)"
| body_skip: "reader s = InBody \<Longrightarrow> reader_sees (Handled Continue False) s (s\<lparr>reader := AtHead\<rparr>)"
| body_forward: "reader s = InBody \<Longrightarrow>
    reader_sees (Handled Continue True) s (s\<lparr>reader := AtHead, forwarded := Suc (forwarded s)\<rparr>)"
| body_break: "reader s = InBody \<Longrightarrow> reader_sees (Handled Break False) s (s\<lparr>reader := Returned\<rparr>)"

definition reader_step :: "router_state \<Rightarrow> router_state \<Rightarrow> bool" where
  "reader_step s t \<longleftrightarrow> (\<exists>e. reader_sees e s t)"

definition router_step :: "router_state \<Rightarrow> router_state \<Rightarrow> bool" where
  "router_step s t \<longleftrightarrow> control_step s t \<or> reader_step s t"

inductive router_reachable :: "router_state \<Rightarrow> bool" where
  reach_init: "router_reachable router_init"
| reach_step: "router_reachable s \<Longrightarrow> router_step s t \<Longrightarrow> router_reachable t"

subsection \<open>Specification\<close>

definition packet_dst :: "u8 list \<Rightarrow> ip_addr option" where
  "packet_dst p =
     (if p = [] then None
      else if drop_bit 4 (hd p) = (4 :: u8) \<and> 20 \<le> length p
        then Some \<lparr>ip_family = V4, ip_bytes = take 4 (drop 16 p) @ replicate 12 0\<rparr>
      else if drop_bit 4 (hd p) = (6 :: u8) \<and> 40 \<le> length p
        then Some \<lparr>ip_family = V6, ip_bytes = take 16 (drop 24 p)\<rparr>
      else None)"

definition to_tunnel :: "action lpm_trie \<Rightarrow> u8 list \<Rightarrow> bool" where
  "to_tunnel routes p \<longleftrightarrow>
     (\<exists>d. packet_dst p = Some d \<and>
        longest_match (trie_routes routes (ip_family d)) (lookup_bits d) = Some ToTunnel)"

text \<open>The packets the loop reads before it leaves, and the bound the kernel keeps on a read.\<close>

fun packets_read :: "(bool \<times> poll_result \<times> read_result) list \<Rightarrow> u8 list list" where
  "packets_read [] = []"
| "packets_read ((r, pr, rr) # evs) =
     (if \<not> r then []
      else case pr of
        PollFail e \<Rightarrow> if e = EINTR then packets_read evs else []
      | PollTimeout \<Rightarrow> packets_read evs
      | PollReady wake \<Rightarrow>
         if wake then []
         else case rr of
           ReadFail e \<Rightarrow> if e = EINTR \<or> e = EAGAIN then packets_read evs else []
         | ReadData bs \<Rightarrow> if bs = [] then [] else bs # packets_read evs)"

definition reads_fit :: "(bool \<times> poll_result \<times> read_result) list \<Rightarrow> bool" where
  "reads_fit evs \<longleftrightarrow> (\<forall>(r, pr, rr) \<in> set evs. case rr of ReadFail e \<Rightarrow> True | ReadData bs \<Rightarrow> length bs \<le> kPacketMtu)"

definition in_loop :: "router_state \<Rightarrow> bool" where
  "in_loop s \<longleftrightarrow> reader s \<in> {AtHead, AtPoll, InBody}"

definition router_inv :: "router_state \<Rightarrow> bool" where
  "router_inv s \<longleftrightarrow>
     (in_loop s \<longrightarrow> wake_open s) \<and>
     (control s \<in> {StartPipe, StartSpawn, StopReset} \<longrightarrow> reader s = NoReader) \<and>
     (control s = Idle \<and> \<not> running s \<longrightarrow> reader s = NoReader \<and> \<not> wake_open s) \<and>
     (control s \<in> {StopWrite, StopJoin, StopReset} \<longrightarrow> \<not> running s) \<and>
     (control s \<in> {StartPipe, StartSpawn} \<longrightarrow> running s) \<and>
     (control s = StartPipe \<longrightarrow> \<not> wake_open s) \<and>
     (control s \<in> {StartSpawn, StopWrite} \<or> (control s = Idle \<and> running s) \<longrightarrow> wake_open s \<and> wake_bytes s = 0)"

text \<open>Steps the reader can still take once the flag is clear, at most.\<close>

definition steps_left :: "router_state \<Rightarrow> nat" where
  "steps_left s = (case reader s of NoReader \<Rightarrow> 0 | Returned \<Rightarrow> 0 | AtHead \<Rightarrow> 1 | InBody \<Rightarrow> 2 | AtPoll \<Rightarrow> 3)"

text \<open>What counts as a failure of \<^verbatim>\<open>poll\<close> or of the read.\<close>

fun fault :: "reader_event \<Rightarrow> bool" where
  "fault (Polled (PollFail e)) = True"
| "fault (Handled Break out) = True"
| "fault e = False"

section \<open>Lemmas\<close>

inductive_cases control_stepE: "control_step s t"
inductive_cases reader_seesE: "reader_sees e s t"

lemma reader_stepE:
  assumes "reader_step s t"
  obtains e where "reader_sees e s t"
  using assms by (auto simp: reader_step_def)

subsection \<open>Destination of a packet\<close>

lemma dst_from_packet_spec:
  assumes "len \<le> length p"
  shows "dst_from_packet p len ip_addr_init =
    Some (case packet_dst (take len p) of None \<Rightarrow> (False, ip_addr_init) | Some d \<Rightarrow> (True, d))"
proof (cases "len = 0")
  case True
  then show ?thesis by (simp add: dst_from_packet_def packet_dst_def)
next
  case False
  then have ne: "take len p \<noteq> []" "p \<noteq> []" using assms by auto
  have h: "arr_get p 0 = Some (hd p)" using ne(2) by (simp add: arr_get_def hd_conv_nth)
  have l: "length (take len p) = len" using assms by simp
  have v4: "sub_bytes p 16 4 = Some (take 4 (drop 16 (take len p)))" if "20 \<le> len"
    using assms that by (simp add: sub_bytes_def drop_take min_def)
  have v6: "sub_bytes p 24 16 = Some (take 16 (drop 24 (take len p)))" if "40 \<le> len"
    using assms that by (simp add: sub_bytes_def drop_take min_def)
  have fr4: "store_front (take 4 (drop 16 (take len p))) (replicate 16 0) = take 4 (drop 16 (take len p)) @ replicate 12 0"
    if "20 \<le> len" using assms that by (simp add: store_front_def)
  have fr6: "store_front (take 16 (drop 24 (take len p))) (replicate 16 0) = take 16 (drop 24 (take len p))"
    if "40 \<le> len" using assms that by (simp add: store_front_def)
  have "(4 :: u8) \<noteq> 6" by simp
  then show ?thesis
    using False ne l v4 v6 fr4 fr6
    by (simp add: dst_from_packet_def packet_dst_def h Let_def ip_addr_init_def del: take_append drop_take)
qed

lemma wf_ip_init: "wf_ip ip_addr_init"
  by (simp add: wf_ip_def ip_addr_init_def)

lemma packet_dst_wf: "packet_dst p = Some d \<Longrightarrow> wf_ip d"
  by (auto simp: packet_dst_def wf_ip_def split: if_splits)

subsection \<open>The reader loop\<close>

lemma router_iter_data:
  assumes "trie_wf routes" "length buf = kPacketMtu" "bs \<noteq> []" "length bs \<le> kPacketMtu"
  shows "\<exists>buf'. length buf' = kPacketMtu \<and> router_iter routes sink buf (PollReady False) (ReadData bs) =
     Some (Continue, buf', if sink \<and> to_tunnel routes bs then [bs] else [])"
proof -
  let ?buf = "bs @ drop (length bs) buf"
  have w: "mem_write 0 bs buf = Some ?buf" using assms by (simp add: mem_write_def)
  have len: "length ?buf = kPacketMtu" using assms by simp
  have tk: "take (length bs) ?buf = bs" by simp
  have dst: "dst_from_packet ?buf (length bs) ip_addr_init =
    Some (case packet_dst bs of None \<Rightarrow> (False, ip_addr_init) | Some d \<Rightarrow> (True, d))"
    using dst_from_packet_spec [of "length bs" ?buf] by simp
  show ?thesis
  proof (cases "packet_dst bs")
    case None
    then show ?thesis using assms len
      by (auto simp: router_iter_def w dst to_tunnel_def)
  next
    case (Some d)
    from lpm.lookup_ok [OF assms(1) packet_dst_wf [OF Some]]
    have look: "lpm_lookup routes d = Some (longest_match (trie_routes routes (ip_family d)) (lookup_bits d))" .
    show ?thesis using assms len Some
      by (auto simp: router_iter_def w dst look to_tunnel_def split: option.split)
  qed
qed

lemma reader_passes_spec:
  assumes "trie_wf routes" "length buf = kPacketMtu" "reads_fit evs"
  shows "\<exists>st. reader_passes routes sink buf evs =
     Some (st, if sink then filter (to_tunnel routes) (packets_read evs) else [])"
  using assms(2,3)
proof (induction evs arbitrary: buf)
  case (Cons ev evs)
  obtain r pr rr where ev: "ev = (r, pr, rr)" by (cases ev)
  have fit: "reads_fit evs" using Cons.prems by (simp add: reads_fit_def)
  note IH = Cons.IH [OF _ fit]
  show ?case
  proof (cases "r \<and> pr = PollReady False \<and> (\<exists>bs. rr = ReadData bs \<and> bs \<noteq> [])")
    case True
    then obtain bs where bs: "pr = PollReady False" "rr = ReadData bs" "bs \<noteq> []" by blast
    moreover have "length bs \<le> kPacketMtu" using Cons.prems by (auto simp: reads_fit_def ev bs(2))
    ultimately obtain buf' where b: "length buf' = kPacketMtu"
      "router_iter routes sink buf (PollReady False) (ReadData bs) =
        Some (Continue, buf', if sink \<and> to_tunnel routes bs then [bs] else [])"
      using router_iter_data [OF assms(1) Cons.prems(1)] by blast
    then show ?thesis using True bs IH [OF b(1)] by (auto simp: ev)
  next
    case False
    then show ?thesis using IH [OF Cons.prems(1)]
      by (auto simp: ev router_iter_def split: poll_result.splits read_result.splits if_splits)
  qed
qed simp

subsection \<open>Start and stop\<close>

lemma router_inv_control: "control_step s t \<Longrightarrow> router_inv s \<Longrightarrow> router_inv t"
  by (erule control_stepE) (auto simp: router_inv_def in_loop_def)

lemma router_inv_reader: "reader_step s t \<Longrightarrow> router_inv s \<Longrightarrow> router_inv t"
  by (erule reader_stepE, erule reader_seesE) (auto simp: router_inv_def in_loop_def)

lemma router_reachable_inv: "router_reachable s \<Longrightarrow> router_inv s"
proof (induction rule: router_reachable.induct)
  case reach_init
  show ?case by (simp add: router_inv_def router_init_def in_loop_def)
next
  case (reach_step s t)
  then show ?case using router_inv_control router_inv_reader unfolding router_step_def by blast
qed

lemma reader_step_measure: "reader_step s t \<Longrightarrow> \<not> running s \<Longrightarrow> steps_left t < steps_left s"
  by (erule reader_stepE, erule reader_seesE) (auto simp: steps_left_def)

lemma reader_step_keeps: "reader_step s t \<Longrightarrow> running t = running s \<and> control t = control s"
  by (erule reader_stepE, erule reader_seesE) auto

lemma reader_step_forwarded:
  "reader_step s t \<Longrightarrow> \<not> running s \<Longrightarrow>
   forwarded t + (if reader t \<in> {InBody, AtPoll} then 1 else 0) \<le> forwarded s + (if reader s \<in> {InBody, AtPoll} then 1 else 0)"
  by (erule reader_stepE, erule reader_seesE) auto

lemma reader_run:
  "reader_step\<^sup>*\<^sup>* s t \<Longrightarrow> \<not> running s \<Longrightarrow>
   running t = running s \<and> control t = control s \<and> steps_left t \<le> steps_left s \<and>
   forwarded t + (if reader t \<in> {InBody, AtPoll} then 1 else 0) \<le> forwarded s + (if reader s \<in> {InBody, AtPoll} then 1 else 0)"
proof (induction rule: rtranclp_induct)
  case (step t u)
  note st = step.IH [OF step.prems]
  then have nr: "\<not> running t" using step.prems by simp
  show ?case
  proof (intro conjI)
    show "steps_left u \<le> steps_left s" using st reader_step_measure [OF step.hyps(2) nr] by simp
    show "forwarded u + (if reader u \<in> {InBody, AtPoll} then 1 else 0)
        \<le> forwarded s + (if reader s \<in> {InBody, AtPoll} then 1 else 0)"
      by (rule order_trans [OF reader_step_forwarded [OF step.hyps(2) nr]]) (use st in blast)
  qed (use st reader_step_keeps [OF step.hyps(2)] in simp_all)
qed simp

text \<open>In the loop there is always something other than a failure to see; in \<^verbatim>\<open>poll\<close> it is the wake byte or else the timeout.\<close>

lemma poll_returns: "reader s = AtPoll \<Longrightarrow> \<exists>t. reader_sees (Polled (if 0 < wake_bytes s then PollReady True else PollTimeout)) s t"
  using poll_wake [of s] poll_timeout [of s] by auto

lemma reader_progress:
  assumes "in_loop s" "\<not> running s"
  shows "\<exists>e t. \<not> fault e \<and> reader_sees e s t"
proof -
  consider "reader s = AtHead" | "reader s = AtPoll" | "reader s = InBody" using assms(1) by (auto simp: in_loop_def)
  then show ?thesis
  proof cases
    case 1
    then show ?thesis using head_exit [of s] assms(2) by (intro exI [of _ "Checked False"]) auto
  next
    case 2
    then show ?thesis using poll_returns [of s]
      by (intro exI [of _ "Polled (if 0 < wake_bytes s then PollReady True else PollTimeout)"]) (simp split: if_splits)
  next
    case 3
    then show ?thesis using body_skip [of s] by (intro exI [of _ "Handled Continue False"]) auto
  qed
qed

section \<open>Properties\<close>

text \<open>
  C4: the reader loop forwards exactly the packets whose destination's longest-prefix route is the tunnel: it
  hands the sink those packets, unchanged and in order, of all it reads until it leaves; every packet is
  handled without an access outside the buffer.
\<close>

theorem router_forwards_exactly:
  assumes "trie_wf routes" and "reads_fit evs"
  shows "\<exists>st. tun_reader_loop routes sink evs =
     Some (st, if sink then filter (to_tunnel routes) (packets_read evs) else [])"
  unfolding tun_reader_loop_def using assms by (intro reader_passes_spec) auto

lemma router_forwards_exactly_witness:
  "\<exists>t st. lpm_insert Drop block_8 ToTunnel lpm_empty = Some t \<and>
     tun_reader_loop t True [(True, PollTimeout, ReadFail 0), (True, PollReady False, ReadData [0x45, 0]),
       (True, PollReady True, ReadFail 0)] =
     Some (st, filter (to_tunnel t) [[0x45, 0]])"
proof -
  obtain t where t: "lpm_insert Drop block_8 ToTunnel lpm_empty = Some t" "trie_wf t"
    using lpm.insert_ok [OF lpm.invar_empty example_wf(1), of Drop ToTunnel] by (elim exE conjE) (rule that)
  have fit: "reads_fit [(True, PollTimeout, ReadFail 0), (True, PollReady False, ReadData [0x45, 0]),
     (True, PollReady True, ReadFail 0)]" by (simp add: reads_fit_def kPacketMtu_def)
  have "packets_read [(True, PollTimeout, ReadFail 0), (True, PollReady False, ReadData [0x45, 0]),
     (True, PollReady True, ReadFail 0)] = [[0x45, 0]]" by simp
  then obtain st where "tun_reader_loop t True [(True, PollTimeout, ReadFail 0),
      (True, PollReady False, ReadData [0x45, 0]), (True, PollReady True, ReadFail 0)] =
     Some (st, filter (to_tunnel t) [[0x45, 0]])"
    using router_forwards_exactly [OF t(2) fit, of True] by (simp only: if_True) blast
  with t(1) show ?thesis by (intro exI conjI)
qed

text \<open>
  \<open>dst_from_packet\<close> stays inside the packet and finds the destination field of exactly the IPv4 packets
  of at least 20 bytes and the IPv6 packets of at least 40; the address it returns is a full sixteen bytes.
\<close>

theorem dst_from_packet_correct:
  assumes "len \<le> length p"
  shows "\<exists>ok d. dst_from_packet p len ip_addr_init = Some (ok, d) \<and> wf_ip d \<and>
     packet_dst (take len p) = (if ok then Some d else None)"
proof (cases "packet_dst (take len p)")
  case None
  then show ?thesis
    by (intro exI [of _ False] exI [of _ ip_addr_init])
      (simp add: dst_from_packet_spec [OF assms] wf_ip_init)
next
  case (Some d)
  then show ?thesis
    by (intro exI [of _ True] exI [of _ d]) (simp add: dst_from_packet_spec [OF assms] packet_dst_wf)
qed

lemma dst_from_packet_correct_witness:
  "\<exists>ok d. dst_from_packet (replicate 40 0x60) 40 ip_addr_init = Some (ok, d) \<and> wf_ip d \<and>
     packet_dst (take 40 (replicate 40 0x60)) = (if ok then Some d else None)"
  by (rule dst_from_packet_correct) simp

text \<open>
  C31: in every interleaving of \<^verbatim>\<open>start\<close>, \<^verbatim>\<open>stop\<close> and the reader thread, the reader never runs with the wake pipe
  closed, a thread is only started when none is joinable, and once \<^verbatim>\<open>stop\<close> is through with the join no reader
  is left.
\<close>

theorem router_lifecycle_safe:
  assumes "router_reachable s"
  shows "(reader s \<in> {AtHead, AtPoll, InBody} \<longrightarrow> wake_open s) \<and>
     (control s = StartSpawn \<longrightarrow> reader s = NoReader) \<and>
     (control s = StopReset \<longrightarrow> reader s = NoReader) \<and>
     (control s = Idle \<and> \<not> running s \<longrightarrow> reader s = NoReader \<and> \<not> wake_open s)"
  using router_reachable_inv [OF assms] by (auto simp: router_inv_def in_loop_def)

lemma router_lifecycle_safe_witness:
  "\<exists>s. router_reachable s \<and> reader s = AtHead \<and> wake_open s"
proof -
  let ?s1 = "router_init\<lparr>running := True, control := StartPipe\<rparr>"
  let ?s2 = "?s1\<lparr>wake_open := True, wake_bytes := 0, control := StartSpawn\<rparr>"
  let ?s3 = "?s2\<lparr>reader := AtHead, control := Idle\<rparr>"
  have "router_step router_init ?s1" unfolding router_step_def
    by (intro disjI1 start_cas) (simp_all add: router_init_def)
  then have 1: "router_reachable ?s1" by (rule reach_step [OF reach_init])
  have "router_step ?s1 ?s2" unfolding router_step_def by (intro disjI1 pipe_ok) simp
  then have 2: "router_reachable ?s2" by (rule reach_step [OF 1])
  have "router_step ?s2 ?s3" unfolding router_step_def by (intro disjI1 spawn) simp
  then have 3: "router_reachable ?s3" by (rule reach_step [OF 2])
  then show ?thesis using router_lifecycle_safe [OF 3] by (intro exI [of _ ?s3]) simp
qed

text \<open>
  C32: \<^verbatim>\<open>stop\<close> terminates, and not only because calls may fail: from the moment it has cleared the flag, the reader in the
  loop always has a step that is no failure of \<^verbatim>\<open>poll\<close> or of the read; in \<^verbatim>\<open>poll\<close> this is the wake byte if \<^verbatim>\<open>stop\<close> could write it
  and the timeout if it could not. Every step it takes, failures included, brings it closer to its return (at most three
  are left), and it forwards at most one more packet.
\<close>

theorem router_stop_terminates:
  assumes "\<not> running s" and "reader_step\<^sup>*\<^sup>* s t"
  shows "(in_loop t \<longrightarrow> (\<exists>e u. \<not> fault e \<and> reader_sees e t u)) \<and>
     (reader t = AtPoll \<longrightarrow> (\<exists>u. reader_sees (Polled (if 0 < wake_bytes t then PollReady True else PollTimeout)) t u)) \<and>
     (\<forall>u. reader_step t u \<longrightarrow> steps_left u < steps_left t) \<and>
     steps_left t \<le> 3 \<and> (steps_left t = 0 \<longleftrightarrow> \<not> in_loop t) \<and> forwarded t \<le> forwarded s + 1"
proof -
  have t: "\<not> running t" "forwarded t \<le> forwarded s + 1"
    using reader_run [OF assms(2,1)] assms(1) by (auto split: if_splits)
  have "steps_left t \<le> 3" "steps_left t = 0 \<longleftrightarrow> \<not> in_loop t" by (cases "reader t"; simp add: steps_left_def in_loop_def)+
  then show ?thesis using t reader_progress poll_returns reader_step_measure by blast
qed

lemma router_stop_terminates_witness:
  "\<exists>t u. reader_step\<^sup>*\<^sup>* (router_init\<lparr>reader := InBody, wake_open := True, wake_bytes := 1\<rparr>) t \<and> reader t = AtHead \<and>
     reader_step t u \<and> steps_left u = 0 \<and> forwarded u = 1"
proof -
  let ?s = "router_init\<lparr>reader := InBody, wake_open := True, wake_bytes := 1\<rparr>"
  let ?t = "?s\<lparr>reader := AtHead, forwarded := 1\<rparr>"
  have nr: "\<not> running ?s" by (simp add: router_init_def)
  have "reader_step ?s ?t" unfolding reader_step_def using body_forward [of ?s] by (auto simp: router_init_def)
  then have run: "reader_step\<^sup>*\<^sup>* ?s ?t" by blast
  from router_stop_terminates [OF nr run] have "\<exists>u. reader_step ?t u" by (auto simp: in_loop_def reader_step_def)
  then obtain u where u: "reader_step ?t u" by blast
  then have "steps_left u < steps_left ?t" using router_stop_terminates [OF nr run] by blast
  moreover have "steps_left ?t = 1" by (simp add: steps_left_def)
  moreover have "forwarded u = 1" using u by (auto simp: reader_step_def router_init_def elim!: reader_seesE)
  ultimately show ?thesis using run u by (intro exI [of _ ?t] exI [of _ u]) simp
qed

end
