(* ===== verification/Multi_Sink.thy ===== *)
theory Multi_Sink
  imports Quic_Client
begin

text \<open>
  \<^verbatim>\<open>MultiSink\<close> of \<^verbatim>\<open>src/main.cpp\<close>: the round-robin sink over the QUIC clients. The counter is a \<^verbatim>\<open>std::size_t\<close>
  and wraps at the target's word width. The state also keeps the history of the sink chosen for each
  packet and of the packets the chosen client sent on, in order.
\<close>

section \<open>Definitions\<close>

record (overloaded) 'w multi_sink =
  ms_sinks :: "client list"
  ms_next :: "'w::len word"
  ms_choices :: "nat list"
  ms_sent :: "u8 list list"

definition multi_sink_init :: "client list \<Rightarrow> 'w::len multi_sink" where
  "multi_sink_init cs = \<lparr>ms_sinks = cs, ms_next = 0, ms_choices = [], ms_sent = []\<rparr>"

definition multi_on_packet :: "(u8 list \<Rightarrow> client \<Rightarrow> bool) \<Rightarrow> u8 list \<Rightarrow> 'w::len multi_sink \<Rightarrow> 'w multi_sink" where
  "multi_on_packet accepts p s =
     (if ms_sinks s = [] then s
      else let idx = unat (ms_next s) mod length (ms_sinks s);
               c = ms_sinks s ! idx;
               c' = quic_on_packet accepts p c
        in s\<lparr>ms_next := ms_next s + 1, ms_sinks := (ms_sinks s)[idx := c'],
             ms_choices := ms_choices s @ [idx],
             ms_sent := ms_sent s @ drop (length (packets_sent c)) (packets_sent c')\<rparr>)"

definition multi_sink_ok :: "'w::len multi_sink \<Rightarrow> bool" where
  "multi_sink_ok s \<longleftrightarrow> (\<forall>c \<in> set (ms_sinks s). ledger_ok (sends c))"

section \<open>Lemmas\<close>

lemma packets_sent_drop:
  "drop (length (packets_sent c)) (packets_sent (quic_on_packet accepts p c)) =
     (if h_connection c \<noteq> None \<and> handshake_ok c \<and> accepts p c then [p] else [])"
  by (simp add: quic_on_packet_def send_packet_sent)

lemma idx_in: "ms_sinks s \<noteq> [] \<Longrightarrow> n mod length (ms_sinks s) < length (ms_sinks s)"
  by simp

interpretation round_robin: packet_sink "multi_on_packet accepts" ms_sent multi_sink_ok for accepts
proof unfold_locales
  fix s :: "'a multi_sink" and p
  assume ok: "multi_sink_ok s"
  show "multi_sink_ok (multi_on_packet accepts p s)"
  proof (cases "ms_sinks s = []")
    case False
    have "ledger_ok (sends (ms_sinks s ! (n mod length (ms_sinks s))))" for n
      using ok idx_in [OF False] nth_mem unfolding multi_sink_ok_def by blast
    then have "ledger_ok (sends (quic_on_packet accepts p (ms_sinks s ! (n mod length (ms_sinks s)))))" for n
      by (simp add: quic_on_packet_def send_packet_ledger)
    then show ?thesis using ok False set_update_subset_insert
      unfolding multi_sink_ok_def multi_on_packet_def Let_def by fastforce
  qed (use ok in \<open>simp add: multi_on_packet_def\<close>)
  show "ms_sent (multi_on_packet accepts p s) = ms_sent s \<or> ms_sent (multi_on_packet accepts p s) = ms_sent s @ [p]"
    by (simp add: multi_on_packet_def Let_def packets_sent_drop)
qed

lemma multi_fields:
  "length (ms_sinks (multi_on_packet accepts p s)) = length (ms_sinks s)"
  by (simp add: multi_on_packet_def Let_def)

lemma unat_word_mod:
  fixes w :: "'w::len word"
  assumes "n dvd 2 ^ LENGTH('w)"
  shows "unat (w + 1) mod n = Suc (unat w) mod n"
proof -
  have "unat (w + 1) = Suc (unat w) mod 2 ^ LENGTH('w)"
    by (simp add: unat_word_ariths)
  then show ?thesis using assms by (simp add: mod_mod_cancel)
qed

lemma round_robin_choices:
  fixes s :: "'w::len multi_sink"
  assumes "ms_sinks s \<noteq> []" "length (ms_sinks s) dvd 2 ^ LENGTH('w)"
  shows "ms_choices (fold (multi_on_packet accepts) ps s) =
     ms_choices s @ map (\<lambda>i. (unat (ms_next s) + i) mod length (ms_sinks s)) [0..<length ps]"
  using assms
proof (induction ps arbitrary: s)
  case (Cons p ps)
  let ?s = "multi_on_packet accepts p s" and ?n = "length (ms_sinks s)"
  have len: "length (ms_sinks ?s) = ?n" "ms_sinks ?s \<noteq> []"
    using Cons.prems by (simp_all add: multi_on_packet_def Let_def)
  have nx: "unat (ms_next ?s) mod ?n = Suc (unat (ms_next s)) mod ?n"
    using Cons.prems unat_word_mod [OF Cons.prems(2)] by (simp add: multi_on_packet_def Let_def)
  have "(unat (ms_next ?s) + i) mod ?n = (unat (ms_next s) + Suc i) mod ?n" for i
    using mod_add_cong [OF nx, of i i] by simp
  then have tl: "map (\<lambda>i. (unat (ms_next ?s) + i) mod ?n) [0..<length ps]
     = map (\<lambda>i. (unat (ms_next s) + i) mod ?n) [Suc 0..<Suc (length ps)]"
    by (simp add: map_Suc_upt [symmetric] del: map_Suc_upt upt_Suc)
  have "ms_choices ?s = ms_choices s @ [unat (ms_next s) mod ?n]"
    using Cons.prems by (simp add: multi_on_packet_def Let_def)
  then show ?case using Cons.IH [of ?s] len Cons.prems(2) tl
    by (simp add: upt_rec [of 0 "Suc (length ps)"] del: upt_Suc)
qed simp

section \<open>Properties\<close>

text \<open>
  The sink distributes packets in strict rotation: with a number of connections that divides the range of the
  counter (four do, on every target), packet \<open>i\<close> goes to connection \<open>i mod n\<close>, also across the wrap of the
  counter.
\<close>

theorem multi_sink_rotates:
  fixes s :: "'w::len multi_sink"
  assumes "ms_sinks s \<noteq> []" and "length (ms_sinks s) dvd 2 ^ LENGTH('w)" and "ms_choices s = []" and "i < length ps"
  shows "ms_choices (fold (multi_on_packet accepts) ps s) ! i = (unat (ms_next s) + i) mod length (ms_sinks s) \<and>
     length (ms_choices (fold (multi_on_packet accepts) ps s)) = length ps"
  using round_robin_choices [OF assms(1,2), of accepts ps] assms(3,4) by simp

lemma multi_sink_rotates_witness:
  "ms_choices (fold (multi_on_packet (\<lambda>_ _. True)) [[1], [2]]
     ((multi_sink_init (replicate 4 (client_init quic_config_init)) :: 32 multi_sink)\<lparr>ms_next := 2\<rparr>)) ! 1 = 3"
proof -
  let ?s = "(multi_sink_init (replicate 4 (client_init quic_config_init)) :: 32 multi_sink)\<lparr>ms_next := 2\<rparr>"
  have "(4 :: nat) dvd 4294967296" by (simp add: dvd_def)
  then have "ms_sinks ?s \<noteq> []" "length (ms_sinks ?s) dvd 2 ^ LENGTH(32)" "ms_choices ?s = []" "1 < length [[1], [2 :: u8]]"
    by (simp_all add: multi_sink_init_def)
  from multi_sink_rotates [OF this, of "\<lambda>_ _. True"] show ?thesis by (simp add: multi_sink_init_def)
qed

end
