(* ===== verification/Log.thy ===== *)
theory Log
  imports Prelude
begin

text \<open>
  The logger of \<^verbatim>\<open>include/cfd/log.hpp\<close> and \<^verbatim>\<open>src/log.cpp\<close>: the level and its order, the threshold, and the line
  \<^verbatim>\<open>emit\<close> writes. The time stamp and the formatted message are arguments (\<^verbatim>\<open>strftime\<close> and \<^verbatim>\<open>vfprintf\<close> produce
  them); the state is the threshold and the lines written to standard error so far.
\<close>

section \<open>Definitions\<close>

datatype level = Trace | Debug | Info | Warn | Error

definition level_code :: "level \<Rightarrow> nat" where
  "level_code l = (case l of Trace \<Rightarrow> 0 | Debug \<Rightarrow> 1 | Info \<Rightarrow> 2 | Warn \<Rightarrow> 3 | Error \<Rightarrow> 4)"

instantiation level :: linorder
begin

definition less_eq_level :: "level \<Rightarrow> level \<Rightarrow> bool" where
  "less_eq_level a b \<longleftrightarrow> level_code a \<le> level_code b"

definition less_level :: "level \<Rightarrow> level \<Rightarrow> bool" where
  "less_level a b \<longleftrightarrow> level_code a < level_code b"

instance
proof
  fix x y z :: level
  show "x < y \<longleftrightarrow> x \<le> y \<and> \<not> y \<le> x" by (auto simp: less_eq_level_def less_level_def)
  show "x \<le> x" by (simp add: less_eq_level_def)
  show "x \<le> y \<Longrightarrow> y \<le> z \<Longrightarrow> x \<le> z" by (simp add: less_eq_level_def)
  show "x \<le> y \<Longrightarrow> y \<le> x \<Longrightarrow> x = y"
    by (cases x; cases y) (simp_all add: less_eq_level_def level_code_def)
  show "x \<le> y \<or> y \<le> x" by (auto simp: less_eq_level_def)
qed

end

fun level_str :: "level \<Rightarrow> string" where
  "level_str Trace = ''TRACE''"
| "level_str Debug = ''DEBUG''"
| "level_str Info = ''INFO ''"
| "level_str Warn = ''WARN ''"
| "level_str Error = ''ERROR''"

text \<open>\<^verbatim>\<open>strrchr(file, '/')\<close> and the step past it.\<close>

definition base_name :: "string \<Rightarrow> string" where
  "base_name file = rev (takeWhile (\<lambda>c. c \<noteq> CHR ''/'') (rev file))"

definition log_line :: "string \<Rightarrow> level \<Rightarrow> string \<Rightarrow> nat \<Rightarrow> string \<Rightarrow> string" where
  "log_line stamp lvl file line msg =
     stamp @ '' '' @ level_str lvl @ '' '' @ base_name file @ '':'' @ dec_string line @ ''  '' @ msg @ [CHR 0x0A]"

record log_state =
  g_level :: level
  stderr_lines :: "string list"

definition log_init :: log_state where
  "log_init = \<lparr>g_level = Info, stderr_lines = []\<rparr>"

definition set_level :: "level \<Rightarrow> log_state \<Rightarrow> log_state" where
  "set_level l s = s\<lparr>g_level := l\<rparr>"

definition log_emit :: "string \<Rightarrow> level \<Rightarrow> string \<Rightarrow> nat \<Rightarrow> string \<Rightarrow> log_state \<Rightarrow> log_state" where
  "log_emit stamp lvl file line msg s = s\<lparr>stderr_lines := stderr_lines s @ [log_line stamp lvl file line msg]\<rparr>"

text \<open>The macro \<^verbatim>\<open>CFD_LOG\<close>: the comparison is on the integer codes.\<close>

definition cfd_log :: "string \<Rightarrow> level \<Rightarrow> string \<Rightarrow> nat \<Rightarrow> string \<Rightarrow> log_state \<Rightarrow> log_state" where
  "cfd_log stamp lvl file line msg s =
     (if level_code lvl \<ge> level_code (g_level s) then log_emit stamp lvl file line msg s else s)"

definition log_all :: "(string \<times> level \<times> string \<times> nat \<times> string) list \<Rightarrow> log_state \<Rightarrow> log_state" where
  "log_all calls s = fold (\<lambda>(stamp, lvl, file, line, msg). cfd_log stamp lvl file line msg) calls s"

section \<open>Lemmas\<close>

lemma level_str_length: "length (level_str l) = 5"
  by (cases l) auto

lemma base_name_suffix: "\<exists>dir. path = dir @ base_name path \<and> CHR ''/'' \<notin> set (base_name path) \<and> (dir = [] \<or> last dir = CHR ''/'')"
proof -
  define t where "t = takeWhile (\<lambda>c. c \<noteq> CHR ''/'') (rev path)"
  define r where "r = dropWhile (\<lambda>c. c \<noteq> CHR ''/'') (rev path)"
  have "rev path = t @ r" by (simp add: t_def r_def)
  then have "path = rev r @ rev t" by (simp add: rev_swap)
  moreover have "base_name path = rev t" by (simp add: base_name_def t_def)
  moreover have "CHR ''/'' \<notin> set (rev t)" by (auto simp: t_def dest: set_takeWhileD)
  moreover have "rev r = [] \<or> last (rev r) = CHR ''/''"
  proof (cases "r = []")
    case False
    then have "hd r = CHR ''/''" using hd_dropWhile [of "\<lambda>c. c \<noteq> CHR ''/''" "rev path"] by (auto simp: r_def)
    then show ?thesis using False by (simp add: last_rev)
  qed simp
  ultimately show ?thesis by auto
qed

lemma log_all_lines:
  "g_level (log_all calls s) = g_level s \<and>
   stderr_lines (log_all calls s) = stderr_lines s @
     map (\<lambda>(stamp, lvl, file, line, msg). log_line stamp lvl file line msg)
       (filter (\<lambda>(stamp, lvl, file, line, msg). g_level s \<le> lvl) calls)"
  unfolding log_all_def
  by (induction calls arbitrary: s) (auto simp: cfd_log_def log_emit_def less_eq_level_def)

section \<open>Properties\<close>

text \<open>
  With an unchanged threshold, a sequence of log calls writes exactly the lines of the calls at or above it,
  in order, one line each, and names the source file without its directory.
\<close>

theorem log_threshold_exact:
  "stderr_lines (log_all calls (set_level l s)) = stderr_lines s @
     map (\<lambda>(stamp, lvl, file, line, msg). log_line stamp lvl file line msg)
       (filter (\<lambda>(stamp, lvl, file, line, msg). l \<le> lvl) calls) \<and>
   CHR ''/'' \<notin> set (base_name file)"
  using log_all_lines [of calls "set_level l s"] base_name_suffix [of "file"] by (auto simp: set_level_def)

end
