(* ===== verification/Daemon.thy ===== *)
theory Daemon
  imports Config Tun Router Multi_Sink Log
begin

text \<open>
  The set-up and the exit codes of the daemon, \<^verbatim>\<open>main\<close> of \<^verbatim>\<open>src/main.cpp\<close>: the command line, the resolution of
  the edge addresses, the start-up sequence over the configuration, the TUN device, the credential parsers, the
  clients and the routing table, and what the main thread does once the connection threads run.

  The outside world is the record \<open>daemon_env\<close>; \<open>de_sock n\<close> and \<open>de_kernel n\<close> are the calls that open the
  \<open>n\<close>-th netlink socket and the kernel as it sees it.
  A result \<open>None\<close> would be an access out of bounds in one of the components.
\<close>

section \<open>Definitions\<close>

definition kNumHaConns :: nat where "kNumHaConns = 4"

subsection \<open>The command line\<close>

text \<open>\<open>ArgExit n\<close> is a return from \<^verbatim>\<open>main\<close> with that code; \<open>ArgRun\<close> keeps the final value of \<open>i\<close>.\<close>

datatype arg_result = ArgExit int | ArgRun string bool nat

function arg_loop :: "string list \<Rightarrow> string \<Rightarrow> bool \<Rightarrow> nat \<Rightarrow> arg_result" where
  "arg_loop argv cfg_path verbose i =
     (if \<not> i < length argv then ArgRun cfg_path verbose i
      else let a = argv ! i in
        if a = ''--config'' \<and> i + 1 < length argv then arg_loop argv (argv ! (i + 1)) verbose (i + 2)
        else if a = ''--verbose'' then arg_loop argv cfg_path True (i + 1)
        else if a = ''--help'' \<or> a = ''-h'' then ArgExit 0
        else ArgExit 2)"
  by pat_completeness auto
termination
  by (relation "measure (\<lambda>(argv, cfg_path, verbose, i). length argv - i)") auto

declare arg_loop.simps [simp del]

definition main_args :: "string list \<Rightarrow> arg_result" where
  "main_args argv =
     (case arg_loop argv [] False 1 of
        ArgExit n \<Rightarrow> ArgExit n
      | ArgRun path verbose i \<Rightarrow> if path = [] then ArgExit 2 else ArgRun path verbose i)"

subsection \<open>Edge addresses\<close>

text \<open>
  \<open>dns\<close> is the answer of \<^verbatim>\<open>getaddrinfo\<close>: no answer, or the text of each address in the list, empty for an
  address that \<^verbatim>\<open>inet_ntop\<close> does not print.
\<close>

definition resolve_edge_ips :: "string list option \<Rightarrow> string \<Rightarrow> nat \<Rightarrow> string list" where
  "resolve_edge_ips dns host want =
     (let found = (case dns of None \<Rightarrow> [] | Some as \<Rightarrow> filter (\<lambda>a. a \<noteq> []) as);
          found = (if found = [] then [host] else found)
      in map (\<lambda>i. found ! (i mod length found)) [0..<want])"

subsection \<open>Start-up\<close>

record daemon_env =
  de_file :: "string option"
  de_pton :: inet_pton_fn
  de_open :: "int + int"
  de_tunsetiff :: "int \<Rightarrow> u16 \<Rightarrow> string \<Rightarrow> int + string"
  de_le :: bool
  de_kernel :: "nat \<Rightarrow> kernel"
  de_sock :: "nat \<Rightarrow> nl_socket"
  de_ifindex :: "string \<Rightarrow> int + u32"
  de_dns :: "string \<Rightarrow> string list option"

text \<open>The routes after the first, one netlink socket each, up to the first failure.\<close>

fun install_rest :: "daemon_env \<Rightarrow> tun_device \<Rightarrow> nat \<Rightarrow> cidr list \<Rightarrow> bool option" where
  "install_rest env dev n [] = Some True"
| "install_rest env dev n (r # rs) = do {
     (ec, _) \<leftarrow> tun_add_route (de_le env) (de_kernel env n) (de_sock env n) (de_ifindex env) dev r;
     if ec \<noteq> 0 then Some False else install_rest env dev (n + 1) rs
   }"

definition request_template :: "config \<Rightarrow> u8 list \<Rightarrow> u8 list \<Rightarrow> register_request" where
  "request_template cfg uuid secret =
     register_request_init\<lparr>tunnel_uuid := uuid,
       auth := \<lparr>Registration.tunnel_auth.account_tag = Config.config.account_tag cfg, tunnel_secret = secret\<rparr>,
       arch := ''linux'', features := [''quic-datagram-v3'']\<rparr>"

definition client_config :: "config \<Rightarrow> string \<Rightarrow> quic_config" where
  "client_config cfg ip =
     quic_config_init\<lparr>q_edge_host := ip, q_edge_port := edge_port cfg, q_ca_bundle_path := ca_bundle_path cfg,
       q_client_cert_path := client_cert_path cfg, q_client_key_path := client_key_path cfg\<rparr>"

record running =
  rn_config :: config
  rn_template :: register_request
  rn_clients :: "client list"
  rn_routes :: "action lpm_trie"
  rn_argi :: nat
  rn_log :: log_state

datatype daemon_result = Exit int | Started running

definition daemon_setup :: "daemon_env \<Rightarrow> string list \<Rightarrow> daemon_result option" where
  "daemon_setup env argv =
     (case main_args argv of
        ArgExit n \<Rightarrow> Some (Exit n)
      | ArgRun path verbose i \<Rightarrow>
     (let log = set_level (if verbose then Debug else Info) log_init in
      case load_from_file (de_pton env) path (de_file env) config_init [] of
        (ok, cfg, err) \<Rightarrow>
      if \<not> ok then Some (Exit 1)
      else case tun_open (de_open env) (de_tunsetiff env) (tun_name cfg) tun_init of
        (ec, dev, _) \<Rightarrow>
      if ec \<noteq> 0 then Some (Exit 1)
      else do {
        (ec, _) \<leftarrow> tun_configure (de_le env) (de_kernel env 0) (de_sock env 0) (de_ifindex env) dev (tun_local cfg)
                    (if routed_cidrs cfg = [] then tun_local cfg else hd (routed_cidrs cfg));
        if ec \<noteq> 0 then Some (Exit 1)
        else do {
          ok \<leftarrow> install_rest env dev 1 (tl (routed_cidrs cfg));
          if \<not> ok then Some (Exit 1)
          else let ips = resolve_edge_ips (de_dns env (edge_host cfg)) (edge_host cfg) kNumHaConns in
            case parse_uuid (tunnel_id cfg) (tunnel_uuid register_request_init) of
              Inl _ \<Rightarrow> None
            | Inr (ok, uuid) \<Rightarrow>
                if \<not> ok then Some (Exit 1)
                else case base64_decode (tunnel_secret_b64 cfg) [] of
                  (ok, secret) \<Rightarrow>
                if \<not> ok then Some (Exit 1)
                else do {
                  routes \<leftarrow> insert_routes router_add_route (map (\<lambda>c. (c, ToTunnel)) (routed_cidrs cfg)) lpm_empty;
                  Some (Started \<lparr>rn_config = cfg, rn_template = request_template cfg uuid secret,
                    rn_clients = map (\<lambda>ip. set_handler True (client_init (client_config cfg ip))) ips,
                    rn_routes = routes, rn_argi = i, rn_log = log\<rparr>)
                }
        }
      }))"

subsection \<open>Running\<close>

text \<open>
  The request of a connection thread: the index it sends is \<^verbatim>\<open>i\<close>, the variable of the argument loop that the
  lambda captures by reference, not the thread's own \<^verbatim>\<open>conn_idx\<close>.
\<close>

definition thread_request :: "running \<Rightarrow> nat \<Rightarrow> register_request" where
  "thread_request r conn_idx = (rn_template r)\<lparr>conn_index := of_nat (rn_argi r)\<rparr>"

text \<open>
  What the main thread does after its first wait, by what it finds then: whether it starts the router, and the
  exit code (after the loop until a signal, if it starts it).
\<close>

definition main_after_wait :: "bool \<Rightarrow> nat \<Rightarrow> bool \<times> int" where
  "main_after_wait stop ok_count =
     (if stop then (False, 1) else if ok_count = 0 then (False, 1) else (True, 0))"

text \<open>An environment in which start-up gets through, for the witness.\<close>

definition example_config :: config where
  "example_config = config_init\<lparr>tunnel_id := ''00112233-4455-6677-8899-aabbccddeeff'',
     routed_cidrs := [\<lparr>cidr_addr = \<lparr>ip_family = V4, ip_bytes = [10, 99] @ replicate 14 0\<rparr>, cidr_prefix_len = 16\<rparr>]\<rparr>"

definition ack_kernel :: kernel where
  "ack_kernel sent = RecvData (message_bytes True NLMSG_ERROR 0 nl_init (enc32 True 0))"

definition example_env :: daemon_env where
  "example_env =
     \<lparr>de_file = Some (''tunnel_id = 00112233-4455-6677-8899-aabbccddeeff'' @ [newline] @ ''route = AKGDAAAA/16''),
      de_pton = letter_pton, de_open = Inr 5, de_tunsetiff = (\<lambda>_ _ n. Inr n), de_le = True,
      de_kernel = (\<lambda>_. ack_kernel), de_sock = (\<lambda>_. good_socket), de_ifindex = (\<lambda>_. Inr 3), de_dns = (\<lambda>_. None)\<rparr>"

section \<open>Lemmas\<close>

lemma arg_loop_end: "arg_loop argv p v i = ArgRun p' v' j \<Longrightarrow> i \<le> length argv \<Longrightarrow> j = length argv"
proof (induction argv p v i rule: arg_loop.induct)
  case (1 argv p v i)
  show ?case
  proof (cases "i < length argv")
    case False
    then show ?thesis using "1.prems" by (subst (asm) arg_loop.simps) simp
  next
    case True
    then show ?thesis using "1.prems" "1.IH"(1) [of "argv ! i"] "1.IH"(2) [of "argv ! i"]
      by (subst (asm) (1) arg_loop.simps) (auto simp: Let_def split: if_splits)
  qed
qed

lemma add_routes_trie:
  assumes "\<forall>c \<in> set rs. wf_cidr c"
  obtains t where "insert_routes router_add_route (map (\<lambda>c. (c, a)) rs) lpm_empty = Some t" "trie_wf t"
proof -
  have "\<forall>(c, v) \<in> set (map (\<lambda>c. (c, a)) rs). wf_cidr c" using assms by auto
  from lpm.insert_routes_total [OF lpm.invar_empty this] obtain t where
    "insert_routes (lpm_insert Drop) (map (\<lambda>c. (c, a)) rs) lpm_empty = Some t \<and> trie_wf t" by blast
  moreover have "router_add_route = lpm_insert Drop" by (intro ext) (simp add: router_add_route_def)
  ultimately show ?thesis using that by simp
qed

lemma scan_same_action:
  "scan_routes (map (\<lambda>c. (c, v)) rs) a = (if \<exists>c \<in> set rs. cidr_matches c a then Some v else None)"
proof -
  have "foldl (scan_step a) b (map (\<lambda>c. (c, v)) rs) \<noteq> None \<longleftrightarrow> b \<noteq> None \<or> (\<exists>c \<in> set rs. cidr_matches c a)" for b
    by (induction rs arbitrary: b) (auto simp: scan_step_def Let_def split: option.splits)
  moreover have "foldl (scan_step a) b (map (\<lambda>c. (c, v)) rs) = Some (n, w) \<Longrightarrow> (\<forall>k u. b = Some (k, u) \<longrightarrow> u = v) \<Longrightarrow> w = v"
    for b n w
    by (induction rs arbitrary: b) (auto simp: scan_step_def Let_def split: if_splits)
  ultimately show ?thesis unfolding scan_routes_def
    by (cases "foldl (scan_step a) None (map (\<lambda>c. (c, v)) rs)") fastforce+
qed

lemma tunnel_routes_to_tunnel:
  assumes rs: "\<forall>c \<in> set rs. wf_cidr c"
    and t: "insert_routes router_add_route (map (\<lambda>c. (c, ToTunnel)) rs) lpm_empty = Some t"
  shows "trie_wf t \<and>
     (to_tunnel t p \<longleftrightarrow> (\<exists>d. packet_dst p = Some d \<and> (\<exists>c \<in> set rs. cidr_matches c d)))"
proof -
  have eq: "router_add_route = lpm_insert Drop" by (intro ext) (simp add: router_add_route_def)
  have wf: "\<forall>(c, v) \<in> set (map (\<lambda>c. (c, ToTunnel)) rs). wf_cidr c" using rs by auto
  obtain t' where "insert_routes router_add_route (map (\<lambda>c. (c, ToTunnel)) rs) lpm_empty = Some t'" "trie_wf t'"
    using add_routes_trie [OF rs] .
  then have tw: "trie_wf t" using t by simp
  have "longest_match (trie_routes t (ip_family d)) (lookup_bits d)
      = (if \<exists>c \<in> set rs. cidr_matches c d then Some ToTunnel else None)" if "packet_dst p = Some d" for d
  proof -
    have "lpm_lookup t d = Some (scan_routes (map (\<lambda>c. (c, ToTunnel)) rs) d)"
      using lpm.lookup_scan [OF wf packet_dst_wf [OF that]] t unfolding eq by blast
    moreover have "lpm_lookup t d = Some (longest_match (trie_routes t (ip_family d)) (lookup_bits d))"
      by (rule lpm.lookup_ok [OF tw packet_dst_wf [OF that]])
    ultimately show ?thesis by (simp add: scan_same_action)
  qed
  then show ?thesis using tw by (auto simp: to_tunnel_def split: if_splits)
qed

lemma length_resolve [simp]: "length (resolve_edge_ips dns host want) = want"
  by (simp add: resolve_edge_ips_def Let_def)

lemma daemon_setup_started:
  assumes "daemon_setup env argv = Some (Started r)"
  obtains path verbose i cfg err uuid secret routes where
    "main_args argv = ArgRun path verbose i"
    "load_from_file (de_pton env) path (de_file env) config_init [] = (True, cfg, err)"
    "parse_uuid (tunnel_id cfg) (tunnel_uuid register_request_init) = Inr (True, uuid)"
    "base64_decode (tunnel_secret_b64 cfg) [] = (True, secret)"
    "insert_routes router_add_route (map (\<lambda>c. (c, ToTunnel)) (routed_cidrs cfg)) lpm_empty = Some routes"
    "r = \<lparr>rn_config = cfg, rn_template = request_template cfg uuid secret,
       rn_clients = map (\<lambda>ip. set_handler True (client_init (client_config cfg ip)))
         (resolve_edge_ips (de_dns env (edge_host cfg)) (edge_host cfg) kNumHaConns),
       rn_routes = routes, rn_argi = i,
       rn_log = set_level (if verbose then Debug else Info) log_init\<rparr>"
  using assms unfolding daemon_setup_def
  by (auto simp: Let_def split: arg_result.splits prod.splits if_splits bind_splits sum.splits)

subsection \<open>The example\<close>

lemma ack_kernel_whole: "whole_replies True ack_kernel"
  using ack_whole [of True 0] by (simp add: ack_kernel_def [abs_def])

lemma ack_kernel_code: "reply_code True ack_kernel (sent @ [req]) = 0"
  using nl_talk_ack [of ack_kernel sent req True 0 nl_init 0 "[]"] by (simp add: ack_kernel_def reply_code_def)

lemma example_load: "load_from_file letter_pton path (de_file example_env) config_init [] = (True, example_config, [])"
proof -
  have "load_lines letter_pton 0 (getlines (''tunnel_id = 00112233-4455-6677-8899-aabbccddeeff'' @ [newline] @ ''route = AKGDAAAA/16''))
     config_init [] = (True, example_config, [])" by code_simp
  then show ?thesis by (simp add: load_from_file_def example_env_def)
qed

lemma example_configure:
  assumes "length (tun_dev_name dev) < IFNAMSIZ" "wf_cidr a" "wf_cidr b"
  shows "\<exists>rs cl. tun_configure True ack_kernel good_socket (\<lambda>_. Inr 3) dev a b = Some (0, rs, cl)"
proof -
  have idx: "nl_if_index (\<lambda>_. Inr 3) (tun_dev_name dev) 0 = (0, 3)" using assms(1) by (simp add: nl_if_index_def)
  obtain ec s' rs where c: "configure_link (\<lambda>i m. on_client (nl_set_mtu True ack_kernel i m))
      (\<lambda>i. on_client (nl_link_up True ack_kernel i)) (\<lambda>i b. on_client (nl_add_addr True ack_kernel i b))
      (\<lambda>i b. on_client (nl_add_route True ack_kernel i b)) 3 a b (nl_init\<lparr>nl_fd := 7, nl_pid := 4242\<rparr>, []) = Some (ec, s')"
    "rs \<noteq> []" "ec \<noteq> 0 \<longrightarrow> ec = reply_code True ack_kernel rs"
    using tun_link.configure_sequence [OF ack_kernel_whole assms(2,3) refl refl refl refl, of 3 "(nl_init\<lparr>nl_fd := 7, nl_pid := 4242\<rparr>, [])"]
    by fastforce
  have "rs = butlast rs @ [last rs]" using c(2) by simp
  then have "ec = 0" using c(3) ack_kernel_code by metis
  with c(1) show ?thesis 
    by (simp add: tun_configure_def with_link_def nl_open_def good_socket_def nl_init_def idx)
qed

lemma example_started: "\<exists>r. daemon_setup example_env [''cfd'', ''--config'', ''a''] = Some (Started r)"
proof -
  have args: "main_args [''cfd'', ''--config'', ''a''] = ArgRun ''a'' False 3"
    by (simp add: main_args_def arg_loop.simps)
  have wf: "config_wf example_config"
    using load_from_file_wf [OF letter_sizes config_init_wf example_load] .
  have cidrs: "wf_cidr (tun_local example_config)" "wf_cidr (hd (routed_cidrs example_config))"
    using wf by (simp_all add: config_wf_def example_config_def)
  have "length (tun_dev_name (tun_init\<lparr>tun_fd := 5, tun_dev_name := ''cfd0''\<rparr>)) < IFNAMSIZ" by (simp add: IFNAMSIZ_def)
  from example_configure [OF this cidrs] obtain rs cl where cfgd: "tun_configure True ack_kernel good_socket (\<lambda>_. Inr 3)
      (tun_init\<lparr>tun_fd := 5, tun_dev_name := ''cfd0''\<rparr>) (tun_local example_config) (hd (routed_cidrs example_config)) = Some (0, rs, cl)"
    by (elim exE)
  have dev: "tun_open (Inr 5) (\<lambda>_ _ n. Inr n) (tun_name example_config) tun_init
      = (0, tun_init\<lparr>tun_fd := 5, tun_dev_name := ''cfd0''\<rparr>, [])" by code_simp
  have "uuid_canonical (tunnel_id example_config)" by code_simp
  moreover have "length (tunnel_uuid register_request_init) = 16" by (simp add: register_request_init_def)
  ultimately obtain uuid where uuid: "parse_uuid (tunnel_id example_config) (tunnel_uuid register_request_init) = Inr (True, uuid)"
    using parse_uuid_spec [of "tunnel_uuid register_request_init" "tunnel_id example_config"] by auto
  have secret: "base64_decode (tunnel_secret_b64 example_config) [] = (True, [])"
    by (simp add: example_config_def config_init_def base64_decode_rest)
  have "\<forall>c \<in> set (routed_cidrs example_config). wf_cidr c" using wf by (simp add: config_wf_def)
  then obtain t where t: "insert_routes router_add_route (map (\<lambda>c. (c, ToTunnel)) (routed_cidrs example_config)) lpm_empty = Some t"
    by (rule add_routes_trie)
  have rest: "routed_cidrs example_config \<noteq> []" "tl (routed_cidrs example_config) = []"
    by (simp_all add: example_config_def)
  have env: "de_pton example_env = letter_pton" "de_open example_env = Inr 5" "de_tunsetiff example_env = (\<lambda>_ _ n. Inr n)"
    "de_le example_env = True" "de_kernel example_env = (\<lambda>_. ack_kernel)" "de_sock example_env = (\<lambda>_. good_socket)"
    "de_ifindex example_env = (\<lambda>_. Inr 3)" by (simp_all add: example_env_def)
  show ?thesis
    unfolding daemon_setup_def
    by (simp add: args example_load env dev cfgd rest uuid secret t)
qed

lemma arg_loop_exit: "arg_loop argv p v i = ArgExit n \<Longrightarrow> n = 0 \<or> n = 2"
proof (induction argv p v i rule: arg_loop.induct)
  case (1 argv p v i)
  show ?case
    using "1.prems" "1.IH"(1) [of "argv ! i"] "1.IH"(2) [of "argv ! i"]
    by (subst (asm) (1) arg_loop.simps) (auto simp: Let_def split: if_splits)
qed

lemma main_args_exit: "main_args argv = ArgExit n \<Longrightarrow> n = 0 \<or> n = 2"
  using arg_loop_exit by (auto simp: main_args_def split: arg_result.splits if_splits)

section \<open>Properties\<close>

text \<open>
  C34: every connection registers with the same index: whatever the command line, the index each thread sends is
  the number of arguments, not the thread's own number.
\<close>

theorem connections_share_index:
  assumes "main_args argv = ArgRun path verbose i" and "argv \<noteq> []" and "rn_argi r = i"
  shows "conn_index (thread_request r j) = of_nat (length argv) \<and>
     conn_index (thread_request r j) = conn_index (thread_request r k)"
proof -
  have "arg_loop argv [] False 1 = ArgRun path verbose i"
    using assms(1) by (auto simp: main_args_def split: arg_result.splits if_splits)
  moreover have "1 \<le> length argv" using assms(2) by (cases argv) auto
  ultimately have "i = length argv" by (rule arg_loop_end)
  then show ?thesis using assms(3) by (simp add: thread_request_def)
qed

lemma connections_share_index_witness:
  "conn_index (thread_request \<lparr>rn_config = config_init, rn_template = register_request_init, rn_clients = [],
     rn_routes = lpm_empty, rn_argi = 3, rn_log = log_init\<rparr> 0) = 3"
proof -
  have "main_args [''cfd'', ''--config'', ''a''] = ArgRun ''a'' False 3"
    by (simp add: main_args_def arg_loop.simps)
  from connections_share_index [OF this, of "\<lparr>rn_config = config_init, rn_template = register_request_init,
     rn_clients = [], rn_routes = lpm_empty, rn_argi = 3, rn_log = log_init\<rparr>" 0 1] show ?thesis by simp
qed

text \<open>
  C17: the daemon starts only with valid settings: when start-up gets through, the configuration is well formed, the
  tunnel id is a canonical UUID and the template carries its sixteen bytes, the secret is the decoded base64 text,
  there are exactly four idle clients, each for an address of the edge (or its host name), and the routing
  table sends exactly the destinations inside a configured route to the tunnel.
\<close>

theorem daemon_starts_sound:
  assumes "daemon_setup env argv = Some (Started r)" and "inet_pton_sizes (de_pton env)"
  shows "config_wf (rn_config r) \<and> uuid_canonical (tunnel_id (rn_config r)) \<and>
     length (tunnel_uuid (rn_template r)) = 16 \<and>
     (True, tunnel_secret (auth (rn_template r))) = base64_decode (tunnel_secret_b64 (rn_config r)) [] \<and>
     length (rn_clients r) = kNumHaConns \<and> (\<forall>c \<in> set (rn_clients r). quic_idle c) \<and>
     trie_wf (rn_routes r) \<and>
     (to_tunnel (rn_routes r) p \<longleftrightarrow>
        (\<exists>d. packet_dst p = Some d \<and> (\<exists>c \<in> set (routed_cidrs (rn_config r)). cidr_matches c d)))"
proof -
  from assms(1) obtain path verbose i cfg err uuid secret routes where
    load: "load_from_file (de_pton env) path (de_file env) config_init [] = (True, cfg, err)"
    and uuid: "parse_uuid (tunnel_id cfg) (tunnel_uuid register_request_init) = Inr (True, uuid)"
    and secret: "base64_decode (tunnel_secret_b64 cfg) [] = (True, secret)"
    and routes: "insert_routes router_add_route (map (\<lambda>c. (c, ToTunnel)) (routed_cidrs cfg)) lpm_empty = Some routes"
    and r: "r = \<lparr>rn_config = cfg, rn_template = request_template cfg uuid secret,
       rn_clients = map (\<lambda>ip. set_handler True (client_init (client_config cfg ip)))
         (resolve_edge_ips (de_dns env (edge_host cfg)) (edge_host cfg) kNumHaConns),
       rn_routes = routes, rn_argi = i,
       rn_log = set_level (if verbose then Debug else Info) log_init\<rparr>"
    by (rule daemon_setup_started)
  have wf: "config_wf cfg" by (rule load_from_file_wf [OF assms(2) config_init_wf load])
  have "length (tunnel_uuid register_request_init) = 16" by (simp add: register_request_init_def)
  from parse_uuid_spec [OF this, of "tunnel_id cfg"] uuid
  have id: "uuid_canonical (tunnel_id cfg)" "length uuid = 16" by auto
  have "\<forall>c \<in> set (routed_cidrs cfg). wf_cidr c" using wf by (simp add: config_wf_def)
  note tunnel_routes_to_tunnel [OF this routes, of p]
  then show ?thesis
    using wf id secret
    by (simp add: r request_template_def register_request_init_def quic_idle_def client_init_def set_handler_def)
qed

lemma daemon_starts_sound_witness:
  "\<exists>r. daemon_setup example_env [''cfd'', ''--config'', ''a''] = Some (Started r) \<and> trie_wf (rn_routes r)"
proof -
  obtain r where r: "daemon_setup example_env [''cfd'', ''--config'', ''a''] = Some (Started r)"
    using example_started by blast
  have "inet_pton_sizes (de_pton example_env)" using letter_sizes by (simp add: example_env_def)
  from daemon_starts_sound [OF r this] r show ?thesis by blast
qed

text \<open>
  Start-up ends the process with code 0 for a help request and 2 for a usage error, and with 1 for every
  failure after the command line was accepted.
\<close>

theorem daemon_exit_codes:
  assumes "daemon_setup env argv = Some (Exit n)"
  shows "(main_args argv = ArgExit n \<and> n \<in> {0, 2}) \<or>
     ((\<exists>path verbose i. main_args argv = ArgRun path verbose i) \<and> n = 1)"
proof (cases "main_args argv")
  case (ArgExit k)
  then show ?thesis using assms main_args_exit [OF ArgExit] by (simp add: daemon_setup_def)
next
  case (ArgRun path verbose i)
  then show ?thesis
    using assms unfolding daemon_setup_def
    by (auto simp: Let_def split: prod.splits if_splits bind_splits sum.splits)
qed

lemma daemon_exit_codes_witness:
  "daemon_setup example_env [''cfd''] = Some (Exit 2) \<and> main_args [''cfd''] = ArgExit 2"
proof -
  have "daemon_setup example_env [''cfd''] = Some (Exit 2)"
    by (simp add: daemon_setup_def main_args_def arg_loop.simps)
  from daemon_exit_codes [OF this] this show ?thesis by auto
qed

text \<open>
  A daemon that started without \<^verbatim>\<open>--verbose\<close> writes the messages of level INFO and above, with it those of level
  DEBUG too, and no others: the threshold is set before anything is logged.
\<close>

theorem daemon_log_level:
  assumes "daemon_setup env argv = Some (Started r)"
  shows "\<exists>path verbose i. main_args argv = ArgRun path verbose i \<and>
     stderr_lines (log_all calls (rn_log r)) = map (\<lambda>(stamp, lvl, file, line, msg). log_line stamp lvl file line msg)
       (filter (\<lambda>(stamp, lvl, file, line, msg). (if verbose then Debug else Info) \<le> lvl) calls)"
proof -
  from assms obtain path verbose i where args: "main_args argv = ArgRun path verbose i"
    and r: "rn_log r = set_level (if verbose then Debug else Info) log_init"
    by (rule daemon_setup_started) simp
  from log_all_lines [of calls "rn_log r"] show ?thesis
    by (intro exI [of _ path] exI [of _ verbose] exI [of _ i]) (simp add: args r set_level_def log_init_def)
qed

lemma daemon_log_level_witness:
  "\<exists>r. daemon_setup example_env [''cfd'', ''--config'', ''a''] = Some (Started r) \<and>
     stderr_lines (log_all [(''now'', Debug, ''src/main.cpp'', 9, ''x'')] (rn_log r)) = []"
proof -
  obtain r where r: "daemon_setup example_env [''cfd'', ''--config'', ''a''] = Some (Started r)"
    using example_started by blast
  have "main_args [''cfd'', ''--config'', ''a''] = ArgRun ''a'' False 3"
    by (simp add: main_args_def arg_loop.simps)
  with daemon_log_level [OF r, of "[(''now'', Debug, ''src/main.cpp'', 9, ''x'')]"] r show ?thesis
    by (auto simp: less_eq_level_def level_code_def)
qed

text \<open>
  The connections are spread over the addresses found, in rotation: entry \<open>i\<close> of the list is found address
  \<open>i mod n\<close>; without any usable address every connection uses the host name.
\<close>

theorem edge_addresses_rotate:
  assumes "i < want"
  shows "resolve_edge_ips dns host want ! i =
     (let found = (case dns of None \<Rightarrow> [] | Some as \<Rightarrow> filter (\<lambda>a. a \<noteq> []) as) in
      if found = [] then host else found ! (i mod length found)) \<and>
     length (resolve_edge_ips dns host want) = want"
  using assms by (simp add: resolve_edge_ips_def Let_def)

lemma edge_addresses_rotate_witness:
  "resolve_edge_ips (Some [''a'', [], ''b'']) ''h'' 4 ! 3 = ''b''"
proof -
  have m: "(3 :: nat) mod Suc (Suc 0) = Suc 0" by code_simp
  show ?thesis
    using edge_addresses_rotate [of 3 4 "Some [''a'', [], ''b'']" "''h''"] by (simp add: m Let_def)
qed

end
