(* ===== verification/Data_Plane.thy ===== *)
theory Data_Plane
  imports Daemon
begin

text \<open>
  The two directions of the running daemon put together, as \<^verbatim>\<open>main\<close> of \<^verbatim>\<open>src/main.cpp\<close> wires them: the router's
  reader thread hands packets to the round-robin sink over the QUIC clients, and the inbound handler of every
  client writes what it receives to the TUN device through the router.
\<close>

section \<open>Definitions\<close>

text \<open>
  Outbound: the reader loop of the daemon's router over the answers of \<^verbatim>\<open>poll\<close> and \<^verbatim>\<open>read\<close>, with the packets given
  to the sink one by one. \<open>accepts\<close> is the connection's answer to each datagram.
\<close>

definition daemon_outbound ::
  "(u8 list \<Rightarrow> client \<Rightarrow> bool) \<Rightarrow> running \<Rightarrow> (bool \<times> poll_result \<times> read_result) list \<Rightarrow>
   'w::len multi_sink \<Rightarrow> 'w multi_sink option" where
  "daemon_outbound accepts r evs sink =
     map_option (\<lambda>(st, ps). fold (multi_on_packet accepts) ps sink) (tun_reader_loop (rn_routes r) True evs)"

text \<open>
  Inbound: the datagrams of one connection in the order of their events; what the handler is called with goes
  to \<open>inject_from_tunnel\<close> at once.
\<close>

fun daemon_inbound :: "bool \<Rightarrow> u8 list list \<Rightarrow> client \<Rightarrow> u8 list list \<Rightarrow> u8 list list" where
  "daemon_inbound has_tun [] c written = written"
| "daemon_inbound has_tun (d # ds) c written =
     (let c' = on_conn_event (DatagramReceived d) c;
          calls = drop (length (inbound c)) (inbound c')
      in daemon_inbound has_tun ds c' (fold (inject_from_tunnel has_tun) calls written))"

subsection \<open>Specification\<close>

text \<open>A destination inside a configured route, and the IP packet a datagram carries.\<close>

definition routed :: "cidr list \<Rightarrow> u8 list \<Rightarrow> bool" where
  "routed rs p \<longleftrightarrow> (case packet_dst p of None \<Rightarrow> False | Some d \<Rightarrow> \<exists>c \<in> set rs. cidr_matches c d)"

definition datagram_packet :: "u8 list \<Rightarrow> u8 list option" where
  "datagram_packet d = (if 4 \<le> length d \<and> d ! 0 = 3 \<and> d ! 1 = 1 then Some (drop 4 d) else None)"

definition client_up :: "client \<Rightarrow> bool" where
  "client_up c \<longleftrightarrow> h_connection c \<noteq> None \<and> handshake_ok c"

text \<open>For the witness: an IPv4 packet to \<^verbatim>\<open>10.99.1.2\<close> and a client with its connection up.\<close>

definition example_packet :: "u8 list" where
  "example_packet = [0x45] @ replicate 15 0 @ [10, 99, 1, 2]"

definition example_up :: client where
  "example_up = (client_init quic_config_init)\<lparr>h_connection := Some (0, HConnection), handshake_ok := True\<rparr>"

section \<open>Lemmas\<close>

lemma started_routes:
  assumes "daemon_setup env argv = Some (Started r)" "inet_pton_sizes (de_pton env)"
  shows "trie_wf (rn_routes r) \<and> to_tunnel (rn_routes r) = routed (routed_cidrs (rn_config r))"
proof -
  from assms(1) obtain path verbose i cfg err uuid secret routes where
    load: "load_from_file (de_pton env) path (de_file env) config_init [] = (True, cfg, err)"
    and routes: "insert_routes router_add_route (map (\<lambda>c. (c, ToTunnel)) (routed_cidrs cfg)) lpm_empty = Some routes"
    and r: "rn_config r = cfg" "rn_routes r = routes"
    by (rule daemon_setup_started) simp
  have "config_wf cfg" by (rule load_from_file_wf [OF assms(2) config_init_wf load])
  then have "\<forall>c \<in> set (routed_cidrs cfg). wf_cidr c" by (simp add: config_wf_def)
  note * = tunnel_routes_to_tunnel [OF this routes]
  have "to_tunnel routes p = routed (routed_cidrs cfg) p" for p
    using * [of p] by (auto simp: routed_def split: option.split)
  then show ?thesis using * r by (auto intro: ext)
qed

lemma multi_sends_up:
  assumes "ms_sinks s \<noteq> []" "\<forall>c \<in> set (ms_sinks s). client_up c"
  shows "ms_sent (multi_on_packet (\<lambda>_ _. True) p s) = ms_sent s @ [p] \<and>
     ms_sinks (multi_on_packet (\<lambda>_ _. True) p s) \<noteq> [] \<and>
     (\<forall>c \<in> set (ms_sinks (multi_on_packet (\<lambda>_ _. True) p s)). client_up c)"
proof -
  let ?i = "unat (ms_next s) mod length (ms_sinks s)"
  have up: "client_up (ms_sinks s ! ?i)" using assms idx_in nth_mem by blast
  then have "client_up (quic_on_packet (\<lambda>_ _. True) p (ms_sinks s ! ?i))"
    by (auto simp: quic_on_packet_def send_packet_def client_up_def Let_def split_beta)
  then have "\<forall>c \<in> set ((ms_sinks s)[?i := quic_on_packet (\<lambda>_ _. True) p (ms_sinks s ! ?i)]). client_up c"
    using assms(2) set_update_subset_insert by fastforce
  then show ?thesis using assms(1) up
    by (simp add: multi_on_packet_def Let_def packets_sent_drop client_up_def)
qed

lemma multi_sends_all:
  assumes "ms_sinks s \<noteq> []" "\<forall>c \<in> set (ms_sinks s). client_up c"
  shows "ms_sent (fold (multi_on_packet (\<lambda>_ _. True)) ps s) = ms_sent s @ ps"
  using assms
proof (induction ps arbitrary: s)
  case (Cons p ps)
  from multi_sends_up [OF Cons.prems, of p] show ?case using Cons.IH by simp
qed simp

lemma datagram_event:
  assumes "has_handler c"
  shows "\<exists>c'. on_conn_event (DatagramReceived d) c = c' \<and> has_handler c' \<and>
     drop (length (inbound c)) (inbound c') = (case datagram_packet d of None \<Rightarrow> [] | Some p \<Rightarrow> [p])"
proof (cases rule: header_cases [of d])
  case 1
  then show ?thesis using assms by (simp add: deliver_inbound_def frame_decode_short datagram_packet_def)
next
  case (2 v t hi lo p)
  then show ?thesis using assms
    by (auto simp: deliver_inbound_def frame_decode_header datagram_packet_def IpPacket_def kFrameVersion_def)
qed

lemma inject_all: "fold (inject_from_tunnel True) ps written = written @ ps"
  by (induction ps arbitrary: written) (simp_all add: inject_from_tunnel_def)

lemma inbound_all:
  "has_handler c \<Longrightarrow> daemon_inbound True ds c written = written @ List.map_filter datagram_packet ds"
proof (induction ds arbitrary: c written)
  case (Cons d ds)
  from datagram_event [OF Cons.prems, of d] obtain c' where c': "on_conn_event (DatagramReceived d) c = c'"
    "has_handler c'" "drop (length (inbound c)) (inbound c') = (case datagram_packet d of None \<Rightarrow> [] | Some p \<Rightarrow> [p])"
    by blast
  show ?case using Cons.IH [OF c'(2)] c'(1,3)
    by (simp add: Let_def inject_all map_filter_simps split: option.split)
qed (simp add: map_filter_simps)

end
