(* ===== verification/Edge_Ca.thy ===== *)
theory Edge_Ca
  imports Registration
begin

text \<open>
  The certificates embedded in \<^verbatim>\<open>include/cfd/cloudflare_ca.hpp\<close>, with which the client verifies the edge. The code
  only hands the text on (\<open>Quic_Client.embedded_ca_path\<close> and the file msquic reads); what it relies on, that the text is a PEM
  bundle of whole base64-encoded DER sequences, is read off it here, with \<open>base64_decode\<close> of \<open>Registration\<close>.
\<close>

section \<open>Definitions\<close>

definition ca_lines :: "string list" where
  "ca_lines =
   [''-----BEGIN CERTIFICATE-----'',
    ''MIICiTCCAi6gAwIBAgIUXZP3MWb8MKwBE1Qbawsp1sfA/Y4wCgYIKoZIzj0EAwIw'',
    ''gY8xCzAJBgNVBAYTAlVTMRMwEQYDVQQIEwpDYWxpZm9ybmlhMRYwFAYDVQQHEw1T'',
    ''YW4gRnJhbmNpc2NvMRkwFwYDVQQKExBDbG91ZEZsYXJlLCBJbmMuMTgwNgYDVQQL'',
    ''Ey9DbG91ZEZsYXJlIE9yaWdpbiBTU0wgRUNDIENlcnRpZmljYXRlIEF1dGhvcml0'',
    ''eTAeFw0xOTA4MjMyMTA4MDBaFw0yOTA4MTUxNzAwMDBaMIGPMQswCQYDVQQGEwJV'',
    ''UzETMBEGA1UECBMKQ2FsaWZvcm5pYTEWMBQGA1UEBxMNU2FuIEZyYW5jaXNjbzEZ'',
    ''MBcGA1UEChMQQ2xvdWRGbGFyZSwgSW5jLjE4MDYGA1UECxMvQ2xvdWRGbGFyZSBP'',
    ''cmlnaW4gU1NMIEVDQyBDZXJ0aWZpY2F0ZSBBdXRob3JpdHkwWTATBgcqhkjOPQIB'',
    ''BggqhkjOPQMBBwNCAASR+sGALuaGshnUbcxKry+0LEXZ4NY6JUAtSeA6g87K3jaA'',
    ''xpIg9G50PokpfWkhbarLfpcZu0UAoYy2su0EhN7wo2YwZDAOBgNVHQ8BAf8EBAMC'',
    ''AQYwEgYDVR0TAQH/BAgwBgEB/wIBAjAdBgNVHQ4EFgQUhTBdOypw1O3VkmcH/es5'',
    ''tBoOOKcwHwYDVR0jBBgwFoAUhTBdOypw1O3VkmcH/es5tBoOOKcwCgYIKoZIzj0E'',
    ''AwIDSQAwRgIhAKilfntP2ILGZjwajktkBtXE1pB4Y/fjAfLkIRUzrI15AiEA5UCL'',
    ''XYZZ9m2c3fKwIenMMojL1eqydsgqj/wK4p5kagQ='',
    ''-----END CERTIFICATE-----'',
    ''-----BEGIN CERTIFICATE-----'',
    ''MIIEADCCAuigAwIBAgIID+rOSdTGfGcwDQYJKoZIhvcNAQELBQAwgYsxCzAJBgNV'',
    ''BAYTAlVTMRkwFwYDVQQKExBDbG91ZEZsYXJlLCBJbmMuMTQwMgYDVQQLEytDbG91'',
    ''ZEZsYXJlIE9yaWdpbiBTU0wgQ2VydGlmaWNhdGUgQXV0aG9yaXR5MRYwFAYDVQQH'',
    ''Ew1TYW4gRnJhbmNpc2NvMRMwEQYDVQQIEwpDYWxpZm9ybmlhMB4XDTE5MDgyMzIx'',
    ''MDgwMFoXDTI5MDgxNTE3MDAwMFowgYsxCzAJBgNVBAYTAlVTMRkwFwYDVQQKExBD'',
    ''bG91ZEZsYXJlLCBJbmMuMTQwMgYDVQQLEytDbG91ZEZsYXJlIE9yaWdpbiBTU0wg'',
    ''Q2VydGlmaWNhdGUgQXV0aG9yaXR5MRYwFAYDVQQHEw1TYW4gRnJhbmNpc2NvMRMw'',
    ''EQYDVQQIEwpDYWxpZm9ybmlhMIIBIjANBgkqhkiG9w0BAQEFAAOCAQ8AMIIBCgKC'',
    ''AQEAwEiVZ/UoQpHmFsHvk5isBxRehukP8DG9JhFev3WZtG76WoTthvLJFRKFCHXm'',
    ''V6Z5/66Z4S09mgsUuFwvJzMnE6Ej6yIsYNCb9r9QORa8BdhrkNn6kdTly3mdnykb'',
    ''OomnwbUfLlExVgNdlP0XoRoeMwbQ4598foiHblO2B/LKuNfJzAMfS7oZe34b+vLB'',
    ''yrP/1bgCSLdc1AxQc1AC0EsQQhgcyTJNgnG4va1c7ogPlwKyhbDyZ4e59N5lbYPJ'',
    ''SmXI/cAe3jXj1FBLJZkwnoDKe0v13xeF+nF32smSH0qB7aJX2tBMW4TWtFPmzs5I'',
    ''lwrFSySWAdwYdgxw180yKU0dvwIDAQABo2YwZDAOBgNVHQ8BAf8EBAMCAQYwEgYD'',
    ''VR0TAQH/BAgwBgEB/wIBAjAdBgNVHQ4EFgQUJOhTV118NECHqeuU27rhFnj8KaQw'',
    ''HwYDVR0jBBgwFoAUJOhTV118NECHqeuU27rhFnj8KaQwDQYJKoZIhvcNAQELBQAD'',
    ''ggEBAHwOf9Ur1l0Ar5vFE6PNrZWrDfQIMyEfdgSKofCdTckbqXNTiXdgbHs+TWoQ'',
    ''wAB0pfJDAHJDXOTCWRyTeXOseeOi5Btj5CnEuw3P0oXqdqevM1/+uWp0CM35zgZ8'',
    ''VD4aITxity0djzE6Qnx3Syzz+ZkoBgTnNum7d9A66/V636x4vTeqbZFBr9erJzgz'',
    ''hhurjcoacvRNhnjtDRM0dPeiCJ50CP3wEYuvUzDHUaowOsnLCjQIkWbR7Ni6KEIk'',
    ''MOz2U0OBSif3FTkhCgZWQKOOLo1P42jHC3ssUZAtVNXrCk3fw9/E15k8NPkBazZ6'',
    ''0iykLhH1trywrKRMVw67F44IE8Y='',
    ''-----END CERTIFICATE-----'']"

definition kCloudflareCAPem :: string where
  "kCloudflareCAPem = CHR 0x0A # concat (map (\<lambda>l. l @ [CHR 0x0A]) ca_lines)"

subsection \<open>Specification\<close>

text \<open>The blocks of a PEM text: what stands between a \<^verbatim>\<open>BEGIN\<close> and the next \<^verbatim>\<open>END\<close> line.\<close>

fun text_lines :: "string \<Rightarrow> string \<Rightarrow> string list" where
  "text_lines l [] = [l]"
| "text_lines l (c # cs) = (if c = CHR 0x0A then l # text_lines [] cs else text_lines (l @ [c]) cs)"

fun pem_blocks :: "string option \<Rightarrow> string list \<Rightarrow> string list option" where
  "pem_blocks None [] = Some []"
| "pem_blocks (Some b) [] = None"
| "pem_blocks None (l # ls) = pem_blocks (if l = ''-----BEGIN CERTIFICATE-----'' then Some [] else None) ls"
| "pem_blocks (Some b) (l # ls) =
     (if l = ''-----END CERTIFICATE-----'' then map_option ((#) b) (pem_blocks None ls) else pem_blocks (Some (b @ l)) ls)"

text \<open>A DER length, in the short form or in one or two further bytes, and what follows it.\<close>

fun der_length :: "u8 list \<Rightarrow> (nat \<times> u8 list) option" where
  "der_length [] = None"
| "der_length (l # r) =
     (if l < 0x80 then Some (unat l, r)
      else case r of
        a # b # r' \<Rightarrow> if l = 0x81 then Some (unat a, b # r') else if l = 0x82 then Some (256 * unat a + unat b, r') else None
      | _ \<Rightarrow> None)"

text \<open>A DER sequence that ends where the bytes do.\<close>

definition whole_sequence :: "u8 list \<Rightarrow> bool" where
  "whole_sequence d \<longleftrightarrow>
     (case d of [] \<Rightarrow> False
      | t # r \<Rightarrow> t = 0x30 \<and> (case der_length r of None \<Rightarrow> False | Some (n, r') \<Rightarrow> length r' = n))"

text \<open>The lines of a body joined, and the base64 alphabet decided on the bits of a character.\<close>

definition ca_body :: "nat \<Rightarrow> nat \<Rightarrow> string" where
  "ca_body i n = concat (take n (drop i ca_lines))"

fun alphabet_bits :: "char \<Rightarrow> bool" where
  "alphabet_bits (Char b0 b1 b2 b3 b4 b5 b6 b7) \<longleftrightarrow> \<not> b7 \<and>
     (if b6 then (b0 \<or> b1 \<or> b2 \<or> b3 \<or> b4) \<and> \<not> (b4 \<and> b3 \<and> (b2 \<or> b1 \<and> b0))
      else b5 \<and> (if b4 then \<not> b3 \<or> \<not> b2 \<and> \<not> b1 else b3 \<and> b1 \<and> b0))"

section \<open>Lemmas\<close>

lemma text_lines_line: "CHR 0x0A \<notin> set l \<Longrightarrow> text_lines l0 (l @ CHR 0x0A # r) = (l0 @ l) # text_lines [] r"
  by (induction l arbitrary: l0) auto

lemma text_lines_concat:
  "\<forall>l \<in> set ls. CHR 0x0A \<notin> set l \<Longrightarrow> text_lines [] (concat (map (\<lambda>l. l @ [CHR 0x0A]) ls)) = ls @ [[]]"
  by (induction ls) (simp_all add: text_lines_line)

lemma ca_text_lines: "text_lines [] kCloudflareCAPem = [] # ca_lines @ [[]]"
proof -
  have "list_all (\<lambda>l. list_all (\<lambda>c. c \<noteq> CHR 0x0A) l) ca_lines" by code_simp
  then have "\<forall>l \<in> set ca_lines. CHR 0x0A \<notin> set l" by (auto simp: list_all_iff)
  then show ?thesis by (simp add: kCloudflareCAPem_def text_lines_concat)
qed

lemma ca_blocks: "pem_blocks None (text_lines [] kCloudflareCAPem) = Some [ca_body 1 14, ca_body 17 22]"
  unfolding ca_text_lines by code_simp

lemma alphabet_bits: "alphabet_bits c \<Longrightarrow> c \<in> set b64_alphabet"
proof (cases c)
  case (Char b0 b1 b2 b3 b4 b5 b6 b7)
  then show "alphabet_bits c \<Longrightarrow> c \<in> set b64_alphabet"
    by (cases b0; cases b1; cases b2; cases b3; cases b4; cases b5; cases b6; simp add: b64_alphabet_def)
qed

text \<open>Eight characters decode to the header; the rest of a text of the grammar has the length the decoder's output says.\<close>

lemma block_sequence:
  assumes "length t mod 4 = 0" "t \<noteq> []" "list_all alphabet_bits (tl (rev t))" "hd (rev t) = CHR ''=''"
    and q1: "b64_quartet False 0 [a, b, c, e] [] = Some v1" "b64_emit v1 = [0x30, 0x82, x]"
    and q2: "b64_quartet False 0 [a', b', c', e'] [] = Some v2" "b64_emit v2 = [y, u, w]"
    and len: "4 * (256 * unat x + unat y) + 4 = 3 * length t + 8"
  shows "\<exists>bs. base64_decode (a # b # c # e # a' # b' # c' # e' # t) [] = (True, bs) \<and> whole_sequence bs"
proof -
  have f: "b64_rest (a # b # c # e # a' # b' # c' # e' # t) [] = b64_rest t [0x30, 0x82, x, y, u, w]"
    using q1 q2 assms(2) by (simp del: b64_quartet.simps)
  have t: "t = butlast t @ replicate 1 (CHR ''='')" 
    using append_butlast_last_id [OF assms(2), symmetric] assms(4) by (simp add: hd_rev)
  have d: "set (butlast t) \<subseteq> set b64_alphabet" 
    using assms(3) alphabet_bits butlast_rev [of "rev t"] by (auto simp: list_all_iff)
  have "padded_text t" unfolding padded_text_def
    by (rule exI [of _ 1], intro conjI exI [of _ "butlast t"]) (use t d in simp_all)
  then have "fst (b64_rest t [0x30, 0x82, x, y, u, w])" using b64_rest_accept [OF assms(1)] by simp
  then obtain bs where bs: "b64_rest t [0x30, 0x82, x, y, u, w] = (True, bs)"
    by (cases "b64_rest t [0x30, 0x82, x, y, u, w]") simp
  have "CHR ''='' \<notin> set b64_alphabet" by code_simp
  then have "b64_pad (butlast t) = 0" using d by (auto simp: b64_pad_def filter_empty_conv)
  then have pad: "b64_pad t = 1" by (subst t) (simp add: b64_pad_def)
  from b64_rest_length [OF bs assms(1)] obtain ds where
    ds: "bs = [0x30, 0x82, x, y, u, w] @ ds" "4 * length ds + 4 * 1 = 3 * length t"
    unfolding pad by blast
  then have "whole_sequence bs" using len by (simp add: whole_sequence_def)
  moreover have "(8 + length t) mod 4 = 0" using assms(1) by presburger
  then have "base64_decode (a # b # c # e # a' # b' # c' # e' # t) [] = (True, bs)"
    using bs f by (simp add: base64_decode_rest del: b64_rest.simps)
  ultimately show ?thesis by blast
qed

lemma first_block: "\<exists>bs. base64_decode (ca_body 1 14) [] = (True, bs) \<and> whole_sequence bs"
proof -
  let ?t = "drop 8 (ca_body 1 14)"
  have "ca_body 1 14 = ''MIICiTCC'' @ ?t" by code_simp
  moreover have "\<exists>bs. base64_decode (''MIICiTCC'' @ ?t) [] = (True, bs) \<and> whole_sequence bs"
    unfolding append.simps
    by (rule block_sequence [where x = 2 and y = 137 and u = 48 and w = 130 and ?v1.0 = "[12, 8, 8, 2]" and ?v2.0 = "[34, 19, 2, 2]"])
      code_simp+
  ultimately show ?thesis by simp
qed

lemma second_block: "\<exists>bs. base64_decode (ca_body 17 22) [] = (True, bs) \<and> whole_sequence bs"
proof -
  let ?t = "drop 8 (ca_body 17 22)"
  have "ca_body 17 22 = ''MIIEADCC'' @ ?t" by code_simp
  moreover have "\<exists>bs. base64_decode (''MIIEADCC'' @ ?t) [] = (True, bs) \<and> whole_sequence bs"
    unfolding append.simps
    by (rule block_sequence [where x = 4 and y = 0 and u = 48 and w = 130 and ?v1.0 = "[12, 8, 8, 4]" and ?v2.0 = "[0, 3, 2, 2]"])
      code_simp+
  ultimately show ?thesis by simp
qed

section \<open>Properties\<close>

text \<open>
  The embedded text is a PEM bundle of exactly two certificates; the program's own base64 decoder accepts the body of
  each, and yields a DER sequence that announces exactly the bytes that are there, so neither body is truncated or overlong.
\<close>

theorem embedded_bundle_whole:
  "\<exists>b1 b2 d1 d2. pem_blocks None (text_lines [] kCloudflareCAPem) = Some [b1, b2] \<and>
     base64_decode b1 [] = (True, d1) \<and> whole_sequence d1 \<and> base64_decode b2 [] = (True, d2) \<and> whole_sequence d2"
  using ca_blocks first_block second_block by blast

end
