(* ===== verification/Fuzz.thy ===== *)
theory Fuzz
  imports Lpm_Trie Frame Registration "HOL-Library.Monad_Syntax"
begin

text \<open>
  The fuzz targets \<^verbatim>\<open>fuzz/fuzz_frame.cpp\<close>, \<^verbatim>\<open>fuzz_registration.cpp\<close> and \<^verbatim>\<open>fuzz_cidr.cpp\<close>: what each does with an
  input, as an exit code, or \<open>None\<close> for an access out of bounds, the crash the targets look for.
\<close>

section \<open>Definitions\<close>

definition bytes_text :: "u8 list \<Rightarrow> string" where
  "bytes_text bs = map (\<lambda>b. char_of (unat b)) bs"

definition fuzz_frame :: "u8 list \<Rightarrow> int option" where
  "fuzz_frame input = (case frame_decode input of Inl _ \<Rightarrow> None | Inr _ \<Rightarrow> Some 0)"

definition fuzz_registration :: "u8 list \<Rightarrow> int option" where
  "fuzz_registration input =
     (let (ok, out) = base64_decode (bytes_text input) [] in
      case parse_uuid (bytes_text input) (replicate 16 0) of Inl _ \<Rightarrow> None | Inr _ \<Rightarrow> Some 0)"

definition fuzz_cidr :: "inet_pton_fn \<Rightarrow> u8 list \<Rightarrow> int option" where
  "fuzz_cidr pton input =
     (if length input < 8 then Some 0
      else let mid = length input div 2 in
        case cidr_parse pton (bytes_text (take mid input)) of
          None \<Rightarrow> Some 0
        | Some c \<Rightarrow> do {
            t \<leftarrow> lpm_insert (0 :: int) c 1 lpm_empty;
            b \<leftarrow> arr_get input mid;
            let fam = (if b AND 1 \<noteq> 0 then V6 else V4);
            let copy = (if fam = V4 then 4 else 16);
            let avail = length input - mid - 1;
            src \<leftarrow> sub_bytes input (mid + 1) (min copy avail);
            let prb = ip_addr_init\<lparr>ip_family := fam, ip_bytes := store_front src (ip_bytes ip_addr_init)\<rparr>;
            _ \<leftarrow> lpm_lookup t prb;
            _ \<leftarrow> cidr_contains c prb;
            Some 0
          })"

section \<open>Lemmas\<close>

lemma fuzz_probe_wf:
  assumes "length src \<le> 16"
  shows "wf_ip (ip_addr_init\<lparr>ip_family := fam, ip_bytes := store_front src (ip_bytes ip_addr_init)\<rparr>)"
  using assms by (simp add: wf_ip_def ip_addr_init_def store_front_def)

lemma fuzz_cidr_clean:
  assumes "inet_pton_sizes pton"
  shows "fuzz_cidr pton input = Some 0"
proof (cases "length input < 8 \<or> cidr_parse pton (bytes_text (take (length input div 2) input)) = None")
  case True
  then show ?thesis by (auto simp: fuzz_cidr_def Let_def)
next
  case False
  let ?mid = "length input div 2" and ?b = "input ! (length input div 2)"
  let ?fam = "if ?b AND 1 \<noteq> 0 then V6 else V4"
  let ?n = "min (if ?fam = V4 then 4 else 16) (length input - ?mid - 1)"
  let ?src = "take ?n (drop (?mid + 1) input)"
  let ?p = "ip_addr_init\<lparr>ip_family := ?fam, ip_bytes := store_front ?src (ip_bytes ip_addr_init)\<rparr>"
  obtain c where c: "cidr_parse pton (bytes_text (take ?mid input)) = Some c" using False by auto
  have wf: "wf_cidr c" using cidr_parse_wf [OF assms c] by blast
  obtain t where t: "lpm_insert (0 :: int) c 1 lpm_empty = Some t" "trie_wf t"
    using lpm.insert_ok [OF lpm.invar_empty wf, of "0 :: int" 1] by (elim exE conjE) (rule that)
  have mid: "?mid < length input" using False by auto
  have b: "arr_get input ?mid = Some ?b" using mid by (simp add: arr_get_def)
  have src: "sub_bytes input (?mid + 1) ?n = Some ?src" using mid by (simp add: sub_bytes_def)
  have p: "wf_ip ?p" by (rule fuzz_probe_wf) (simp add: min_def)
  have look: "\<exists>r. lpm_lookup t ?p = Some r" using lpm.lookup_ok [OF t(2) p] by blast
  have cont: "\<exists>r. cidr_contains c ?p = Some r" using cidr_contains_matches [OF wf p] by blast
  have "fuzz_cidr pton input = do { _ \<leftarrow> lpm_lookup t ?p; _ \<leftarrow> cidr_contains c ?p; Some 0 }"
    using False by (simp only: fuzz_cidr_def Let_def c t(1) b src option.case bind.bind_lunit if_False) simp
  with look cont show ?thesis by auto
qed

section \<open>Properties\<close>

text \<open>
  No input makes a fuzz target crash: the frame decoder, the base64 and UUID parsers, and the pipeline from
  the CIDR parser through insertion and lookup in the trie to containment end normally on all byte sequences.
\<close>

theorem fuzz_targets_clean:
  assumes "inet_pton_sizes pton"
  shows "fuzz_frame input = Some 0 \<and> fuzz_registration input = Some 0 \<and> fuzz_cidr pton input = Some 0"
proof -
  have "\<exists>r. frame_decode input = Inr r"
    by (rule header_cases [of input]) (auto simp: frame_decode_short frame_decode_header)
  moreover have "\<exists>r. parse_uuid (bytes_text input) (replicate 16 0) = Inr r"
    using parse_uuid_spec [of "replicate 16 0" "bytes_text input"] by auto
  ultimately show ?thesis
    using fuzz_cidr_clean [OF assms] by (auto simp: fuzz_frame_def fuzz_registration_def split_beta)
qed

lemma fuzz_targets_clean_witness:
  "fuzz_cidr letter_pton (map (\<lambda>c. of_nat (of_char c)) ''AKGDAAAA/16AAAAAAAAAAA'') = Some 0 \<and> fuzz_frame [3, 1] = Some 0"
  using fuzz_targets_clean [OF letter_sizes] by blast

end
