(* ===== verification/Probe.thy ===== *)
theory Probe
  imports Config Quic_Client
begin

text \<open>
  The probe tool \<^verbatim>\<open>src/tools/probe_handshake.cpp\<close>: its command line and its exit codes. \<open>atoi\<close> is the C function
  on values that fit an \<^verbatim>\<open>int\<close>; beyond, where it is undefined, it has no value. The outcome of \<^verbatim>\<open>connect\<close> and
  of the registration are arguments, as functions of the settings the probe passes.
\<close>

section \<open>Definitions\<close>

text \<open>Skipped blanks, an optional sign, digits; no digits give 0.\<close>

definition atoi :: "string \<Rightarrow> int option" where
  "atoi s =
     (let t = dropWhile is_space s;
          neg = (t \<noteq> [] \<and> hd t = CHR ''-'');
          u = (if t \<noteq> [] \<and> hd t \<in> {CHR ''-'', CHR ''+''} then tl t else t);
          n = int (dec_value (takeWhile is_digit u));
          v = (if neg then - n else n)
      in if - (2 ^ 31) \<le> v \<and> v < 2 ^ 31 then Some v else None)"

record probe_opts =
  po_host :: string
  po_port :: u16
  po_alpn :: string
  po_server_name :: string
  po_ca_bundle :: string
  po_cert :: string
  po_key :: string
  po_config :: string
  po_insecure :: bool
  po_register :: bool
  po_timeout :: int

definition probe_defaults :: probe_opts where
  "probe_defaults =
     \<lparr>po_host = [], po_port = 7844, po_alpn = ''argotunnel'', po_server_name = ''quic.cftunnel.com'',
      po_ca_bundle = [], po_cert = [], po_key = [], po_config = [], po_insecure = False, po_register = False,
      po_timeout = 10000\<rparr>"

definition value_flags :: "string set" where
  "value_flags = {''--host'', ''--port'', ''--alpn'', ''--server-name'', ''--ca-bundle'', ''--cert'', ''--key'',
     ''--config'', ''--timeout-ms''}"

text \<open>
  The result of the argument loop: a return from \<^verbatim>\<open>main\<close> with a code, the options, or nothing where \<^verbatim>\<open>atoi\<close> is
  undefined.
\<close>

datatype probe_args = ProbeExit int | ProbeOpts probe_opts | ProbeUndefined

text \<open>An option with a value, and a switch.\<close>

definition set_value :: "string \<Rightarrow> string \<Rightarrow> probe_opts \<Rightarrow> probe_opts option" where
  "set_value flag v os =
     (if flag = ''--host'' then Some (os\<lparr>po_host := v\<rparr>)
      else if flag = ''--port'' then map_option (\<lambda>n. os\<lparr>po_port := word_of_int n\<rparr>) (atoi v)
      else if flag = ''--alpn'' then Some (os\<lparr>po_alpn := v\<rparr>)
      else if flag = ''--server-name'' then Some (os\<lparr>po_server_name := v\<rparr>)
      else if flag = ''--ca-bundle'' then Some (os\<lparr>po_ca_bundle := v\<rparr>)
      else if flag = ''--cert'' then Some (os\<lparr>po_cert := v\<rparr>)
      else if flag = ''--key'' then Some (os\<lparr>po_key := v\<rparr>)
      else if flag = ''--config'' then Some (os\<lparr>po_config := v\<rparr>)
      else map_option (\<lambda>n. os\<lparr>po_timeout := n\<rparr>) (atoi v))"

fun probe_arg_loop :: "string list \<Rightarrow> probe_opts \<Rightarrow> probe_args" where
  "probe_arg_loop [] os = ProbeOpts os"
| "probe_arg_loop [a] os =
     (if a \<in> value_flags then ProbeExit 2
      else if a = ''--insecure'' then ProbeOpts (os\<lparr>po_insecure := True\<rparr>)
      else if a = ''--register'' then ProbeOpts (os\<lparr>po_register := True\<rparr>)
      else if a = ''-h'' \<or> a = ''--help'' then ProbeExit 0
      else ProbeExit 2)"
| "probe_arg_loop (a # v # rest) os =
     (if a \<in> value_flags then
        (case set_value a v os of None \<Rightarrow> ProbeUndefined | Some os' \<Rightarrow> probe_arg_loop rest os')
      else if a = ''--insecure'' then probe_arg_loop (v # rest) (os\<lparr>po_insecure := True\<rparr>)
      else if a = ''--register'' then probe_arg_loop (v # rest) (os\<lparr>po_register := True\<rparr>)
      else if a = ''-h'' \<or> a = ''--help'' then ProbeExit 0
      else ProbeExit 2)"

definition probe_quic_config :: "string \<Rightarrow> probe_opts \<Rightarrow> quic_config" where
  "probe_quic_config host os =
     quic_config_init\<lparr>q_edge_host := host, q_edge_port := po_port os, q_alpn := po_alpn os,
       q_server_name := po_server_name os, q_ca_bundle_path := (if po_insecure os then ''INSECURE'' else po_ca_bundle os),
       q_client_cert_path := po_cert os, q_client_key_path := po_key os\<rparr>"

definition probe_request :: "config \<Rightarrow> u8 list \<Rightarrow> u8 list \<Rightarrow> register_request" where
  "probe_request cfg uuid secret =
     register_request_init\<lparr>tunnel_uuid := uuid,
       auth := \<lparr>Registration.tunnel_auth.account_tag = Config.config.account_tag cfg, tunnel_secret = secret\<rparr>,
       conn_index := 0, version := ''cfd-cpp/0.1.0'', arch := ''linux_amd64'', features := [''quic-datagram-v3'']\<rparr>"

record probe_env =
  pe_file :: "string option"
  pe_pton :: inet_pton_fn
  pe_connect :: "quic_config \<Rightarrow> errc option"
  pe_register :: "register_request \<Rightarrow> int \<Rightarrow> errc option"

text \<open>The registration phase: its exit code if it returns early.\<close>

definition probe_register :: "probe_env \<Rightarrow> config \<Rightarrow> probe_opts \<Rightarrow> int option option" where
  "probe_register env cfg os =
     (case parse_uuid (tunnel_id cfg) (tunnel_uuid register_request_init) of
        Inl _ \<Rightarrow> None
      | Inr (ok, uuid) \<Rightarrow>
          if \<not> ok then Some (Some 1)
          else case base64_decode (tunnel_secret_b64 cfg) [] of
            (ok, secret) \<Rightarrow>
              if \<not> ok then Some (Some 1)
              else if pe_register env (probe_request cfg uuid secret) (po_timeout os) \<noteq> None then Some (Some 1)
              else Some None)"

text \<open>The exit code, with whether the probe connected.\<close>

definition probe_main :: "probe_env \<Rightarrow> string list \<Rightarrow> (int \<times> bool) option" where
  "probe_main env args =
     (case probe_arg_loop args probe_defaults of
        ProbeUndefined \<Rightarrow> None
      | ProbeExit n \<Rightarrow> Some (n, False)
      | ProbeOpts os \<Rightarrow>
          if po_host os = [] \<and> po_config os = [] then Some (2, False)
          else let (ok, cfg, err) = (if po_config os \<noteq> [] then load_from_file (pe_pton env) (po_config os) (pe_file env) config_init []
                                     else (True, config_init, [])) in
            if \<not> ok then Some (2, False)
            else let host = (if po_config os \<noteq> [] \<and> po_host os = [] then edge_host cfg else po_host os) in
              if host = [] then Some (2, False)
              else if pe_connect env (probe_quic_config host os) \<noteq> None then Some (1, False)
              else if po_register os \<and> po_config os \<noteq> [] then
                (case probe_register env cfg os of
                   None \<Rightarrow> None
                 | Some (Some n) \<Rightarrow> Some (n, True)
                 | Some None \<Rightarrow> Some (0, True))
              else Some (0, True))"

section \<open>Lemmas\<close>

lemma probe_arg_loop_exit: "probe_arg_loop args os = ProbeExit n \<Longrightarrow> n = 0 \<or> n = 2"
  by (induction args os rule: probe_arg_loop.induct) (auto split: if_splits option.splits)

lemma parse_uuid_total: "\<exists>r. parse_uuid s (tunnel_uuid register_request_init) = Inr r"
proof -
  have "length (tunnel_uuid register_request_init) = 16" by (simp add: register_request_init_def)
  from parse_uuid_spec [OF this] show ?thesis by blast
qed

lemma probe_register_codes: "probe_register env cfg os = Some (Some n) \<Longrightarrow> n = 1"
  by (auto simp: probe_register_def split: sum.splits prod.splits if_splits)

lemma probe_register_total: "probe_register env cfg os \<noteq> None"
  using parse_uuid_total [of "tunnel_id cfg"] by (auto simp: probe_register_def split: prod.splits)

section \<open>Properties\<close>

text \<open>
  The exit codes of the probe: 0 after a help request or a successful handshake (and registration, if it was
  asked for with a configuration), 1 only after the handshake was tried, 2 only for usage and configuration
  errors before it. The probe never reads out of bounds; only a number beyond the range of \<^verbatim>\<open>int\<close> on its command
  line is undefined.
\<close>

theorem probe_exit_codes:
  assumes "probe_main env args = r"
  shows "(r = None \<longleftrightarrow> probe_arg_loop args probe_defaults = ProbeUndefined) \<and>
     (\<forall>n c. r = Some (n, c) \<longrightarrow> n \<in> {0, 1, 2} \<and> (c \<longrightarrow> n \<noteq> 2) \<and>
        (n = 0 \<and> \<not> c \<longrightarrow> probe_arg_loop args probe_defaults = ProbeExit 0) \<and>
        (n = 1 \<longrightarrow> (\<exists>os host. probe_arg_loop args probe_defaults = ProbeOpts os \<and>
            (c \<longleftrightarrow> pe_connect env (probe_quic_config host os) = None))))"
proof (cases "probe_arg_loop args probe_defaults")
  case (ProbeExit n)
  then show ?thesis using assms probe_arg_loop_exit [OF ProbeExit] by (auto simp: probe_main_def)
next
  case ProbeUndefined
  then show ?thesis using assms by (auto simp: probe_main_def)
next
  case (ProbeOpts os)
  define ld where "ld = (if po_config os \<noteq> [] then load_from_file (pe_pton env) (po_config os) (pe_file env) config_init []
      else (True, config_init, []))"
  obtain ok cfg err where l: "ld = (ok, cfg, err)" by (cases ld)
  define host where "host = (if po_config os \<noteq> [] \<and> po_host os = [] then edge_host cfg else po_host os)"
  have "r = (if po_host os = [] \<and> po_config os = [] then Some (2, False)
          else let (ok, cfg, err) = ld in
            if \<not> ok then Some (2, False)
            else let host = (if po_config os \<noteq> [] \<and> po_host os = [] then edge_host cfg else po_host os) in
              if host = [] then Some (2, False)
              else if pe_connect env (probe_quic_config host os) \<noteq> None then Some (1, False)
              else if po_register os \<and> po_config os \<noteq> [] then
                (case probe_register env cfg os of
                   None \<Rightarrow> None
                 | Some (Some n) \<Rightarrow> Some (n, True)
                 | Some None \<Rightarrow> Some (0, True))
              else Some (0, True))"
    using assms unfolding probe_main_def ProbeOpts probe_args.case ld_def by (rule sym)
  then have r: "r = (if po_host os = [] \<and> po_config os = [] then Some (2, False) else if \<not> ok then Some (2, False)
      else if host = [] then Some (2, False)
      else if pe_connect env (probe_quic_config host os) \<noteq> None then Some (1, False)
      else if po_register os \<and> po_config os \<noteq> [] then
        (case probe_register env cfg os of None \<Rightarrow> None | Some (Some n) \<Rightarrow> Some (n, True) | Some None \<Rightarrow> Some (0, True))
      else Some (0, True))"
    unfolding l Let_def prod.case host_def .
  show ?thesis unfolding ProbeOpts r
    using probe_register_total [of env cfg os] probe_register_codes [of env cfg os]
    by (auto split: option.split)
qed

lemma probe_exit_codes_witness:
  "\<exists>n. probe_main \<lparr>pe_file = None, pe_pton = letter_pton, pe_connect = (\<lambda>_. Some ConnectionAborted),
     pe_register = (\<lambda>_ _. None)\<rparr> [''--host'', ''h''] = Some (n, False) \<and> n \<in> {0, 1, 2}"
proof -
  let ?env = "\<lparr>pe_file = None, pe_pton = letter_pton, pe_connect = (\<lambda>_. Some ConnectionAborted),
     pe_register = (\<lambda>_ _. None)\<rparr>"
  have "probe_main ?env [''--host'', ''h''] = Some (1, False)"
    by (simp add: probe_main_def value_flags_def set_value_def probe_defaults_def)
  from probe_exit_codes [OF this] this show ?thesis by blast
qed

text \<open>
  Numbers on the command line are not checked: a text that does not start like a number is the port 0, and a
  number outside the range of ports wraps modulo 65536; both are accepted.
\<close>

theorem probe_port_unchecked:
  assumes "v = [] \<or> (\<not> is_space (hd v) \<and> \<not> is_digit (hd v) \<and> hd v \<noteq> CHR ''-'' \<and> hd v \<noteq> CHR ''+'')"
    and "n < 2 ^ 31"
  shows "set_value ''--port'' v os = Some (os\<lparr>po_port := 0\<rparr>) \<and>
     set_value ''--port'' (dec_string n) os = Some (os\<lparr>po_port := of_nat (n mod 65536)\<rparr>)"
proof -
  have digits: "takeWhile is_digit (dec_string n) = dec_string n"
    by (rule takeWhile_eq_all_conv [THEN iffD2]) (auto dest: dec_string_digits)
  have hd_digit: "is_digit (hd (dec_string n))" by (rule dec_string_digits [of _ n]) simp
  then have hd: "\<not> is_space (hd (dec_string n))" "hd (dec_string n) \<noteq> CHR ''-''" "hd (dec_string n) \<noteq> CHR ''+''"
    by (auto simp: is_digit_def is_space_def char_code_def)
  have skip: "dropWhile is_space (dec_string n) = dec_string n"
    using hd(1) by (simp add: dropWhile_eq_self_iff)
  have "atoi (dec_string n) = Some (int n)"
    using assms(2) hd by (simp add: atoi_def Let_def skip digits dec_value_dec_string)
  moreover have "(word_of_int (int n) :: u16) = of_nat (n mod 65536)"
    by (simp add: word_unat_eq_iff unsigned_of_nat take_bit_eq_mod)
  moreover have "atoi v = Some 0"
  proof (cases v)
    case (Cons c w)
    then show ?thesis using assms(1) by (simp add: atoi_def Let_def dec_value_def)
  qed (simp add: atoi_def Let_def dec_value_def)
  ultimately show ?thesis by (simp add: set_value_def)
qed

lemma probe_port_unchecked_witness:
  "set_value ''--port'' ''x'' probe_defaults = Some (probe_defaults\<lparr>po_port := 0\<rparr>) \<and>
   set_value ''--port'' (dec_string 73380) probe_defaults = Some (probe_defaults\<lparr>po_port := of_nat (73380 mod 65536)\<rparr>)"
  by (rule probe_port_unchecked) (simp_all add: is_space_def is_digit_def char_code_def)

end
