(* ===== verification/Reg_Timing.thy ===== *)
theory Reg_Timing
  imports Quic_Client
begin

text \<open>
  When the registrations posted to the worker thread of \<^verbatim>\<open>src/main.cpp\<close> are answered: the worker takes them from the
  queue one after another, and each lasts as long as \<open>register_timeline\<close> says for the timeout main passes. Times are
  milliseconds; the steps up to a watchdog, after an abort and between two registrations take none, so real times are no shorter.
\<close>

section \<open>Definitions\<close>

definition kRegisterTimeoutMs :: nat where "kRegisterTimeoutMs = 15000"

text \<open>
  The worker from the moment \<open>free\<close> on, over the posts in queue order, each with its time and the course of its call: for each,
  whether its stream was aborted, and when its promise is set.
\<close>

fun worker_times :: "nat \<Rightarrow> (nat \<times> register_course) list \<Rightarrow> (bool \<times> nat) list" where
  "worker_times free [] = []"
| "worker_times free ((posted_at, course) # ws) =
     (let (aborted, lasts) = register_timeline kRegisterTimeoutMs course;
          set_at = max free posted_at + lasts
      in (aborted, set_at) # worker_times set_at ws)"

subsection \<open>Specification\<close>

text \<open>How long a call keeps the worker, and the calls from the \<open>j\<close>th to the \<open>i\<close>th together.\<close>

fun call_ms :: "register_course \<Rightarrow> nat" where
  "call_ms TurnedAway = 0"
| "call_ms NoStream = 0"
| "call_ms (Talks e) = 15000"

definition calls_ms :: "(nat \<times> register_course) list \<Rightarrow> nat \<Rightarrow> nat \<Rightarrow> nat" where
  "calls_ms ws j i = sum_list (map (\<lambda>l. call_ms (snd (ws ! l))) [j..<Suc i])"

fun too_late :: "register_course \<Rightarrow> bool" where
  "too_late TurnedAway = False"
| "too_late NoStream = False"
| "too_late (Talks e) = (case flag_time e of None \<Rightarrow> True | Some t \<Rightarrow> 15000 < t)"

section \<open>Lemmas\<close>

lemma timeline_lasts: "register_timeline kRegisterTimeoutMs c = (too_late c, call_ms c)"
  by (cases c) (simp_all add: register_waits_out_timeout kRegisterTimeoutMs_def del: register_timeline.simps(3))

lemma worker_times_length [simp]: "length (worker_times free ws) = length ws"
  by (induction free ws rule: worker_times.induct) (simp_all add: Let_def split: prod.split)

lemma worker_times_Cons:
  "worker_times free ((p, c) # ws) = (too_late c, max free p + call_ms c) # worker_times (max free p + call_ms c) ws"
  by (simp add: timeline_lasts Let_def)

declare worker_times.simps(2) [simp del]

lemma calls_ms_shift: "calls_ms (w # ws) (Suc j) (Suc i) = calls_ms ws j i"
  unfolding calls_ms_def by (simp add: map_Suc_upt [symmetric] comp_def del: upt_Suc)

lemma calls_ms_first: "calls_ms (w # ws) 0 (Suc i) = call_ms (snd w) + calls_ms ws 0 i"
proof -
  have "calls_ms (w # ws) 0 (Suc i) = call_ms (snd w) + calls_ms (w # ws) (Suc 0) (Suc i)"
    by (simp add: calls_ms_def upt_conv_Cons [of 0] del: upt_Suc)
  then show ?thesis by (simp add: calls_ms_shift)
qed

text \<open>The worker is busy without a break from some post (or from its start) to the moment the promise is set.\<close>

lemma worker_times_exact:
  "i < length ws \<Longrightarrow>
     free + calls_ms ws 0 i \<le> snd (worker_times free ws ! i) \<and>
     (\<forall>j \<le> i. fst (ws ! j) + calls_ms ws j i \<le> snd (worker_times free ws ! i)) \<and>
     (snd (worker_times free ws ! i) = free + calls_ms ws 0 i \<or>
      (\<exists>j \<le> i. snd (worker_times free ws ! i) = fst (ws ! j) + calls_ms ws j i))"
proof (induction ws arbitrary: free i)
  case (Cons w ws)
  obtain p c where w: "w = (p, c)" by (cases w)
  show ?case
  proof (cases i)
    case 0
    then show ?thesis by (auto simp: w worker_times_Cons calls_ms_def max_def)
  next
    case (Suc k)
    let ?free = "max free p + call_ms c" and ?fin = "snd (worker_times free ((p, c) # ws) ! i)"
    have fin: "?fin = snd (worker_times ?free ws ! k)" by (simp add: Suc worker_times_Cons)
    have k: "k < length ws" using Cons.prems Suc by simp
    note IH = Cons.IH [OF k, of ?free, folded fin]
    have all: "max free p + calls_ms ((p, c) # ws) 0 i = ?free + calls_ms ws 0 k" by (simp add: Suc calls_ms_first)
    have low: "fst (((p, c) # ws) ! j) + calls_ms ((p, c) # ws) j i \<le> ?fin" if "j \<le> i" for j
      using IH all that Suc by (cases j) (auto simp: calls_ms_shift)
    have "?fin = max free p + calls_ms ((p, c) # ws) 0 i \<or>
       (\<exists>j \<le> i. ?fin = fst (((p, c) # ws) ! j) + calls_ms ((p, c) # ws) j i)"
      using IH
    proof (elim conjE disjE exE)
      fix l assume "l \<le> k" "?fin = fst (ws ! l) + calls_ms ws l k"
      then have "Suc l \<le> i \<and> ?fin = fst (((p, c) # ws) ! Suc l) + calls_ms ((p, c) # ws) (Suc l) i"
        by (simp add: Suc calls_ms_shift)
      then show ?thesis by blast
    qed (simp add: all)
    moreover have "?fin = max free p + calls_ms ((p, c) # ws) 0 i \<Longrightarrow> ?fin = free + calls_ms ((p, c) # ws) 0 i \<or>
       (\<exists>j \<le> i. ?fin = fst (((p, c) # ws) ! j) + calls_ms ((p, c) # ws) j i)"
      by (cases "free \<le> p") (auto simp: max_def)
    moreover have "free + calls_ms ((p, c) # ws) 0 i \<le> ?fin"
      using IH all max.cobounded1 [of free p] by linarith
    ultimately show ?thesis using low unfolding w by auto
  qed
qed simp

lemma worker_times_aborted: "i < length ws \<Longrightarrow> fst (worker_times free ws ! i) \<longleftrightarrow> too_late (snd (ws ! i))"
proof (induction ws arbitrary: free i)
  case (Cons w ws)
  then show ?case by (cases w; cases i) (auto simp: worker_times_Cons)
qed simp

lemma calls_ms_talking:
  assumes "\<forall>l \<le> i. \<exists>e. snd (ws ! l) = Talks e"
  shows "calls_ms ws 0 i = 15000 * (i + 1)"
proof -
  have "call_ms (snd (ws ! l)) = 15000" if "l \<le> i" for l using assms that by (metis call_ms.simps(3))
  then have "map (\<lambda>l. call_ms (snd (ws ! l))) [0..<Suc i] = map (\<lambda>l. 15000) [0..<Suc i]"
    by (intro map_cong) (auto simp: less_Suc_eq_le)
  then show ?thesis unfolding calls_ms_def by (simp only: sum_list_const_mult map_replicate_const) (simp add: sum_list_replicate)
qed

section \<open>Properties\<close>

text \<open>
  C37: the registrations are paced by the timeout, not by the edge. A call that gets as far as the RPC keeps the worker for the full
  timeout of 15 s, however soon it is answered or fails; one that is turned away or cannot open its stream takes no time. The answer to
  post \<open>i\<close> comes at the largest of (post \<open>j\<close> plus the calls from \<open>j\<close> to \<open>i\<close>) over \<open>j \<le> i\<close>, and if the calls up to \<open>i\<close> all reach the RPC,
  \<open>i + 1\<close> timeouts after the start at the earliest: the fourth connection after a minute. A stream is aborted
  exactly when its RPC neither was answered nor threw within the timeout.
\<close>

theorem registrations_paced_by_timeout:
  assumes "i < length ws"
  shows "(\<forall>j \<le> i. fst (ws ! j) + calls_ms ws j i \<le> snd (worker_times 0 ws ! i)) \<and>
     (\<exists>j \<le> i. snd (worker_times 0 ws ! i) = fst (ws ! j) + calls_ms ws j i) \<and>
     ((\<forall>l \<le> i. \<exists>e. snd (ws ! l) = Talks e) \<longrightarrow> 15000 * (i + 1) \<le> snd (worker_times 0 ws ! i)) \<and>
     (fst (worker_times 0 ws ! i) \<longleftrightarrow> too_late (snd (ws ! i)))"
proof -
  note ex = worker_times_exact [OF assms, of 0]
  have "snd (worker_times 0 ws ! i) = calls_ms ws 0 i \<Longrightarrow> snd (worker_times 0 ws ! i) = fst (ws ! 0) + calls_ms ws 0 i"
    using ex by auto
  moreover have "(\<forall>l \<le> i. \<exists>e. snd (ws ! l) = Talks e) \<Longrightarrow> 15000 * (i + 1) \<le> snd (worker_times 0 ws ! i)"
    using ex calls_ms_talking [of i ws] by simp
  ultimately show ?thesis using ex worker_times_aborted [OF assms, of 0] by (intro conjI) auto
qed

text \<open>Two quick answers, a stream that cannot be opened and an exception, then a silent edge.\<close>

lemma registrations_paced_by_timeout_witness:
  "let ws = [(0, Talks (Answered 80)), (0, Talks (Answered 90)), (1, NoStream), (1, Talks (Threw 70)), (5, Talks Silent)]
   in 60000 = snd (worker_times 0 ws ! 4) \<and> fst (worker_times 0 ws ! 4) \<and> \<not> fst (worker_times 0 ws ! 3)"
proof -
  let ?ws = "[(0, Talks (Answered 80)), (0, Talks (Answered 90)), (1, NoStream), (1, Talks (Threw 70)), (5, Talks Silent)]"
  have "4 < length ?ws" "3 < length ?ws" by simp_all
  note at = this [THEN registrations_paced_by_timeout, THEN conjunct2, THEN conjunct2, THEN conjunct2]
  have "too_late (snd (?ws ! 4))" "\<not> too_late (snd (?ws ! 3))" by simp_all
  with at have "fst (worker_times 0 ?ws ! 4)" "\<not> fst (worker_times 0 ?ws ! 3)" by blast+
  moreover have "60000 = snd (worker_times 0 ?ws ! 4)" by (simp add: worker_times_Cons)
  ultimately show ?thesis by (simp add: Let_def)
qed

end
