(* ===== verification/Register_Race.thy ===== *)
theory Register_Race
  imports Close_Race Conn_Thread
begin

text \<open>
  The worker thread of \<^verbatim>\<open>main.cpp\<close> registering a client, against the main thread that closes the client while it ends the
  program. \<^verbatim>\<open>close\<close> holds \<^verbatim>\<open>close_mu_\<close>, \<^verbatim>\<open>register_connection\<close> does not. With \<open>Close_Race\<close>, which has the connection thread inside
  \<^verbatim>\<open>connect\<close>, these are the places where a close can meet a client in use.

  \<^item> \<open>register_move\<close> is the part of \<open>register_connection\<close> that concerns handles, one call at a time (lemma \<open>register_moves\<close>).
  \<^item> \<open>reg_step\<close> interleaves it with \<open>close_move\<close>. With \<open>guarded\<close>, \<^verbatim>\<open>register_connection\<close> takes the mutex for its duration: that is
    the repaired program; without, it is the program as written.
  \<^item> The connection thread waits for the answer of the worker in the meantime.
\<close>

section \<open>Definitions\<close>

text \<open>
  Before the call, before the check of the members, before \<^verbatim>\<open>StreamOpen\<close>, before \<^verbatim>\<open>StreamStart\<close>, in the RPC, before
  \<^verbatim>\<open>StreamClose\<close>, before the return, and returned. \<open>ec\<close> is how the RPC ends.
\<close>

datatype reg_pc = REnter | RCheck | ROpen | RStart handle | RTalk handle | RClose handle | RLeave "errc option" | RDone "errc option"

fun register_move :: "bool \<Rightarrow> bool \<Rightarrow> errc option \<Rightarrow> reg_pc \<times> client \<times> msquic \<Rightarrow> reg_pc \<times> client \<times> msquic" where
  "register_move ok_open ok_begin ec (RCheck, c, m) =
     (if h_connection c = None \<or> \<not> handshake_ok c then (RLeave (Some NotConnected), c, m) else (ROpen, c, m))"
| "register_move ok_open ok_begin ec (ROpen, c, m) =
     (case h_connection c of
        None \<Rightarrow> (RLeave (Some ProtocolError), c, m)
      | Some conn \<Rightarrow>
     case open_handle HStream (Some (fst conn)) ok_open m of
        (None, m) \<Rightarrow> (RLeave (Some ProtocolError), c, m)
      | (Some st, m) \<Rightarrow> (RStart st, c, m))"
| "register_move ok_open ok_begin ec (RStart st, c, m) =
     (if \<not> ok_begin then (RLeave (Some ProtocolError), c, reset_handle (Some st) m) else (RTalk st, c, m))"
| "register_move ok_open ok_begin ec (RTalk st, c, m) = (RClose st, c, m)"
| "register_move ok_open ok_begin ec (RClose st, c, m) = (RLeave ec, c, reset_handle (Some st) m)"
| "register_move ok_open ok_begin ec (REnter, c, m) = (REnter, c, m)"
| "register_move ok_open ok_begin ec (RLeave r, c, m) = (RLeave r, c, m)"
| "register_move ok_open ok_begin ec (RDone r, c, m) = (RDone r, c, m)"

fun rpc_code :: "rpc_outcome \<Rightarrow> errc option" where
  "rpc_code RpcThrew = Some ProtocolError"
| "rpc_code (RpcDetails uid loc) = None"
| "rpc_code (RpcError cause retry again) = Some PermissionDenied"

fun calling :: "reg_pc \<Rightarrow> bool" where
  "calling REnter = False" | "calling (RLeave r) = False" | "calling (RDone r) = False" | "calling pc = True"

datatype reg_party = WorkerThread | ClosingThread

record reg_race =
  rc_client :: client
  rc_api :: msquic
  rc_holder :: "reg_party option"
  rc_worker :: reg_pc
  rc_close :: close_pc

definition reg_init :: "client \<Rightarrow> msquic \<Rightarrow> reg_race" where
  "reg_init c m = \<lparr>rc_client = c, rc_api = m, rc_holder = None, rc_worker = REnter, rc_close = KLock\<rparr>"

inductive reg_step :: "bool \<Rightarrow> bool \<Rightarrow> bool \<Rightarrow> errc option \<Rightarrow> reg_race \<Rightarrow> reg_race \<Rightarrow> bool" for guarded ok_open ok_begin ec where
  reg_enter: "rc_worker s = REnter \<Longrightarrow> (guarded \<longrightarrow> rc_holder s = None) \<Longrightarrow>
    reg_step guarded ok_open ok_begin ec s (s\<lparr>rc_worker := RCheck, rc_holder := if guarded then Some WorkerThread else rc_holder s\<rparr>)"
| reg_call: "calling (rc_worker s) \<Longrightarrow> register_move ok_open ok_begin ec (rc_worker s, rc_client s, rc_api s) = (pc', c, m) \<Longrightarrow>
    reg_step guarded ok_open ok_begin ec s (s\<lparr>rc_worker := pc', rc_client := c, rc_api := m\<rparr>)"
| reg_leave: "rc_worker s = RLeave r \<Longrightarrow>
    reg_step guarded ok_open ok_begin ec s (s\<lparr>rc_worker := RDone r, rc_holder := if guarded then None else rc_holder s\<rparr>)"
| main_lock: "rc_close s = KLock \<Longrightarrow> rc_holder s = None \<Longrightarrow>
    reg_step guarded ok_open ok_begin ec s (s\<lparr>rc_close := KShutdown, rc_holder := Some ClosingThread\<rparr>)"
| main_call: "close_move (rc_close s, rc_client s, rc_api s) = Some (k', c, m) \<Longrightarrow>
    reg_step guarded ok_open ok_begin ec s (s\<lparr>rc_close := k', rc_client := c, rc_api := m\<rparr>)"
| main_unlock: "rc_close s = KUnlock \<Longrightarrow> reg_step guarded ok_open ok_begin ec s (s\<lparr>rc_close := KDone, rc_holder := None\<rparr>)"

subsection \<open>Specification\<close>

fun reg_inside :: "reg_pc \<Rightarrow> bool" where
  "reg_inside REnter = False" | "reg_inside (RDone r) = False" | "reg_inside pc = True"

fun reg_left :: "reg_pc \<Rightarrow> nat" where
  "reg_left REnter = 7" | "reg_left RCheck = 6" | "reg_left ROpen = 5" | "reg_left (RStart st) = 4" | "reg_left (RTalk st) = 3"
| "reg_left (RClose st) = 2" | "reg_left (RLeave r) = 1" | "reg_left (RDone r) = 0"

definition reg_race_left :: "reg_race \<Rightarrow> nat" where
  "reg_race_left s = reg_left (rc_worker s) + close_left (rc_close s)"

text \<open>The control stream is the last handle opened, under the client's connection, and the others are as before.\<close>

definition streaming :: "(nat \<times> handle_kind \<times> nat option) list \<Rightarrow> nat \<Rightarrow> handle \<Rightarrow> client \<Rightarrow> msquic \<Rightarrow> bool" where
  "streaming old n st c m \<longleftrightarrow>
     (\<exists>m0. holding old n 3 c m0 \<and> table m0 \<and> n + 3 \<le> fst st \<and> snd st = HStream \<and>
        m = m0\<lparr>opened := opened m0 @ [(fst st, HStream, Some (Suc (Suc n)))], next_handle := Suc (fst st)\<rparr>)"

fun worker_ok :: "(nat \<times> handle_kind \<times> nat option) list \<Rightarrow> nat \<Rightarrow> reg_pc \<Rightarrow> client \<Rightarrow> msquic \<Rightarrow> bool" where
  "worker_ok old n (RStart st) c m = streaming old n st c m"
| "worker_ok old n (RTalk st) c m = streaming old n st c m"
| "worker_ok old n (RClose st) c m = streaming old n st c m"
| "worker_ok old n pc c m = (\<exists>j. holding old n j c m)"

definition reg_inv :: "(nat \<times> handle_kind \<times> nat option) list \<Rightarrow> nat \<Rightarrow> reg_race \<Rightarrow> bool" where
  "reg_inv old n s \<longleftrightarrow>
     api_ok (rc_client s) (rc_api s) \<and> n + 3 \<le> next_handle (rc_api s) \<and>
     (rc_holder s = Some ClosingThread \<longleftrightarrow> inside (rc_close s)) \<and>
     (rc_holder s = Some WorkerThread \<longleftrightarrow> reg_inside (rc_worker s)) \<and>
     (rc_holder s = Some ClosingThread \<longrightarrow> close_ok old n (rc_close s) (rc_client s) (rc_api s)) \<and>
     (rc_holder s \<noteq> Some ClosingThread \<longrightarrow> worker_ok old n (rc_worker s) (rc_client s) (rc_api s)) \<and>
     (rc_close s = KDone \<longrightarrow> holding old n 0 (rc_client s) (rc_api s))"

section \<open>Lemmas\<close>

lemma register_moves:
  "case register_connection ok_open ok_begin rpc req resp c m of (ec, resp', m') \<Rightarrow>
     (register_move ok_open ok_begin (rpc_code (rpc (register_params req))) ^^ 5) (RCheck, c, m) = (RLeave ec, c, m')"
proof -
  have 5: "(f ^^ 5) x = f (f (f (f (f x))))" for f :: "'x \<Rightarrow> 'x" and x by (simp add: eval_nat_numeral)
  show ?thesis
    unfolding 5 by (auto simp: register_connection_def rpc_stream_open_def open_handle_def Let_def split: option.split rpc_outcome.split)
qed

inductive_cases reg_stepE: "reg_step guarded ok_open ok_begin ec s t"

text \<open>Opening the control stream and closing it.\<close>

lemma streaming_open:
  assumes "holding old n j c m" "h_connection c = Some conn" "n + 3 \<le> next_handle m"
  shows "streaming old n (next_handle m, HStream) c
     (m\<lparr>opened := opened m @ [(next_handle m, HStream, Some (fst conn))], next_handle := Suc (next_handle m)\<rparr>)"
proof -
  have "j = 3" "conn = (Suc (Suc n), HConnection)" using assms(1,2) by (auto simp: holding_def split: if_splits)
  then show ?thesis using assms by (auto simp: streaming_def holding_def intro!: exI [of _ m])
qed

lemma streaming_close:
  assumes "streaming old n st c m" "fresh_from n old"
  obtains x where "reset_handle (Some st) m = m\<lparr>opened := x\<rparr>" "holding old n 3 c (m\<lparr>opened := x\<rparr>)"
proof -
  obtain m0 where m0: "holding old n 3 c m0" "table m0" "n + 3 \<le> fst st" "snd st = HStream"
    "m = m0\<lparr>opened := opened m0 @ [(fst st, HStream, Some (Suc (Suc n)))], next_handle := Suc (fst st)\<rparr>"
    using assms(1) by (auto simp: streaming_def)
  have "handle_delete (fst st, HStream) m = m\<lparr>opened := opened m0\<rparr>"
    using m0 fresh_fromD [OF assms(2), of "fst st"] by (intro handle_delete_last) (auto simp: holding_def client_entries_def)
  then have r: "reset_handle (Some st) m = m\<lparr>opened := opened m0\<rparr>"
    using m0(4) by (cases st) (simp add: reset_handle_def)
  show thesis
  proof (rule that [OF r])
    show "holding old n 3 c (m\<lparr>opened := opened m0\<rparr>)" using m0 by (auto simp: holding_def)
  qed
qed

lemma streaming_not_idle: "streaming old n st c m \<Longrightarrow> \<not> holding old n 0 c m'"
  by (auto simp: streaming_def holding_def)

lemma register_call_ok:
  assumes ok: "worker_ok old n pc c m" "api_ok c m" "n + 3 \<le> next_handle m" "calling pc" "fresh_from n old"
    and move: "register_move ok_open ok_begin ec (pc, c, m) = (pc', c', m')"
  shows "worker_ok old n pc' c' m' \<and> api_ok c' m' \<and> n + 3 \<le> next_handle m' \<and> reg_inside pc' \<and> reg_left pc' < reg_left pc \<and>
     (holding old n 0 c m \<longrightarrow> holding old n 0 c' m')"
proof (cases pc)
  case ROpen
  then obtain j where j: "holding old n j c m" using ok(1) by auto
  have idle: "holding old n 0 c m \<Longrightarrow> h_connection c = None" by (simp add: holding_def)
  show ?thesis
    using ROpen j ok(2,3) move streaming_open [OF j _ ok(3)] idle
    by (auto simp: open_handle_def api_ok_def split: option.splits if_splits)
next
  case (RStart st)
  then have st: "streaming old n st c m" using ok(1) by simp
  obtain x where x: "reset_handle (Some st) m = m\<lparr>opened := x\<rparr>" "holding old n 3 c (m\<lparr>opened := x\<rparr>)"
    by (rule streaming_close [OF st ok(5)])
  have "api_ok c (m\<lparr>opened := x\<rparr>)" using ok(2) by (auto simp: api_ok_def)
  then show ?thesis
    using RStart st x(2) ok(2,3) move [unfolded RStart register_move.simps x(1)] streaming_not_idle [OF st, of m]
    by (auto split: if_splits)
next
  case (RClose st)
  then have st: "streaming old n st c m" using ok(1) by simp
  obtain x where x: "reset_handle (Some st) m = m\<lparr>opened := x\<rparr>" "holding old n 3 c (m\<lparr>opened := x\<rparr>)"
    by (rule streaming_close [OF st ok(5)])
  have "api_ok c (m\<lparr>opened := x\<rparr>)" using ok(2) by (auto simp: api_ok_def)
  then show ?thesis
    using RClose st x(2) ok(2,3) move [unfolded RClose register_move.simps x(1)] streaming_not_idle [OF st, of m] by auto
qed (use ok move in \<open>auto split: if_splits\<close>)

lemma calling_inside: "calling pc \<Longrightarrow> reg_inside pc"
  by (cases pc) auto

lemma reg_step_inv:
  assumes "reg_step True ok_open ok_begin ec s t" "reg_inv old n s" "fresh_from n old"
  shows "reg_inv old n t \<and> reg_race_left t < reg_race_left s"
  using assms(1)
proof cases
  case reg_enter
  then show ?thesis using assms(2) by (auto simp: reg_inv_def reg_race_left_def)
next
  case (reg_call pc' c m)
  then have h: "rc_holder s = Some WorkerThread" "worker_ok old n (rc_worker s) (rc_client s) (rc_api s)"
    "api_ok (rc_client s) (rc_api s)" "n + 3 \<le> next_handle (rc_api s)"
    using assms(2) calling_inside by (auto simp: reg_inv_def)
  note ok = register_call_ok [OF h(2-4) reg_call(2) assms(3) reg_call(3)]
  then show ?thesis using assms(2) h(1) unfolding reg_call(1) by (auto simp: reg_inv_def reg_race_left_def)
next
  case (reg_leave r)
  then show ?thesis using assms(2) by (auto simp: reg_inv_def reg_race_left_def)
next
  case main_lock
  then have "\<not> reg_inside (rc_worker s)" "worker_ok old n (rc_worker s) (rc_client s) (rc_api s)"
    using assms(2) by (auto simp: reg_inv_def)
  then have "\<exists>j. holding old n j (rc_client s) (rc_api s)" by (cases "rc_worker s") auto
  then show ?thesis using assms(2) main_lock by (auto simp: reg_inv_def reg_race_left_def)
next
  case (main_call k' c m)
  have k: "inside (rc_close s)" "rc_close s \<noteq> KUnlock" using close_move_inside [OF main_call(2)] by auto
  then have h: "close_ok old n (rc_close s) (rc_client s) (rc_api s)" "api_ok (rc_client s) (rc_api s)" "rc_holder s = Some ClosingThread"
    using assms(2) by (auto simp: reg_inv_def)
  from close_move_ok [OF h(1,2) k assms(3)] main_call(2)
  have ok: "close_ok old n k' c m" "api_ok c m" "inside k'" "close_left k' < close_left (rc_close s)" "next_handle m = next_handle (rc_api s)"
    by auto
  then show ?thesis using assms(2) h(3) unfolding main_call(1) by (auto simp: reg_inv_def reg_race_left_def)
next
  case main_unlock
  then have "\<not> reg_inside (rc_worker s)" "holding old n 0 (rc_client s) (rc_api s)"
    using assms(2) by (auto simp: reg_inv_def)
  then have "worker_ok old n (rc_worker s) (rc_client s) (rc_api s)" by (cases "rc_worker s") auto
  then show ?thesis using assms(2) main_unlock \<open>holding old n 0 (rc_client s) (rc_api s)\<close> by (auto simp: reg_inv_def reg_race_left_def)
qed

lemma reg_progress:
  assumes inv: "reg_inv old n s" and fresh: "fresh_from n old" and stuck: "\<And>t. \<not> reg_step True ok_open ok_begin ec s t"
  shows "rc_close s = KDone \<and> (\<exists>r. rc_worker s = RDone r)"
proof -
  have "\<not> calling (rc_worker s)"
    using stuck reg_call [of s ok_open ok_begin ec] by (metis prod_cases3)
  moreover have "rc_worker s \<noteq> RLeave r" for r using stuck reg_leave [of s r] by blast
  ultimately have worker: "rc_worker s = REnter \<or> (\<exists>r. rc_worker s = RDone r)" by (cases "rc_worker s") auto
  have "\<not> inside (rc_close s)"
  proof
    assume k: "inside (rc_close s)"
    have "rc_close s \<noteq> KUnlock" using stuck main_unlock [of s] by blast
    moreover have "close_ok old n (rc_close s) (rc_client s) (rc_api s)" "api_ok (rc_client s) (rc_api s)"
      using inv k by (auto simp: reg_inv_def)
    ultimately show False using close_move_ok [OF _ _ k _ fresh] stuck main_call [of s] by blast
  qed
  then have "rc_holder s = None" using inv worker by (cases "rc_holder s"; cases "the (rc_holder s)") (auto simp: reg_inv_def)
  then have "rc_worker s \<noteq> REnter" "rc_close s \<noteq> KLock" using stuck reg_enter [of s True] main_lock [of s] by blast+
  with worker \<open>\<not> inside (rc_close s)\<close> show ?thesis by (cases "rc_close s") auto
qed

subsection \<open>A connected client\<close>

lemma connected_holding:
  assumes "quic_idle c0" "msquic_ok m0" "api_held c0 \<longrightarrow> table m0" "connect_begin env c0 m0 = (None, c1, m)"
  shows "holding (opened m0) (next_handle m0) 3 (fold on_conn_event es c1) m" "fresh_from (next_handle m0) (opened m0)"
    "api_ok (fold on_conn_event es c1) m" "next_handle m0 + 3 \<le> next_handle m"
proof -
  let ?n = "next_handle m0"
  note res = connect_begin_result [OF assms(1,4)] connect_begin_table [OF assms(4,1,2,3)] connect_begin_ok [OF assms(4,1,2,3)]
  then have shape: "h_registration c1 = Some (?n, HRegistration)" "h_configuration c1 = Some (Suc ?n, HConfiguration)"
    "h_connection c1 = Some (Suc (Suc ?n), HConnection)" by (auto simp: connect_shape_def)
  then have opened: "opened m = opened m0 @ client_entries ?n" using res by (simp add: connect_entries_def client_entries_def)
  show "holding (opened m0) ?n 3 (fold on_conn_event es c1) m"
    using shape opened res events_keep_handles [of es c1] by (auto simp: holding_def client_entries_def)
  show "fresh_from ?n (opened m0)" using old_entries_fresh [OF assms(2)] by (simp add: fresh_from_def)
  show "api_ok (fold on_conn_event es c1) m"
    using res events_keep_handles [of es c1] by (auto simp: api_ok_def msquic_ok_def)
  have "(Suc (Suc ?n), HConnection, Some ?n) \<in> set (opened m)" using opened by (simp add: client_entries_def)
  then have "Suc (Suc ?n) < next_handle m" using res by (fastforce simp: msquic_ok_def)
  then show "?n + 3 \<le> next_handle m" by simp
qed

lemma example_idle:
  "quic_idle (client_init quic_config_init)" "msquic_ok msquic_init" "api_held (client_init quic_config_init) \<longrightarrow> table msquic_init"
  by (simp_all add: quic_idle_def client_init_def msquic_ok_def msquic_init_def)

lemma example_connects: "\<exists>c m. connect_begin (answering True) (client_init quic_config_init) msquic_init = (None, c, m)"
proof -
  have "fst (connect_begin (answering True) (client_init quic_config_init) msquic_init) = None" by code_simp
  then show ?thesis by (cases "connect_begin (answering True) (client_init quic_config_init) msquic_init") simp
qed

lemma enter_guarded:
  "reg_step True ok_open ok_begin ec (reg_init d m) ((reg_init d m)\<lparr>rc_worker := RCheck, rc_holder := Some WorkerThread\<rparr>)"
  using reg_enter [of "reg_init d m" True ok_open ok_begin ec] by (simp add: reg_init_def)

subsection \<open>The repaired program and the one as written\<close>

text \<open>
  Were \<^verbatim>\<open>register_connection\<close> to take the mutex of \<^verbatim>\<open>close\<close>, closing a client during its registration would be safe:
  whatever the interleaving and however the stream and the call fare, no run has more than 14 steps, no handle is misused, and
  when neither thread can step the client is closed, the registration has returned and exactly the handles are open that were
  before the connection.
\<close>

lemma guarded_register_safe:
  assumes "quic_idle c0" "msquic_ok m0" "api_held c0 \<longrightarrow> table m0" "connect_begin env c0 m0 = (None, c1, m)"
    and "(reg_step True ok_open ok_begin ec ^^ k) (reg_init (fold on_conn_event es c1) m) s"
  shows "k + reg_race_left s \<le> 14 \<and> \<not> misuse (rc_api s) \<and>
     ((\<forall>t. \<not> reg_step True ok_open ok_begin ec s t) \<longrightarrow>
        rc_close s = KDone \<and> (\<exists>r. rc_worker s = RDone r) \<and> quic_idle (rc_client s) \<and> opened (rc_api s) = opened m0)"
proof -
  let ?old = "opened m0" and ?n = "next_handle m0" and ?c = "fold on_conn_event es c1"
  note conn = connected_holding(1) [OF assms(1-4), of es] connected_holding(2) [OF assms(1-4)]
    connected_holding(3) [OF assms(1-4), of es] connected_holding(4) [OF assms(1-4)]
  have start: "reg_inv ?old ?n (reg_init ?c m)" using conn by (auto simp: reg_inv_def reg_init_def)
  have run: "reg_inv ?old ?n s \<and> k + reg_race_left s \<le> 14" using assms(5)
  proof (induction k arbitrary: s)
    case 0
    then show ?case using start by (auto simp: reg_race_left_def reg_init_def)
  next
    case (Suc k)
    then obtain u where u: "(reg_step True ok_open ok_begin ec ^^ k) (reg_init ?c m) u" "reg_step True ok_open ok_begin ec u s"
      by auto
    show ?case using Suc.IH [OF u(1)] reg_step_inv [OF u(2) _ conn(2)] by fastforce
  qed
  have "quic_idle (rc_client s) \<and> opened (rc_api s) = ?old" if "rc_close s = KDone"
    using run that by (simp add: reg_inv_def holding_def quic_idle_def)
  moreover have "\<not> misuse (rc_api s)" using run by (simp add: reg_inv_def api_ok_def)
  moreover have "rc_close s = KDone \<and> (\<exists>r. rc_worker s = RDone r)" if "\<forall>t. \<not> reg_step True ok_open ok_begin ec s t"
    using reg_progress [OF conjunct1 [OF run] conn(2)] that by blast
  ultimately show ?thesis using run by blast
qed

text \<open>
  As written, the end of the program can close a client under its registration, which lasts 15 s each time: the main
  thread resets the connection handle while the worker is in the call, with the control stream still open under that
  connection and to be shut down and closed by the worker later. That breaks the order in which the handles have to be closed.
\<close>

lemma close_breaks_registration:
  assumes "quic_idle c0" "msquic_ok m0" "api_held c0 \<longrightarrow> table m0" "connect_begin env c0 m0 = (None, c1, m)"
    and "connect_finish (fold on_conn_event es c1) = None"
  shows "\<not> misuse m \<and> (\<exists>s st conn. (reg_step False True True ec)\<^sup>*\<^sup>* (reg_init (fold on_conn_event es c1) m) s \<and> rc_worker s = RTalk st \<and>
     h_connection c1 = Some conn \<and> (fst st, HStream, Some (fst conn)) \<in> set (opened (rc_api s)) \<and>
     rc_holder s = Some ClosingThread \<and> h_connection (rc_client s) = None \<and> misuse (rc_api s))"
proof
  note conn = connected_holding(1) [OF assms(1-4), of es] connected_holding(2) [OF assms(1-4)]
    connected_holding(3) [OF assms(1-4), of es] connected_holding(4) [OF assms(1-4)]
  show "\<not> misuse m" using conn(3) by (simp add: api_ok_def)
  let ?old = "opened m0" and ?n = "next_handle m0"
  define c where "c = fold on_conn_event es c1"
  have shake: "handshake_ok c" using assms(5) by (simp add: connect_finish_def c_def split: if_splits)
  let ?st = "(next_handle m, HStream)" and ?conn = "(Suc (Suc ?n), HConnection)"
  have c: "h_connection c = Some ?conn" and m: "opened m = ?old @ client_entries ?n" "table m"
    using conn(1) by (auto simp: holding_def client_entries_def c_def)
  have c1: "h_connection c1 = Some ?conn" using c events_keep_handles [of es c1] by (simp add: c_def)
  let ?m1 = "m\<lparr>opened := opened m @ [(next_handle m, HStream, Some (Suc (Suc ?n)))], next_handle := Suc (next_handle m)\<rparr>"
  let ?m2 = "?m1\<lparr>shut_down := shut_down m @ [Suc (Suc ?n)]\<rparr>"
  let ?s0 = "reg_init c m" and ?R = "reg_step False True True ec"
  let ?s1 = "?s0\<lparr>rc_worker := RCheck\<rparr>" and ?s2 = "?s0\<lparr>rc_worker := ROpen\<rparr>"
  let ?s3 = "?s0\<lparr>rc_worker := RStart ?st, rc_api := ?m1\<rparr>"
  let ?s4 = "?s0\<lparr>rc_worker := RTalk ?st, rc_api := ?m1\<rparr>"
  let ?s5 = "?s4\<lparr>rc_close := KShutdown, rc_holder := Some ClosingThread\<rparr>"
  let ?s6 = "?s5\<lparr>rc_close := KConnection, rc_api := ?m2\<rparr>"
  let ?s7 = "?s6\<lparr>rc_close := KConfiguration, rc_client := c\<lparr>h_connection := None\<rparr>, rc_api := ?m2\<lparr>misuse := True\<rparr>\<rparr>"
  have shut: "connection_shutdown (Some ?conn) ?m1 = ?m2" using m by (auto simp: connection_shutdown_def client_entries_def)
  have reset: "reset_handle (Some ?conn) ?m2 = ?m2\<lparr>misuse := True\<rparr>" using m by (auto simp: reset_handle_def handle_delete_def close_call_def)
  have 1: "?R ?s0 ?s1" using reg_enter [of ?s0 False True True ec] by (simp add: reg_init_def)
  have 2: "?R ?s1 ?s2" using reg_call [of ?s1 True True ec ROpen c m False] shake c by (simp add: reg_init_def)
  have 3: "?R ?s2 ?s3" using reg_call [of ?s2 True True ec "RStart ?st" c ?m1 False] c by (simp add: reg_init_def open_handle_def)
  have 4: "?R ?s3 ?s4" using reg_call [of ?s3 True True ec "RTalk ?st" c ?m1 False] by (simp add: reg_init_def)
  have 5: "?R ?s4 ?s5" by (rule main_lock) (simp_all add: reg_init_def)
  have 6: "?R ?s5 ?s6" using main_call [of ?s5 KConnection c ?m2 False True True ec] c shut by (simp add: reg_init_def)
  have 7: "?R ?s6 ?s7"
    using main_call [of ?s6 KConfiguration "c\<lparr>h_connection := None\<rparr>" "?m2\<lparr>misuse := True\<rparr>" False True True ec] c reset
    by (simp add: reg_init_def)
  have "?R\<^sup>*\<^sup>* ?s0 ?s7" using 1 2 3 4 5 6 7 by (meson converse_rtranclp_into_rtranclp rtranclp.rtrancl_refl)
  then show "\<exists>s st conn. ?R\<^sup>*\<^sup>* (reg_init (fold on_conn_event es c1) m) s \<and> rc_worker s = RTalk st \<and>
     h_connection c1 = Some conn \<and> (fst st, HStream, Some (fst conn)) \<in> set (opened (rc_api s)) \<and>
     rc_holder s = Some ClosingThread \<and> h_connection (rc_client s) = None \<and> misuse (rc_api s)"
    unfolding c_def [symmetric] using c1 by (intro exI [of _ ?s7] exI [of _ ?st] exI [of _ ?conn]) simp
qed

section \<open>Properties\<close>

text \<open>
  C10: closing a client during its registration, which lasts 15 s each time. As written, the main thread can reset the
  connection handle while the worker is in the call, with the control stream still open under that connection and to be
  shut down and closed by the worker later: the handles are closed in the wrong order. Were \<^verbatim>\<open>register_connection\<close> to take the
  mutex of \<^verbatim>\<open>close\<close>, then whatever the interleaving and however the stream and the call fare, no run would have more than 14
  steps or misuse a handle, and where neither thread can step the client would be closed, the registration returned
  and exactly the handles open that were before the connection.
\<close>

theorem registration_races_with_close:
  assumes "quic_idle c0" "msquic_ok m0" "api_held c0 \<longrightarrow> table m0" "connect_begin env c0 m0 = (None, c1, m)"
    and "connect_finish (fold on_conn_event es c1) = None"
  shows "(\<exists>s st conn. (reg_step False True True ec)\<^sup>*\<^sup>* (reg_init (fold on_conn_event es c1) m) s \<and>
       rc_worker s = RTalk st \<and> h_connection c1 = Some conn \<and> (fst st, HStream, Some (fst conn)) \<in> set (opened (rc_api s)) \<and>
       rc_holder s = Some ClosingThread \<and> h_connection (rc_client s) = None \<and> misuse (rc_api s)) \<and>
     (\<forall>k s. (reg_step True ok_open ok_begin ec ^^ k) (reg_init (fold on_conn_event es c1) m) s \<longrightarrow>
       k + reg_race_left s \<le> 14 \<and> \<not> misuse (rc_api s) \<and>
       ((\<forall>t. \<not> reg_step True ok_open ok_begin ec s t) \<longrightarrow>
          rc_close s = KDone \<and> (\<exists>r. rc_worker s = RDone r) \<and> quic_idle (rc_client s) \<and> opened (rc_api s) = opened m0))"
  using close_breaks_registration [OF assms] guarded_register_safe [OF assms(1-4)] by blast

lemma registration_races_with_close_witness:
  "\<exists>c m s t. connect_begin (answering True) (client_init quic_config_init) msquic_init = (None, c, m) \<and> \<not> misuse m \<and>
     (reg_step False True True None)\<^sup>*\<^sup>* (reg_init (fold on_conn_event [Connected] c) m) s \<and> misuse (rc_api s) \<and>
     reg_step True True True None (reg_init (fold on_conn_event [Connected] c) m) t \<and> 1 + reg_race_left t \<le> 14 \<and> \<not> misuse (rc_api t)"
proof -
  obtain c m where run: "connect_begin (answering True) (client_init quic_config_init) msquic_init = (None, c, m)"
    using example_connects by blast
  let ?s0 = "reg_init (fold on_conn_event [Connected] c) m"
  let ?t = "?s0\<lparr>rc_worker := RCheck, rc_holder := Some WorkerThread\<rparr>"
  have shake: "connect_finish (fold on_conn_event [Connected] c) = None" by (simp add: connect_finish_def)
  have fine: "\<not> misuse m" using connected_holding(3) [OF example_idle run] by (simp add: api_ok_def)
  have step: "reg_step True True True None ?s0 ?t" by (rule enter_guarded)
  then have "(reg_step True True True None ^^ 1) ?s0 ?t" by (simp only: relpowp_1)
  with registration_races_with_close [OF example_idle run shake, of None True True] run step fine show ?thesis by blast
qed

end
