(* ===== verification/Capnp_Struct.thy ===== *)
theory Capnp_Struct
  imports Prelude
begin

text \<open>
  What the generated code \<^verbatim>\<open>tunnelrpc.capnp.h\<close> uses of the Cap'n Proto runtime, which is not part of the
  repository: a struct with its data section and its pointer section is a type given by a record of operations, and the
  locale \<open>struct_runtime\<close> states what the encoding's documentation says of them. A message is a store of structs. The
  instance \<open>bit_rt\<close> keeps a data section as its bits, so that the laws are known to hold of something.
\<close>

section \<open>Definitions\<close>

text \<open>A pointer: null, bytes (\<^verbatim>\<open>Data\<close>, and \<^verbatim>\<open>Text\<close> with its closing NUL), a list of texts, or a struct.\<close>

datatype pvalue = NullPtr | BytesPtr "u8 list" | TextsPtr "string list" | StructPtr nat

text \<open>
  \<open>rt_data w i\<close> is \<^verbatim>\<open>getDataField<T>(i)\<close> for a type \<^verbatim>\<open>T\<close> of \<open>w\<close> bits: the offset counts elements of that width.
\<close>

record 's struct_rt =
  rt_new :: "nat \<Rightarrow> nat \<Rightarrow> 's"
  rt_words :: "'s \<Rightarrow> nat"
  rt_pointers :: "'s \<Rightarrow> nat"
  rt_data :: "nat \<Rightarrow> nat \<Rightarrow> 's \<Rightarrow> nat"
  rt_set_data :: "nat \<Rightarrow> nat \<Rightarrow> nat \<Rightarrow> 's \<Rightarrow> 's"
  rt_pointer :: "nat \<Rightarrow> 's \<Rightarrow> pvalue"
  rt_set_pointer :: "nat \<Rightarrow> pvalue \<Rightarrow> 's \<Rightarrow> 's"

record 's message =
  objects :: "nat \<Rightarrow> 's"
  next_object :: nat

text \<open>
  A builder is the place of a struct in the message; a reader may also stand for the default of a null pointer, an empty
  struct. \<open>None\<close> as the result of a getter is the exception the runtime throws at a pointer of the wrong kind.
\<close>

definition reader_struct :: "'s struct_rt \<Rightarrow> nat option \<Rightarrow> 's message \<Rightarrow> 's" where
  "reader_struct rt r m = (case r of None \<Rightarrow> rt_new rt 0 0 | Some b \<Rightarrow> objects m b)"

definition read_data :: "'s struct_rt \<Rightarrow> nat \<Rightarrow> nat \<Rightarrow> nat option \<Rightarrow> 's message \<Rightarrow> nat" where
  "read_data rt w i r m = rt_data rt w i (reader_struct rt r m)"

definition read_pointer :: "'s struct_rt \<Rightarrow> nat \<Rightarrow> nat option \<Rightarrow> 's message \<Rightarrow> pvalue" where
  "read_pointer rt i r m = rt_pointer rt i (reader_struct rt r m)"

definition store_data :: "'s struct_rt \<Rightarrow> nat \<Rightarrow> nat \<Rightarrow> nat \<Rightarrow> nat \<Rightarrow> 's message \<Rightarrow> 's message" where
  "store_data rt w i v b m = m\<lparr>objects := (objects m)(b := rt_set_data rt w i v (objects m b))\<rparr>"

definition store_pointer :: "'s struct_rt \<Rightarrow> nat \<Rightarrow> pvalue \<Rightarrow> nat \<Rightarrow> 's message \<Rightarrow> 's message" where
  "store_pointer rt i p b m = m\<lparr>objects := (objects m)(b := rt_set_pointer rt i p (objects m b))\<rparr>"

text \<open>The sizes of a struct as its header declares them, with its type id.\<close>

type_synonym struct_header = "u64 \<times> nat \<times> nat"

definition new_struct :: "'s struct_rt \<Rightarrow> struct_header \<Rightarrow> 's message \<Rightarrow> nat \<times> 's message" where
  "new_struct rt h m =
     (next_object m, m\<lparr>objects := (objects m)(next_object m := rt_new rt (fst (snd h)) (snd (snd h))),
        next_object := Suc (next_object m)\<rparr>)"

subsection \<open>The pointer helpers\<close>

definition text_bytes :: "string \<Rightarrow> u8 list" where
  "text_bytes s = map (\<lambda>c. of_nat (of_char c)) s @ [0]"

definition bytes_chars :: "u8 list \<Rightarrow> string" where
  "bytes_chars bs = map (\<lambda>b. char_of (unat b)) bs"

definition as_bytes :: "pvalue \<Rightarrow> u8 list option" where
  "as_bytes p = (case p of NullPtr \<Rightarrow> Some [] | BytesPtr b \<Rightarrow> Some b | _ \<Rightarrow> None)"

definition as_text :: "pvalue \<Rightarrow> string option" where
  "as_text p = (case p of NullPtr \<Rightarrow> Some []
     | BytesPtr b \<Rightarrow> if b \<noteq> [] \<and> last b = 0 then Some (bytes_chars (butlast b)) else None
     | _ \<Rightarrow> None)"

definition as_texts :: "pvalue \<Rightarrow> string list option" where
  "as_texts p = (case p of NullPtr \<Rightarrow> Some [] | TextsPtr ts \<Rightarrow> Some ts | _ \<Rightarrow> None)"

definition as_struct :: "pvalue \<Rightarrow> nat option option" where
  "as_struct p = (case p of NullPtr \<Rightarrow> Some None | StructPtr b \<Rightarrow> Some (Some b) | _ \<Rightarrow> None)"

definition init_struct :: "'s struct_rt \<Rightarrow> struct_header \<Rightarrow> nat \<Rightarrow> nat \<Rightarrow> 's message \<Rightarrow> nat \<times> 's message" where
  "init_struct rt h i b m = (let (a, m) = new_struct rt h m in (a, store_pointer rt i (StructPtr a) b m))"

text \<open>A builder's getter puts a fresh struct in place of a null pointer.\<close>

definition build_struct :: "'s struct_rt \<Rightarrow> struct_header \<Rightarrow> nat \<Rightarrow> nat \<Rightarrow> 's message \<Rightarrow> (nat \<times> 's message) option" where
  "build_struct rt h i b m =
     (case as_struct (read_pointer rt i (Some b) m) of
        None \<Rightarrow> None
      | Some None \<Rightarrow> Some (init_struct rt h i b m)
      | Some (Some a) \<Rightarrow> Some (a, m))"

text \<open>
  The runtime's deep copy of what a reader, given by its message and place, stands for, into a message; setting pointer \<open>i\<close> to
  the copy.
\<close>

type_synonym 's struct_copy = "'s message \<times> nat option \<Rightarrow> 's message \<Rightarrow> nat \<times> 's message"

definition set_struct :: "'s struct_rt \<Rightarrow> 's struct_copy \<Rightarrow> nat \<Rightarrow> 's message \<times> nat option \<Rightarrow> nat \<Rightarrow> 's message \<Rightarrow> 's message" where
  "set_struct rt cp i v b m = (let (a, m) = cp v m in store_pointer rt i (StructPtr a) b m)"

text \<open>The path of a pipeline, outermost pointer first, and where it leads once the answer \<open>r\<close> is there.\<close>

type_synonym pipeline = "nat list"

definition pipeline_pointer :: "nat \<Rightarrow> pipeline \<Rightarrow> pipeline" where "pipeline_pointer i p = p @ [i]"
definition pipeline_noop :: "pipeline \<Rightarrow> pipeline" where "pipeline_noop p = p"

fun follow :: "'s struct_rt \<Rightarrow> pipeline \<Rightarrow> nat option \<Rightarrow> 's message \<Rightarrow> nat option option" where
  "follow rt [] r m = Some r"
| "follow rt (i # p) r m = Option.bind (as_struct (read_pointer rt i r m)) (\<lambda>a. follow rt p a m)"

definition disown :: "'s struct_rt \<Rightarrow> nat \<Rightarrow> nat \<Rightarrow> 's message \<Rightarrow> pvalue \<times> 's message" where
  "disown rt i b m = (read_pointer rt i (Some b) m, store_pointer rt i NullPtr b m)"

text \<open>Setting element \<open>j\<close> of a list of texts that pointer \<open>i\<close> holds; out of range is a failed check of the runtime.\<close>

definition set_text :: "'s struct_rt \<Rightarrow> nat \<Rightarrow> nat \<Rightarrow> string \<Rightarrow> nat \<Rightarrow> 's message \<Rightarrow> 's message option" where
  "set_text rt i j s b m =
     (case read_pointer rt i (Some b) m of
        TextsPtr ts \<Rightarrow> if j < length ts then Some (store_pointer rt i (TextsPtr (ts[j := s])) b m) else None
      | _ \<Rightarrow> None)"

subsection \<open>An instance\<close>

record bit_struct =
  bs_bits :: "bool list"
  bs_pointers :: "pvalue list"

fun bits_nat :: "bool list \<Rightarrow> nat" where
  "bits_nat [] = 0"
| "bits_nat (b # bs) = of_bool b + 2 * bits_nat bs"

fun nat_bits :: "nat \<Rightarrow> nat \<Rightarrow> bool list" where
  "nat_bits 0 v = []"
| "nat_bits (Suc w) v = odd v # nat_bits w (v div 2)"

definition bit_rt :: "bit_struct struct_rt" where
  "bit_rt =
     \<lparr>rt_new = (\<lambda>dw pc. \<lparr>bs_bits = replicate (64 * dw) False, bs_pointers = replicate pc NullPtr\<rparr>),
      rt_words = (\<lambda>s. length (bs_bits s) div 64),
      rt_pointers = (\<lambda>s. length (bs_pointers s)),
      rt_data = (\<lambda>w i s. if w * i + w \<le> length (bs_bits s) then bits_nat (take w (drop (w * i) (bs_bits s))) else 0),
      rt_set_data = (\<lambda>w i v s. if w * i + w \<le> length (bs_bits s)
        then s\<lparr>bs_bits := take (w * i) (bs_bits s) @ nat_bits w v @ drop (w * i + w) (bs_bits s)\<rparr> else s),
      rt_pointer = (\<lambda>i s. if i < length (bs_pointers s) then bs_pointers s ! i else NullPtr),
      rt_set_pointer = (\<lambda>i p s. s\<lparr>bs_pointers := (bs_pointers s)[i := p]\<rparr>)\<rparr>"

subsection \<open>Specification\<close>

text \<open>The bits of two fields do not overlap.\<close>

definition apart :: "nat \<Rightarrow> nat \<Rightarrow> nat \<Rightarrow> nat \<Rightarrow> bool" where
  "apart w i w' j \<longleftrightarrow> w * i + w \<le> w' * j \<or> w' * j + w' \<le> w * i"

text \<open>Structs of the sizes their headers declare; a copy that leaves the structs alone that were there.\<close>

definition sized :: "'s struct_rt \<Rightarrow> struct_header \<Rightarrow> nat \<Rightarrow> 's message \<Rightarrow> bool" where
  "sized rt h b m \<longleftrightarrow> rt_words rt (objects m b) = fst (snd h) \<and> rt_pointers rt (objects m b) = snd (snd h)"

definition copy_keeps :: "'s struct_copy \<Rightarrow> bool" where
  "copy_keeps cp \<longleftrightarrow> (\<forall>v m b. b < next_object m \<longrightarrow> objects (snd (cp v m)) b = objects m b)"

section \<open>The contract of the runtime\<close>

locale struct_runtime =
  fixes rt :: "'s struct_rt"
  assumes new_words: "rt_words rt (rt_new rt dw pc) = dw"
    and new_pointers: "rt_pointers rt (rt_new rt dw pc) = pc"
    and new_data: "rt_data rt w i (rt_new rt dw pc) = 0"
    and new_pointer: "rt_pointer rt i (rt_new rt dw pc) = NullPtr"
    and set_data_words: "rt_words rt (rt_set_data rt w i v s) = rt_words rt s"
    and set_data_pointers: "rt_pointers rt (rt_set_data rt w i v s) = rt_pointers rt s"
    and set_data_same: "w * i + w \<le> 64 * rt_words rt s \<Longrightarrow> v < 2 ^ w \<Longrightarrow> rt_data rt w i (rt_set_data rt w i v s) = v"
    and set_data_other: "apart w i w' j \<Longrightarrow> rt_data rt w' j (rt_set_data rt w i v s) = rt_data rt w' j s"
    and set_data_pointer: "rt_pointer rt j (rt_set_data rt w i v s) = rt_pointer rt j s"
    and set_pointer_words: "rt_words rt (rt_set_pointer rt i p s) = rt_words rt s"
    and set_pointer_pointers: "rt_pointers rt (rt_set_pointer rt i p s) = rt_pointers rt s"
    and set_pointer_same: "i < rt_pointers rt s \<Longrightarrow> rt_pointer rt i (rt_set_pointer rt i p s) = p"
    and set_pointer_other: "i \<noteq> j \<Longrightarrow> rt_pointer rt j (rt_set_pointer rt i p s) = rt_pointer rt j s"
    and set_pointer_data: "rt_data rt w j (rt_set_pointer rt i p s) = rt_data rt w j s"
begin

text \<open>The same for the fields of the structs of a message.\<close>

lemma read_after_store [simp]:
  "objects (store_data rt w i v b m) a = (if a = b then rt_set_data rt w i v (objects m b) else objects m a)"
  "objects (store_pointer rt j p b m) a = (if a = b then rt_set_pointer rt j p (objects m b) else objects m a)"
  "next_object (store_data rt w i v b m) = next_object m" "next_object (store_pointer rt j p b m) = next_object m"
  by (simp_all add: store_data_def store_pointer_def)

lemmas size_simps [simp] = new_words new_pointers set_data_words set_data_pointers set_pointer_words set_pointer_pointers

lemma read_pointer_store:
  "read_pointer rt i (Some a) (store_data rt w j v b m) = read_pointer rt i (Some a) m"
  "a \<noteq> b \<or> i \<noteq> j \<Longrightarrow> read_pointer rt i (Some a) (store_pointer rt j p b m) = read_pointer rt i (Some a) m"
  "i < rt_pointers rt (objects m b) \<Longrightarrow> read_pointer rt i (Some b) (store_pointer rt i p b m) = p"
  by (auto simp: read_pointer_def reader_struct_def set_data_pointer set_pointer_other set_pointer_same)

lemma read_data_store:
  "read_data rt w i (Some a) (store_pointer rt j p b m) = read_data rt w i (Some a) m"
  "a \<noteq> b \<or> apart w' j w i \<Longrightarrow> read_data rt w i (Some a) (store_data rt w' j v b m) = read_data rt w i (Some a) m"
  "w * i + w \<le> 64 * rt_words rt (objects m b) \<Longrightarrow> v < 2 ^ w \<Longrightarrow>
     read_data rt w i (Some b) (store_data rt w i v b m) = v"
  by (auto simp: read_data_def reader_struct_def set_pointer_data set_data_other set_data_same)

lemma read_default [simp]: "read_pointer rt i None m = NullPtr" "read_data rt w i None m = 0"
  by (simp_all add: read_pointer_def read_data_def reader_struct_def new_pointer new_data)

lemma new_struct_simps [simp]:
  "fst (new_struct rt h m) = next_object m"
  "next_object (snd (new_struct rt h m)) = Suc (next_object m)"
  "objects (snd (new_struct rt h m)) a = (if a = next_object m then rt_new rt (fst (snd h)) (snd (snd h)) else objects m a)"
  by (simp_all add: new_struct_def)

lemma read_new:
  "read_pointer rt i (Some a) (snd (new_struct rt h m)) = (if a = next_object m then NullPtr else read_pointer rt i (Some a) m)"
  "read_data rt w i (Some a) (snd (new_struct rt h m)) = (if a = next_object m then 0 else read_data rt w i (Some a) m)"
  by (simp_all add: read_pointer_def read_data_def reader_struct_def new_data new_pointer)

lemma init_struct_eq: "init_struct rt h i b m = (next_object m, store_pointer rt i (StructPtr (next_object m)) b (snd (new_struct rt h m)))"
  by (simp add: init_struct_def new_struct_def)

lemmas read_simps = read_pointer_store read_data_store read_new init_struct_eq

lemmas runtime_laws = new_words new_pointers new_data new_pointer set_data_words set_data_pointers set_data_same
  set_data_other set_data_pointer set_pointer_words set_pointer_pointers set_pointer_same set_pointer_other set_pointer_data

end

section \<open>Lemmas\<close>

lemma length_nat_bits [simp]: "length (nat_bits w v) = w"
  by (induction w arbitrary: v) auto

lemma bits_nat_bits: "v < 2 ^ w \<Longrightarrow> bits_nat (nat_bits w v) = v"
proof (induction w arbitrary: v)
  case (Suc w)
  then have "v div 2 < 2 ^ w" by auto
  with Suc.IH show ?case by (simp add: odd_two_times_div_two_succ)
qed simp

lemma bits_nat_False [simp]: "bits_nat (replicate n False) = 0"
  by (induction n) auto

text \<open>A slice of a list in which another slice was replaced.\<close>

lemma slice_other:
  assumes "length ys = w" "p + w \<le> length xs" "p + w \<le> q \<or> q + n \<le> p"
  shows "take n (drop q (take p xs @ ys @ drop (p + w) xs)) = take n (drop q xs)"
  using assms(3)
proof
  assume "p + w \<le> q"
  then show ?thesis using assms(1,2) by (simp add: min_def)
next
  assume q: "q + n \<le> p"
  have "take n (drop q (take p xs @ ys @ drop (p + w) xs)) = take n (drop q (take p xs))"
    using q assms(2) by (simp add: min_def)
  also have "\<dots> = take n (drop q xs)" using q by (simp add: drop_take min_def)
  finally show ?thesis .
qed

lemma slice_same:
  assumes "length ys = w" "p + w \<le> length xs"
  shows "take w (drop p (take p xs @ ys @ drop (p + w) xs)) = ys"
  using assms by simp

interpretation bits: struct_runtime bit_rt
proof
  fix w i v :: nat and s :: bit_struct
  assume "w * i + w \<le> 64 * rt_words bit_rt s" "v < 2 ^ w"
  then show "rt_data bit_rt w i (rt_set_data bit_rt w i v s) = v"
    using times_div_less_eq_dividend [of 64 "length (bs_bits s)"] by (auto simp: bit_rt_def bits_nat_bits)
next
  fix w i w' j v :: nat and s :: bit_struct
  assume "apart w i w' j"
  then show "rt_data bit_rt w' j (rt_set_data bit_rt w i v s) = rt_data bit_rt w' j s"
    using slice_other [of "nat_bits w v" w "w * i" "bs_bits s" "w' * j" w'] by (simp add: bit_rt_def apart_def)
qed (simp_all add: bit_rt_def take_replicate drop_replicate)

lemma char_of_byte: "char_of (unat (of_nat (of_char c) :: u8)) = (c :: char)"
proof -
  have "of_char c < (256 :: nat)" by (rule nat_of_char_less_256)
  then show ?thesis by (simp add: unat_of_nat take_bit_eq_mod)
qed

lemma bytes_chars_text: "bytes_chars (butlast (text_bytes s)) = s"
  by (simp add: bytes_chars_def text_bytes_def char_of_byte comp_def)

lemma as_text_bytes [simp]: "as_text (BytesPtr (text_bytes s)) = Some s"
  using bytes_chars_text [of s] by (simp add: as_text_def text_bytes_def)

lemma as_simps [simp]:
  "as_bytes NullPtr = Some []" "as_bytes (BytesPtr b) = Some b" "as_text NullPtr = Some []"
  "as_texts NullPtr = Some []" "as_texts (TextsPtr ts) = Some ts"
  "as_struct NullPtr = Some None" "as_struct (StructPtr b') = Some (Some b')"
  by (simp_all add: as_bytes_def as_text_def as_texts_def as_struct_def)

lemma follow_snoc: "follow rt (p @ [i]) r m = Option.bind (follow rt p r m) (\<lambda>a. as_struct (read_pointer rt i a m))"
  by (induction p arbitrary: r) (auto split: bind_split)

lemma set_struct_eq: "set_struct rt cp i v b m = store_pointer rt i (StructPtr (fst (cp v m))) b (snd (cp v m))"
  by (simp add: set_struct_def split_beta)

end
