(* ===== verification/Capnp_Accessors.thy ===== *)
theory Capnp_Accessors
  imports Capnp_Struct
begin

text \<open>
  The accessors of the generated header \<^verbatim>\<open>tunnelrpc.capnp.h\<close>, class by class, over the operations of a runtime \<open>rt\<close>.
  A getter takes a reader, \<open>r\<close>, which a builder also is; a setter takes a builder \<open>b\<close>. The getters of the two classes \<^verbatim>\<open>Reader\<close>
  and \<^verbatim>\<open>Builder\<close> are one definition, except that a builder's getter of a struct fills a null pointer. \<open>debug\<close> says whether
  \<^verbatim>\<open>KJ_IREQUIRE\<close> checks anything. A setter of a struct takes the runtime's deep copy as an argument \<open>cp\<close>: from the message and
  the place of the reader it is given it makes a struct in the builder's message, and returns its place. A pipeline, which
  stands for a part of an answer that is still to come, is the path of its pointers.
\<close>

section \<open>Definitions\<close>

subsection \<open>Type ids and sizes\<close>

definition ClientInfo_header :: struct_header where "ClientInfo_header = (0x83ced0145b2f114b, 0, 4)"

definition ConnectionOptions_header :: struct_header where "ConnectionOptions_header = (0xb4bf9861fe035d04, 1, 2)"

definition ConnectionDetails_header :: struct_header where "ConnectionDetails_header = (0xb5f39f082b9ac18a, 1, 2)"

definition ConnectionError_header :: struct_header where "ConnectionError_header = (0xf5f383d2785edb86, 2, 1)"

definition ConnectionResponse_header :: struct_header where "ConnectionResponse_header = (0xdbaa9d03d52b62dc, 1, 1)"

definition ConnectionResponse_Result_header :: struct_header where "ConnectionResponse_Result_header = (0x97b3c5c260257622, 1, 1)"

definition TunnelAuth_header :: struct_header where "TunnelAuth_header = (0x9496331ab9cd463f, 0, 2)"

definition RegisterConnectionParams_header :: struct_header where "RegisterConnectionParams_header = (0xe6646dec8feaa6ee, 1, 3)"

definition RegisterConnectionResults_header :: struct_header where "RegisterConnectionResults_header = (0xea50d822450d1f17, 0, 1)"

definition UnregisterConnectionParams_header :: struct_header where "UnregisterConnectionParams_header = (0xf9cb7f4431a307d0, 0, 0)"

definition UnregisterConnectionResults_header :: struct_header where "UnregisterConnectionResults_header = (0xb046e578094b1ead, 0, 0)"

definition UpdateLocalConfigurationParams_header :: struct_header where "UpdateLocalConfigurationParams_header = (0xc5d6e311876a3604, 0, 1)"

definition UpdateLocalConfigurationResults_header :: struct_header where "UpdateLocalConfigurationResults_header = (0xe5ceae5d6897d7be, 0, 0)"

text \<open>The members of the union in \<^verbatim>\<open>ConnectionResponse\<close>.\<close>

definition ERROR :: u16 where "ERROR = 0"
definition CONNECTION_DETAILS :: u16 where "CONNECTION_DETAILS = 1"

subsection \<open>\<^verbatim>\<open>ClientInfo\<close>\<close>

definition ClientInfo_hasClientId :: "'s struct_rt \<Rightarrow> nat option \<Rightarrow> 's message \<Rightarrow> bool" where
  "ClientInfo_hasClientId rt r m \<longleftrightarrow> read_pointer rt 0 r m \<noteq> NullPtr"

definition ClientInfo_getClientId :: "'s struct_rt \<Rightarrow> nat option \<Rightarrow> 's message \<Rightarrow> (u8 list) option" where
  "ClientInfo_getClientId rt r m = as_bytes (read_pointer rt 0 r m)"

definition ClientInfo_setClientId :: "'s struct_rt \<Rightarrow> u8 list \<Rightarrow> nat \<Rightarrow> 's message \<Rightarrow> 's message" where
  "ClientInfo_setClientId rt v b m = store_pointer rt 0 (BytesPtr v) b m"

definition ClientInfo_initClientId :: "'s struct_rt \<Rightarrow> nat \<Rightarrow> nat \<Rightarrow> 's message \<Rightarrow> 's message" where
  "ClientInfo_initClientId rt n b m = store_pointer rt 0 (BytesPtr (replicate n 0)) b m"

definition ClientInfo_adoptClientId :: "'s struct_rt \<Rightarrow> pvalue \<Rightarrow> nat \<Rightarrow> 's message \<Rightarrow> 's message" where
  "ClientInfo_adoptClientId rt p b m = store_pointer rt 0 p b m"

definition ClientInfo_disownClientId :: "'s struct_rt \<Rightarrow> nat \<Rightarrow> 's message \<Rightarrow> pvalue \<times> 's message" where
  "ClientInfo_disownClientId rt b m = disown rt 0 b m"

definition ClientInfo_hasFeatures :: "'s struct_rt \<Rightarrow> nat option \<Rightarrow> 's message \<Rightarrow> bool" where
  "ClientInfo_hasFeatures rt r m \<longleftrightarrow> read_pointer rt 1 r m \<noteq> NullPtr"

definition ClientInfo_getFeatures :: "'s struct_rt \<Rightarrow> nat option \<Rightarrow> 's message \<Rightarrow> (string list) option" where
  "ClientInfo_getFeatures rt r m = as_texts (read_pointer rt 1 r m)"

definition ClientInfo_setFeatures :: "'s struct_rt \<Rightarrow> string list \<Rightarrow> nat \<Rightarrow> 's message \<Rightarrow> 's message" where
  "ClientInfo_setFeatures rt v b m = store_pointer rt 1 (TextsPtr v) b m"

definition ClientInfo_initFeatures :: "'s struct_rt \<Rightarrow> nat \<Rightarrow> nat \<Rightarrow> 's message \<Rightarrow> 's message" where
  "ClientInfo_initFeatures rt n b m = store_pointer rt 1 (TextsPtr (replicate n [])) b m"

definition ClientInfo_adoptFeatures :: "'s struct_rt \<Rightarrow> pvalue \<Rightarrow> nat \<Rightarrow> 's message \<Rightarrow> 's message" where
  "ClientInfo_adoptFeatures rt p b m = store_pointer rt 1 p b m"

definition ClientInfo_disownFeatures :: "'s struct_rt \<Rightarrow> nat \<Rightarrow> 's message \<Rightarrow> pvalue \<times> 's message" where
  "ClientInfo_disownFeatures rt b m = disown rt 1 b m"

definition ClientInfo_hasVersion :: "'s struct_rt \<Rightarrow> nat option \<Rightarrow> 's message \<Rightarrow> bool" where
  "ClientInfo_hasVersion rt r m \<longleftrightarrow> read_pointer rt 2 r m \<noteq> NullPtr"

definition ClientInfo_getVersion :: "'s struct_rt \<Rightarrow> nat option \<Rightarrow> 's message \<Rightarrow> string option" where
  "ClientInfo_getVersion rt r m = as_text (read_pointer rt 2 r m)"

definition ClientInfo_setVersion :: "'s struct_rt \<Rightarrow> string \<Rightarrow> nat \<Rightarrow> 's message \<Rightarrow> 's message" where
  "ClientInfo_setVersion rt v b m = store_pointer rt 2 (BytesPtr (text_bytes v)) b m"

definition ClientInfo_initVersion :: "'s struct_rt \<Rightarrow> nat \<Rightarrow> nat \<Rightarrow> 's message \<Rightarrow> 's message" where
  "ClientInfo_initVersion rt n b m = store_pointer rt 2 (BytesPtr (replicate n 0 @ [0])) b m"

definition ClientInfo_adoptVersion :: "'s struct_rt \<Rightarrow> pvalue \<Rightarrow> nat \<Rightarrow> 's message \<Rightarrow> 's message" where
  "ClientInfo_adoptVersion rt p b m = store_pointer rt 2 p b m"

definition ClientInfo_disownVersion :: "'s struct_rt \<Rightarrow> nat \<Rightarrow> 's message \<Rightarrow> pvalue \<times> 's message" where
  "ClientInfo_disownVersion rt b m = disown rt 2 b m"

definition ClientInfo_hasArch :: "'s struct_rt \<Rightarrow> nat option \<Rightarrow> 's message \<Rightarrow> bool" where
  "ClientInfo_hasArch rt r m \<longleftrightarrow> read_pointer rt 3 r m \<noteq> NullPtr"

definition ClientInfo_getArch :: "'s struct_rt \<Rightarrow> nat option \<Rightarrow> 's message \<Rightarrow> string option" where
  "ClientInfo_getArch rt r m = as_text (read_pointer rt 3 r m)"

definition ClientInfo_setArch :: "'s struct_rt \<Rightarrow> string \<Rightarrow> nat \<Rightarrow> 's message \<Rightarrow> 's message" where
  "ClientInfo_setArch rt v b m = store_pointer rt 3 (BytesPtr (text_bytes v)) b m"

definition ClientInfo_initArch :: "'s struct_rt \<Rightarrow> nat \<Rightarrow> nat \<Rightarrow> 's message \<Rightarrow> 's message" where
  "ClientInfo_initArch rt n b m = store_pointer rt 3 (BytesPtr (replicate n 0 @ [0])) b m"

definition ClientInfo_adoptArch :: "'s struct_rt \<Rightarrow> pvalue \<Rightarrow> nat \<Rightarrow> 's message \<Rightarrow> 's message" where
  "ClientInfo_adoptArch rt p b m = store_pointer rt 3 p b m"

definition ClientInfo_disownArch :: "'s struct_rt \<Rightarrow> nat \<Rightarrow> 's message \<Rightarrow> pvalue \<times> 's message" where
  "ClientInfo_disownArch rt b m = disown rt 3 b m"

subsection \<open>\<^verbatim>\<open>ConnectionOptions\<close>\<close>

definition ConnectionOptions_hasClient :: "'s struct_rt \<Rightarrow> nat option \<Rightarrow> 's message \<Rightarrow> bool" where
  "ConnectionOptions_hasClient rt r m \<longleftrightarrow> read_pointer rt 0 r m \<noteq> NullPtr"

definition ConnectionOptions_getClient :: "'s struct_rt \<Rightarrow> nat option \<Rightarrow> 's message \<Rightarrow> (nat option) option" where
  "ConnectionOptions_getClient rt r m = as_struct (read_pointer rt 0 r m)"

definition ConnectionOptions_Builder_getClient :: "'s struct_rt \<Rightarrow> nat \<Rightarrow> 's message \<Rightarrow> (nat \<times> 's message) option" where
  "ConnectionOptions_Builder_getClient rt b m = build_struct rt ClientInfo_header 0 b m"

definition ConnectionOptions_initClient :: "'s struct_rt \<Rightarrow> nat \<Rightarrow> 's message \<Rightarrow> nat \<times> 's message" where
  "ConnectionOptions_initClient rt b m = init_struct rt ClientInfo_header 0 b (m)"

definition ConnectionOptions_adoptClient :: "'s struct_rt \<Rightarrow> pvalue \<Rightarrow> nat \<Rightarrow> 's message \<Rightarrow> 's message" where
  "ConnectionOptions_adoptClient rt p b m = store_pointer rt 0 p b m"

definition ConnectionOptions_disownClient :: "'s struct_rt \<Rightarrow> nat \<Rightarrow> 's message \<Rightarrow> pvalue \<times> 's message" where
  "ConnectionOptions_disownClient rt b m = disown rt 0 b m"

definition ConnectionOptions_hasOriginLocalIp :: "'s struct_rt \<Rightarrow> nat option \<Rightarrow> 's message \<Rightarrow> bool" where
  "ConnectionOptions_hasOriginLocalIp rt r m \<longleftrightarrow> read_pointer rt 1 r m \<noteq> NullPtr"

definition ConnectionOptions_getOriginLocalIp :: "'s struct_rt \<Rightarrow> nat option \<Rightarrow> 's message \<Rightarrow> (u8 list) option" where
  "ConnectionOptions_getOriginLocalIp rt r m = as_bytes (read_pointer rt 1 r m)"

definition ConnectionOptions_setOriginLocalIp :: "'s struct_rt \<Rightarrow> u8 list \<Rightarrow> nat \<Rightarrow> 's message \<Rightarrow> 's message" where
  "ConnectionOptions_setOriginLocalIp rt v b m = store_pointer rt 1 (BytesPtr v) b m"

definition ConnectionOptions_initOriginLocalIp :: "'s struct_rt \<Rightarrow> nat \<Rightarrow> nat \<Rightarrow> 's message \<Rightarrow> 's message" where
  "ConnectionOptions_initOriginLocalIp rt n b m = store_pointer rt 1 (BytesPtr (replicate n 0)) b m"

definition ConnectionOptions_adoptOriginLocalIp :: "'s struct_rt \<Rightarrow> pvalue \<Rightarrow> nat \<Rightarrow> 's message \<Rightarrow> 's message" where
  "ConnectionOptions_adoptOriginLocalIp rt p b m = store_pointer rt 1 p b m"

definition ConnectionOptions_disownOriginLocalIp :: "'s struct_rt \<Rightarrow> nat \<Rightarrow> 's message \<Rightarrow> pvalue \<times> 's message" where
  "ConnectionOptions_disownOriginLocalIp rt b m = disown rt 1 b m"

definition ConnectionOptions_getReplaceExisting :: "'s struct_rt \<Rightarrow> nat option \<Rightarrow> 's message \<Rightarrow> bool" where
  "ConnectionOptions_getReplaceExisting rt r m \<longleftrightarrow> read_data rt 1 0 r m \<noteq> 0"

definition ConnectionOptions_setReplaceExisting :: "'s struct_rt \<Rightarrow> bool \<Rightarrow> nat \<Rightarrow> 's message \<Rightarrow> 's message" where
  "ConnectionOptions_setReplaceExisting rt v b m = store_data rt 1 0 (of_bool v) b m"

definition ConnectionOptions_getCompressionQuality :: "'s struct_rt \<Rightarrow> nat option \<Rightarrow> 's message \<Rightarrow> u8" where
  "ConnectionOptions_getCompressionQuality rt r m = of_nat (read_data rt 8 1 r m)"

definition ConnectionOptions_setCompressionQuality :: "'s struct_rt \<Rightarrow> u8 \<Rightarrow> nat \<Rightarrow> 's message \<Rightarrow> 's message" where
  "ConnectionOptions_setCompressionQuality rt v b m = store_data rt 8 1 (unat v) b m"

definition ConnectionOptions_getNumPreviousAttempts :: "'s struct_rt \<Rightarrow> nat option \<Rightarrow> 's message \<Rightarrow> u8" where
  "ConnectionOptions_getNumPreviousAttempts rt r m = of_nat (read_data rt 8 2 r m)"

definition ConnectionOptions_setNumPreviousAttempts :: "'s struct_rt \<Rightarrow> u8 \<Rightarrow> nat \<Rightarrow> 's message \<Rightarrow> 's message" where
  "ConnectionOptions_setNumPreviousAttempts rt v b m = store_data rt 8 2 (unat v) b m"

subsection \<open>\<^verbatim>\<open>ConnectionDetails\<close>\<close>

definition ConnectionDetails_hasUuid :: "'s struct_rt \<Rightarrow> nat option \<Rightarrow> 's message \<Rightarrow> bool" where
  "ConnectionDetails_hasUuid rt r m \<longleftrightarrow> read_pointer rt 0 r m \<noteq> NullPtr"

definition ConnectionDetails_getUuid :: "'s struct_rt \<Rightarrow> nat option \<Rightarrow> 's message \<Rightarrow> (u8 list) option" where
  "ConnectionDetails_getUuid rt r m = as_bytes (read_pointer rt 0 r m)"

definition ConnectionDetails_setUuid :: "'s struct_rt \<Rightarrow> u8 list \<Rightarrow> nat \<Rightarrow> 's message \<Rightarrow> 's message" where
  "ConnectionDetails_setUuid rt v b m = store_pointer rt 0 (BytesPtr v) b m"

definition ConnectionDetails_initUuid :: "'s struct_rt \<Rightarrow> nat \<Rightarrow> nat \<Rightarrow> 's message \<Rightarrow> 's message" where
  "ConnectionDetails_initUuid rt n b m = store_pointer rt 0 (BytesPtr (replicate n 0)) b m"

definition ConnectionDetails_adoptUuid :: "'s struct_rt \<Rightarrow> pvalue \<Rightarrow> nat \<Rightarrow> 's message \<Rightarrow> 's message" where
  "ConnectionDetails_adoptUuid rt p b m = store_pointer rt 0 p b m"

definition ConnectionDetails_disownUuid :: "'s struct_rt \<Rightarrow> nat \<Rightarrow> 's message \<Rightarrow> pvalue \<times> 's message" where
  "ConnectionDetails_disownUuid rt b m = disown rt 0 b m"

definition ConnectionDetails_hasLocationName :: "'s struct_rt \<Rightarrow> nat option \<Rightarrow> 's message \<Rightarrow> bool" where
  "ConnectionDetails_hasLocationName rt r m \<longleftrightarrow> read_pointer rt 1 r m \<noteq> NullPtr"

definition ConnectionDetails_getLocationName :: "'s struct_rt \<Rightarrow> nat option \<Rightarrow> 's message \<Rightarrow> string option" where
  "ConnectionDetails_getLocationName rt r m = as_text (read_pointer rt 1 r m)"

definition ConnectionDetails_setLocationName :: "'s struct_rt \<Rightarrow> string \<Rightarrow> nat \<Rightarrow> 's message \<Rightarrow> 's message" where
  "ConnectionDetails_setLocationName rt v b m = store_pointer rt 1 (BytesPtr (text_bytes v)) b m"

definition ConnectionDetails_initLocationName :: "'s struct_rt \<Rightarrow> nat \<Rightarrow> nat \<Rightarrow> 's message \<Rightarrow> 's message" where
  "ConnectionDetails_initLocationName rt n b m = store_pointer rt 1 (BytesPtr (replicate n 0 @ [0])) b m"

definition ConnectionDetails_adoptLocationName :: "'s struct_rt \<Rightarrow> pvalue \<Rightarrow> nat \<Rightarrow> 's message \<Rightarrow> 's message" where
  "ConnectionDetails_adoptLocationName rt p b m = store_pointer rt 1 p b m"

definition ConnectionDetails_disownLocationName :: "'s struct_rt \<Rightarrow> nat \<Rightarrow> 's message \<Rightarrow> pvalue \<times> 's message" where
  "ConnectionDetails_disownLocationName rt b m = disown rt 1 b m"

definition ConnectionDetails_getTunnelIsRemotelyManaged :: "'s struct_rt \<Rightarrow> nat option \<Rightarrow> 's message \<Rightarrow> bool" where
  "ConnectionDetails_getTunnelIsRemotelyManaged rt r m \<longleftrightarrow> read_data rt 1 0 r m \<noteq> 0"

definition ConnectionDetails_setTunnelIsRemotelyManaged :: "'s struct_rt \<Rightarrow> bool \<Rightarrow> nat \<Rightarrow> 's message \<Rightarrow> 's message" where
  "ConnectionDetails_setTunnelIsRemotelyManaged rt v b m = store_data rt 1 0 (of_bool v) b m"

subsection \<open>\<^verbatim>\<open>ConnectionError\<close>\<close>

definition ConnectionError_hasCause :: "'s struct_rt \<Rightarrow> nat option \<Rightarrow> 's message \<Rightarrow> bool" where
  "ConnectionError_hasCause rt r m \<longleftrightarrow> read_pointer rt 0 r m \<noteq> NullPtr"

definition ConnectionError_getCause :: "'s struct_rt \<Rightarrow> nat option \<Rightarrow> 's message \<Rightarrow> string option" where
  "ConnectionError_getCause rt r m = as_text (read_pointer rt 0 r m)"

definition ConnectionError_setCause :: "'s struct_rt \<Rightarrow> string \<Rightarrow> nat \<Rightarrow> 's message \<Rightarrow> 's message" where
  "ConnectionError_setCause rt v b m = store_pointer rt 0 (BytesPtr (text_bytes v)) b m"

definition ConnectionError_initCause :: "'s struct_rt \<Rightarrow> nat \<Rightarrow> nat \<Rightarrow> 's message \<Rightarrow> 's message" where
  "ConnectionError_initCause rt n b m = store_pointer rt 0 (BytesPtr (replicate n 0 @ [0])) b m"

definition ConnectionError_adoptCause :: "'s struct_rt \<Rightarrow> pvalue \<Rightarrow> nat \<Rightarrow> 's message \<Rightarrow> 's message" where
  "ConnectionError_adoptCause rt p b m = store_pointer rt 0 p b m"

definition ConnectionError_disownCause :: "'s struct_rt \<Rightarrow> nat \<Rightarrow> 's message \<Rightarrow> pvalue \<times> 's message" where
  "ConnectionError_disownCause rt b m = disown rt 0 b m"

definition ConnectionError_getRetryAfter :: "'s struct_rt \<Rightarrow> nat option \<Rightarrow> 's message \<Rightarrow> u64" where
  "ConnectionError_getRetryAfter rt r m = of_nat (read_data rt 64 0 r m)"

definition ConnectionError_setRetryAfter :: "'s struct_rt \<Rightarrow> u64 \<Rightarrow> nat \<Rightarrow> 's message \<Rightarrow> 's message" where
  "ConnectionError_setRetryAfter rt v b m = store_data rt 64 0 (unat v) b m"

definition ConnectionError_getShouldRetry :: "'s struct_rt \<Rightarrow> nat option \<Rightarrow> 's message \<Rightarrow> bool" where
  "ConnectionError_getShouldRetry rt r m \<longleftrightarrow> read_data rt 1 64 r m \<noteq> 0"

definition ConnectionError_setShouldRetry :: "'s struct_rt \<Rightarrow> bool \<Rightarrow> nat \<Rightarrow> 's message \<Rightarrow> 's message" where
  "ConnectionError_setShouldRetry rt v b m = store_data rt 1 64 (of_bool v) b m"

subsection \<open>\<^verbatim>\<open>ConnectionResponse\<close>\<close>

definition ConnectionResponse_getResult :: "nat option \<Rightarrow> nat option" where
  "ConnectionResponse_getResult r = r"

definition ConnectionResponse_initResult :: "'s struct_rt \<Rightarrow> nat \<Rightarrow> 's message \<Rightarrow> nat \<times> 's message" where
  "ConnectionResponse_initResult rt b m = (b, store_pointer rt 0 NullPtr b (store_data rt 16 0 0 b m))"

subsection \<open>\<^verbatim>\<open>ConnectionResponse::Result\<close>\<close>

definition ConnectionResponse_Result_which :: "'s struct_rt \<Rightarrow> nat option \<Rightarrow> 's message \<Rightarrow> u16" where
  "ConnectionResponse_Result_which rt r m = of_nat (read_data rt 16 0 r m)"

definition ConnectionResponse_Result_isError :: "'s struct_rt \<Rightarrow> nat option \<Rightarrow> 's message \<Rightarrow> bool" where
  "ConnectionResponse_Result_isError rt r m \<longleftrightarrow> ConnectionResponse_Result_which rt r m = ERROR"

definition ConnectionResponse_Result_hasError :: "'s struct_rt \<Rightarrow> nat option \<Rightarrow> 's message \<Rightarrow> bool" where
  "ConnectionResponse_Result_hasError rt r m \<longleftrightarrow> ConnectionResponse_Result_which rt r m = ERROR \<and> read_pointer rt 0 r m \<noteq> NullPtr"

definition ConnectionResponse_Result_getError :: "bool \<Rightarrow> 's struct_rt \<Rightarrow> nat option \<Rightarrow> 's message \<Rightarrow> (nat option) option" where
  "ConnectionResponse_Result_getError debug rt r m = (if debug \<and> ConnectionResponse_Result_which rt r m \<noteq> ERROR then None
   else as_struct (read_pointer rt 0 r m))"

definition ConnectionResponse_Result_Builder_getError :: "bool \<Rightarrow> 's struct_rt \<Rightarrow> nat \<Rightarrow> 's message \<Rightarrow> (nat \<times> 's message) option" where
  "ConnectionResponse_Result_Builder_getError debug rt b m = (if debug \<and> ConnectionResponse_Result_which rt (Some b) m \<noteq> ERROR then None
   else build_struct rt ConnectionError_header 0 b m)"

definition ConnectionResponse_Result_initError :: "'s struct_rt \<Rightarrow> nat \<Rightarrow> 's message \<Rightarrow> nat \<times> 's message" where
  "ConnectionResponse_Result_initError rt b m = init_struct rt ConnectionError_header 0 b (store_data rt 16 0 (unat ERROR) b m)"

definition ConnectionResponse_Result_adoptError :: "'s struct_rt \<Rightarrow> pvalue \<Rightarrow> nat \<Rightarrow> 's message \<Rightarrow> 's message" where
  "ConnectionResponse_Result_adoptError rt p b m = store_pointer rt 0 p b (store_data rt 16 0 (unat ERROR) b m)"

definition ConnectionResponse_Result_disownError :: "bool \<Rightarrow> 's struct_rt \<Rightarrow> nat \<Rightarrow> 's message \<Rightarrow> (pvalue \<times> 's message) option" where
  "ConnectionResponse_Result_disownError debug rt b m = (if debug \<and> ConnectionResponse_Result_which rt (Some b) m \<noteq> ERROR then None
   else Some (disown rt 0 b m))"

definition ConnectionResponse_Result_isConnectionDetails :: "'s struct_rt \<Rightarrow> nat option \<Rightarrow> 's message \<Rightarrow> bool" where
  "ConnectionResponse_Result_isConnectionDetails rt r m \<longleftrightarrow> ConnectionResponse_Result_which rt r m = CONNECTION_DETAILS"

definition ConnectionResponse_Result_hasConnectionDetails :: "'s struct_rt \<Rightarrow> nat option \<Rightarrow> 's message \<Rightarrow> bool" where
  "ConnectionResponse_Result_hasConnectionDetails rt r m \<longleftrightarrow> ConnectionResponse_Result_which rt r m = CONNECTION_DETAILS \<and> read_pointer rt 0 r m \<noteq> NullPtr"

definition ConnectionResponse_Result_getConnectionDetails :: "bool \<Rightarrow> 's struct_rt \<Rightarrow> nat option \<Rightarrow> 's message \<Rightarrow> (nat option) option" where
  "ConnectionResponse_Result_getConnectionDetails debug rt r m = (if debug \<and> ConnectionResponse_Result_which rt r m \<noteq> CONNECTION_DETAILS then None
   else as_struct (read_pointer rt 0 r m))"

definition ConnectionResponse_Result_Builder_getConnectionDetails :: "bool \<Rightarrow> 's struct_rt \<Rightarrow> nat \<Rightarrow> 's message \<Rightarrow> (nat \<times> 's message) option" where
  "ConnectionResponse_Result_Builder_getConnectionDetails debug rt b m = (if debug \<and> ConnectionResponse_Result_which rt (Some b) m \<noteq> CONNECTION_DETAILS then None
   else build_struct rt ConnectionDetails_header 0 b m)"

definition ConnectionResponse_Result_initConnectionDetails :: "'s struct_rt \<Rightarrow> nat \<Rightarrow> 's message \<Rightarrow> nat \<times> 's message" where
  "ConnectionResponse_Result_initConnectionDetails rt b m = init_struct rt ConnectionDetails_header 0 b (store_data rt 16 0 (unat CONNECTION_DETAILS) b m)"

definition ConnectionResponse_Result_adoptConnectionDetails :: "'s struct_rt \<Rightarrow> pvalue \<Rightarrow> nat \<Rightarrow> 's message \<Rightarrow> 's message" where
  "ConnectionResponse_Result_adoptConnectionDetails rt p b m = store_pointer rt 0 p b (store_data rt 16 0 (unat CONNECTION_DETAILS) b m)"

definition ConnectionResponse_Result_disownConnectionDetails :: "bool \<Rightarrow> 's struct_rt \<Rightarrow> nat \<Rightarrow> 's message \<Rightarrow> (pvalue \<times> 's message) option" where
  "ConnectionResponse_Result_disownConnectionDetails debug rt b m = (if debug \<and> ConnectionResponse_Result_which rt (Some b) m \<noteq> CONNECTION_DETAILS then None
   else Some (disown rt 0 b m))"

subsection \<open>\<^verbatim>\<open>TunnelAuth\<close>\<close>

definition TunnelAuth_hasAccountTag :: "'s struct_rt \<Rightarrow> nat option \<Rightarrow> 's message \<Rightarrow> bool" where
  "TunnelAuth_hasAccountTag rt r m \<longleftrightarrow> read_pointer rt 0 r m \<noteq> NullPtr"

definition TunnelAuth_getAccountTag :: "'s struct_rt \<Rightarrow> nat option \<Rightarrow> 's message \<Rightarrow> string option" where
  "TunnelAuth_getAccountTag rt r m = as_text (read_pointer rt 0 r m)"

definition TunnelAuth_setAccountTag :: "'s struct_rt \<Rightarrow> string \<Rightarrow> nat \<Rightarrow> 's message \<Rightarrow> 's message" where
  "TunnelAuth_setAccountTag rt v b m = store_pointer rt 0 (BytesPtr (text_bytes v)) b m"

definition TunnelAuth_initAccountTag :: "'s struct_rt \<Rightarrow> nat \<Rightarrow> nat \<Rightarrow> 's message \<Rightarrow> 's message" where
  "TunnelAuth_initAccountTag rt n b m = store_pointer rt 0 (BytesPtr (replicate n 0 @ [0])) b m"

definition TunnelAuth_adoptAccountTag :: "'s struct_rt \<Rightarrow> pvalue \<Rightarrow> nat \<Rightarrow> 's message \<Rightarrow> 's message" where
  "TunnelAuth_adoptAccountTag rt p b m = store_pointer rt 0 p b m"

definition TunnelAuth_disownAccountTag :: "'s struct_rt \<Rightarrow> nat \<Rightarrow> 's message \<Rightarrow> pvalue \<times> 's message" where
  "TunnelAuth_disownAccountTag rt b m = disown rt 0 b m"

definition TunnelAuth_hasTunnelSecret :: "'s struct_rt \<Rightarrow> nat option \<Rightarrow> 's message \<Rightarrow> bool" where
  "TunnelAuth_hasTunnelSecret rt r m \<longleftrightarrow> read_pointer rt 1 r m \<noteq> NullPtr"

definition TunnelAuth_getTunnelSecret :: "'s struct_rt \<Rightarrow> nat option \<Rightarrow> 's message \<Rightarrow> (u8 list) option" where
  "TunnelAuth_getTunnelSecret rt r m = as_bytes (read_pointer rt 1 r m)"

definition TunnelAuth_setTunnelSecret :: "'s struct_rt \<Rightarrow> u8 list \<Rightarrow> nat \<Rightarrow> 's message \<Rightarrow> 's message" where
  "TunnelAuth_setTunnelSecret rt v b m = store_pointer rt 1 (BytesPtr v) b m"

definition TunnelAuth_initTunnelSecret :: "'s struct_rt \<Rightarrow> nat \<Rightarrow> nat \<Rightarrow> 's message \<Rightarrow> 's message" where
  "TunnelAuth_initTunnelSecret rt n b m = store_pointer rt 1 (BytesPtr (replicate n 0)) b m"

definition TunnelAuth_adoptTunnelSecret :: "'s struct_rt \<Rightarrow> pvalue \<Rightarrow> nat \<Rightarrow> 's message \<Rightarrow> 's message" where
  "TunnelAuth_adoptTunnelSecret rt p b m = store_pointer rt 1 p b m"

definition TunnelAuth_disownTunnelSecret :: "'s struct_rt \<Rightarrow> nat \<Rightarrow> 's message \<Rightarrow> pvalue \<times> 's message" where
  "TunnelAuth_disownTunnelSecret rt b m = disown rt 1 b m"

subsection \<open>\<^verbatim>\<open>RegisterConnectionParams\<close>\<close>

definition RegisterConnectionParams_hasAuth :: "'s struct_rt \<Rightarrow> nat option \<Rightarrow> 's message \<Rightarrow> bool" where
  "RegisterConnectionParams_hasAuth rt r m \<longleftrightarrow> read_pointer rt 0 r m \<noteq> NullPtr"

definition RegisterConnectionParams_getAuth :: "'s struct_rt \<Rightarrow> nat option \<Rightarrow> 's message \<Rightarrow> (nat option) option" where
  "RegisterConnectionParams_getAuth rt r m = as_struct (read_pointer rt 0 r m)"

definition RegisterConnectionParams_Builder_getAuth :: "'s struct_rt \<Rightarrow> nat \<Rightarrow> 's message \<Rightarrow> (nat \<times> 's message) option" where
  "RegisterConnectionParams_Builder_getAuth rt b m = build_struct rt TunnelAuth_header 0 b m"

definition RegisterConnectionParams_initAuth :: "'s struct_rt \<Rightarrow> nat \<Rightarrow> 's message \<Rightarrow> nat \<times> 's message" where
  "RegisterConnectionParams_initAuth rt b m = init_struct rt TunnelAuth_header 0 b (m)"

definition RegisterConnectionParams_adoptAuth :: "'s struct_rt \<Rightarrow> pvalue \<Rightarrow> nat \<Rightarrow> 's message \<Rightarrow> 's message" where
  "RegisterConnectionParams_adoptAuth rt p b m = store_pointer rt 0 p b m"

definition RegisterConnectionParams_disownAuth :: "'s struct_rt \<Rightarrow> nat \<Rightarrow> 's message \<Rightarrow> pvalue \<times> 's message" where
  "RegisterConnectionParams_disownAuth rt b m = disown rt 0 b m"

definition RegisterConnectionParams_hasTunnelId :: "'s struct_rt \<Rightarrow> nat option \<Rightarrow> 's message \<Rightarrow> bool" where
  "RegisterConnectionParams_hasTunnelId rt r m \<longleftrightarrow> read_pointer rt 1 r m \<noteq> NullPtr"

definition RegisterConnectionParams_getTunnelId :: "'s struct_rt \<Rightarrow> nat option \<Rightarrow> 's message \<Rightarrow> (u8 list) option" where
  "RegisterConnectionParams_getTunnelId rt r m = as_bytes (read_pointer rt 1 r m)"

definition RegisterConnectionParams_setTunnelId :: "'s struct_rt \<Rightarrow> u8 list \<Rightarrow> nat \<Rightarrow> 's message \<Rightarrow> 's message" where
  "RegisterConnectionParams_setTunnelId rt v b m = store_pointer rt 1 (BytesPtr v) b m"

definition RegisterConnectionParams_initTunnelId :: "'s struct_rt \<Rightarrow> nat \<Rightarrow> nat \<Rightarrow> 's message \<Rightarrow> 's message" where
  "RegisterConnectionParams_initTunnelId rt n b m = store_pointer rt 1 (BytesPtr (replicate n 0)) b m"

definition RegisterConnectionParams_adoptTunnelId :: "'s struct_rt \<Rightarrow> pvalue \<Rightarrow> nat \<Rightarrow> 's message \<Rightarrow> 's message" where
  "RegisterConnectionParams_adoptTunnelId rt p b m = store_pointer rt 1 p b m"

definition RegisterConnectionParams_disownTunnelId :: "'s struct_rt \<Rightarrow> nat \<Rightarrow> 's message \<Rightarrow> pvalue \<times> 's message" where
  "RegisterConnectionParams_disownTunnelId rt b m = disown rt 1 b m"

definition RegisterConnectionParams_getConnIndex :: "'s struct_rt \<Rightarrow> nat option \<Rightarrow> 's message \<Rightarrow> u8" where
  "RegisterConnectionParams_getConnIndex rt r m = of_nat (read_data rt 8 0 r m)"

definition RegisterConnectionParams_setConnIndex :: "'s struct_rt \<Rightarrow> u8 \<Rightarrow> nat \<Rightarrow> 's message \<Rightarrow> 's message" where
  "RegisterConnectionParams_setConnIndex rt v b m = store_data rt 8 0 (unat v) b m"

definition RegisterConnectionParams_hasOptions :: "'s struct_rt \<Rightarrow> nat option \<Rightarrow> 's message \<Rightarrow> bool" where
  "RegisterConnectionParams_hasOptions rt r m \<longleftrightarrow> read_pointer rt 2 r m \<noteq> NullPtr"

definition RegisterConnectionParams_getOptions :: "'s struct_rt \<Rightarrow> nat option \<Rightarrow> 's message \<Rightarrow> (nat option) option" where
  "RegisterConnectionParams_getOptions rt r m = as_struct (read_pointer rt 2 r m)"

definition RegisterConnectionParams_Builder_getOptions :: "'s struct_rt \<Rightarrow> nat \<Rightarrow> 's message \<Rightarrow> (nat \<times> 's message) option" where
  "RegisterConnectionParams_Builder_getOptions rt b m = build_struct rt ConnectionOptions_header 2 b m"

definition RegisterConnectionParams_initOptions :: "'s struct_rt \<Rightarrow> nat \<Rightarrow> 's message \<Rightarrow> nat \<times> 's message" where
  "RegisterConnectionParams_initOptions rt b m = init_struct rt ConnectionOptions_header 2 b (m)"

definition RegisterConnectionParams_adoptOptions :: "'s struct_rt \<Rightarrow> pvalue \<Rightarrow> nat \<Rightarrow> 's message \<Rightarrow> 's message" where
  "RegisterConnectionParams_adoptOptions rt p b m = store_pointer rt 2 p b m"

definition RegisterConnectionParams_disownOptions :: "'s struct_rt \<Rightarrow> nat \<Rightarrow> 's message \<Rightarrow> pvalue \<times> 's message" where
  "RegisterConnectionParams_disownOptions rt b m = disown rt 2 b m"

subsection \<open>\<^verbatim>\<open>RegisterConnectionResults\<close>\<close>

definition RegisterConnectionResults_hasResult :: "'s struct_rt \<Rightarrow> nat option \<Rightarrow> 's message \<Rightarrow> bool" where
  "RegisterConnectionResults_hasResult rt r m \<longleftrightarrow> read_pointer rt 0 r m \<noteq> NullPtr"

definition RegisterConnectionResults_getResult :: "'s struct_rt \<Rightarrow> nat option \<Rightarrow> 's message \<Rightarrow> (nat option) option" where
  "RegisterConnectionResults_getResult rt r m = as_struct (read_pointer rt 0 r m)"

definition RegisterConnectionResults_Builder_getResult :: "'s struct_rt \<Rightarrow> nat \<Rightarrow> 's message \<Rightarrow> (nat \<times> 's message) option" where
  "RegisterConnectionResults_Builder_getResult rt b m = build_struct rt ConnectionResponse_header 0 b m"

definition RegisterConnectionResults_initResult :: "'s struct_rt \<Rightarrow> nat \<Rightarrow> 's message \<Rightarrow> nat \<times> 's message" where
  "RegisterConnectionResults_initResult rt b m = init_struct rt ConnectionResponse_header 0 b (m)"

definition RegisterConnectionResults_adoptResult :: "'s struct_rt \<Rightarrow> pvalue \<Rightarrow> nat \<Rightarrow> 's message \<Rightarrow> 's message" where
  "RegisterConnectionResults_adoptResult rt p b m = store_pointer rt 0 p b m"

definition RegisterConnectionResults_disownResult :: "'s struct_rt \<Rightarrow> nat \<Rightarrow> 's message \<Rightarrow> pvalue \<times> 's message" where
  "RegisterConnectionResults_disownResult rt b m = disown rt 0 b m"

subsection \<open>\<^verbatim>\<open>UpdateLocalConfigurationParams\<close>\<close>

definition UpdateLocalConfigurationParams_hasConfig :: "'s struct_rt \<Rightarrow> nat option \<Rightarrow> 's message \<Rightarrow> bool" where
  "UpdateLocalConfigurationParams_hasConfig rt r m \<longleftrightarrow> read_pointer rt 0 r m \<noteq> NullPtr"

definition UpdateLocalConfigurationParams_getConfig :: "'s struct_rt \<Rightarrow> nat option \<Rightarrow> 's message \<Rightarrow> (u8 list) option" where
  "UpdateLocalConfigurationParams_getConfig rt r m = as_bytes (read_pointer rt 0 r m)"

definition UpdateLocalConfigurationParams_setConfig :: "'s struct_rt \<Rightarrow> u8 list \<Rightarrow> nat \<Rightarrow> 's message \<Rightarrow> 's message" where
  "UpdateLocalConfigurationParams_setConfig rt v b m = store_pointer rt 0 (BytesPtr v) b m"

definition UpdateLocalConfigurationParams_initConfig :: "'s struct_rt \<Rightarrow> nat \<Rightarrow> nat \<Rightarrow> 's message \<Rightarrow> 's message" where
  "UpdateLocalConfigurationParams_initConfig rt n b m = store_pointer rt 0 (BytesPtr (replicate n 0)) b m"

definition UpdateLocalConfigurationParams_adoptConfig :: "'s struct_rt \<Rightarrow> pvalue \<Rightarrow> nat \<Rightarrow> 's message \<Rightarrow> 's message" where
  "UpdateLocalConfigurationParams_adoptConfig rt p b m = store_pointer rt 0 p b m"

definition UpdateLocalConfigurationParams_disownConfig :: "'s struct_rt \<Rightarrow> nat \<Rightarrow> 's message \<Rightarrow> pvalue \<times> 's message" where
  "UpdateLocalConfigurationParams_disownConfig rt b m = disown rt 0 b m"

subsection \<open>Setters of structs\<close>

definition ConnectionOptions_setClient :: "'s struct_rt \<Rightarrow> 's struct_copy \<Rightarrow> 's message \<times> nat option \<Rightarrow> nat \<Rightarrow> 's message \<Rightarrow> 's message" where
  "ConnectionOptions_setClient rt cp v b m = set_struct rt cp 0 v b m"

definition ConnectionResponse_Result_setError :: "'s struct_rt \<Rightarrow> 's struct_copy \<Rightarrow> 's message \<times> nat option \<Rightarrow> nat \<Rightarrow> 's message \<Rightarrow> 's message" where
  "ConnectionResponse_Result_setError rt cp v b m = set_struct rt cp 0 v b (store_data rt 16 0 (unat ERROR) b m)"

definition ConnectionResponse_Result_setConnectionDetails :: "'s struct_rt \<Rightarrow> 's struct_copy \<Rightarrow> 's message \<times> nat option \<Rightarrow> nat \<Rightarrow> 's message \<Rightarrow> 's message" where
  "ConnectionResponse_Result_setConnectionDetails rt cp v b m = set_struct rt cp 0 v b (store_data rt 16 0 (unat CONNECTION_DETAILS) b m)"

definition RegisterConnectionParams_setAuth :: "'s struct_rt \<Rightarrow> 's struct_copy \<Rightarrow> 's message \<times> nat option \<Rightarrow> nat \<Rightarrow> 's message \<Rightarrow> 's message" where
  "RegisterConnectionParams_setAuth rt cp v b m = set_struct rt cp 0 v b m"

definition RegisterConnectionParams_setOptions :: "'s struct_rt \<Rightarrow> 's struct_copy \<Rightarrow> 's message \<times> nat option \<Rightarrow> nat \<Rightarrow> 's message \<Rightarrow> 's message" where
  "RegisterConnectionParams_setOptions rt cp v b m = set_struct rt cp 2 v b m"

definition RegisterConnectionResults_setResult :: "'s struct_rt \<Rightarrow> 's struct_copy \<Rightarrow> 's message \<times> nat option \<Rightarrow> nat \<Rightarrow> 's message \<Rightarrow> 's message" where
  "RegisterConnectionResults_setResult rt cp v b m = set_struct rt cp 0 v b m"

subsection \<open>Pipelines\<close>

definition ConnectionOptions_Pipeline_getClient :: "pipeline \<Rightarrow> pipeline" where
  "ConnectionOptions_Pipeline_getClient p = pipeline_pointer 0 p"

definition ConnectionResponse_Pipeline_getResult :: "pipeline \<Rightarrow> pipeline" where
  "ConnectionResponse_Pipeline_getResult p = pipeline_noop p"

definition RegisterConnectionParams_Pipeline_getAuth :: "pipeline \<Rightarrow> pipeline" where
  "RegisterConnectionParams_Pipeline_getAuth p = pipeline_pointer 0 p"

definition RegisterConnectionParams_Pipeline_getOptions :: "pipeline \<Rightarrow> pipeline" where
  "RegisterConnectionParams_Pipeline_getOptions p = pipeline_pointer 2 p"

definition RegisterConnectionResults_Pipeline_getResult :: "pipeline \<Rightarrow> pipeline" where
  "RegisterConnectionResults_Pipeline_getResult p = pipeline_pointer 0 p"

section \<open>Lemmas\<close>

lemmas pipeline_defs = ConnectionOptions_Pipeline_getClient_def ConnectionResponse_Pipeline_getResult_def
  RegisterConnectionParams_Pipeline_getAuth_def RegisterConnectionParams_Pipeline_getOptions_def
  RegisterConnectionResults_Pipeline_getResult_def pipeline_pointer_def pipeline_noop_def

text \<open>Once the answer is there, a pipeline leads to what the readers' getters lead to.\<close>

lemma pipelines_follow_getters:
  "follow rt (ConnectionOptions_Pipeline_getClient p) r m = Option.bind (follow rt p r m) (\<lambda>a. ConnectionOptions_getClient rt a m)"
  "follow rt (ConnectionResponse_Pipeline_getResult p) r m = map_option ConnectionResponse_getResult (follow rt p r m)"
  "follow rt (RegisterConnectionParams_Pipeline_getAuth p) r m =
     Option.bind (follow rt p r m) (\<lambda>a. RegisterConnectionParams_getAuth rt a m)"
  "follow rt (RegisterConnectionParams_Pipeline_getOptions p) r m =
     Option.bind (follow rt p r m) (\<lambda>a. RegisterConnectionParams_getOptions rt a m)"
  "follow rt (RegisterConnectionResults_Pipeline_getResult p) r m =
     Option.bind (follow rt p r m) (\<lambda>a. RegisterConnectionResults_getResult rt a m)"
  by (simp_all add: pipeline_defs follow_snoc ConnectionOptions_getClient_def RegisterConnectionParams_getAuth_def
      RegisterConnectionParams_getOptions_def RegisterConnectionResults_getResult_def ConnectionResponse_getResult_def
      map_option_case split: option.split)

context struct_runtime
begin

text \<open>
  A member of the union that is set from a reader is the member that the getter then returns, as long as the copy leaves the
  structs alone that were there.
\<close>

lemma set_union_member:
  assumes "copy_keeps cp" "b < next_object m" "sized rt ConnectionResponse_header b m"
  shows "ConnectionResponse_Result_isError rt (Some b) (ConnectionResponse_Result_setError rt cp v b m) \<and>
     ConnectionResponse_Result_getError debug rt (Some b) (ConnectionResponse_Result_setError rt cp v b m) =
       Some (Some (fst (cp v (store_data rt 16 0 (unat ERROR) b m)))) \<and>
     ConnectionResponse_Result_isConnectionDetails rt (Some b) (ConnectionResponse_Result_setConnectionDetails rt cp v b m) \<and>
     ConnectionResponse_Result_getConnectionDetails debug rt (Some b) (ConnectionResponse_Result_setConnectionDetails rt cp v b m) =
       Some (Some (fst (cp v (store_data rt 16 0 (unat CONNECTION_DETAILS) b m))))"
proof -
  have keep: "objects (snd (cp v (store_data rt 16 0 x b m))) b = rt_set_data rt 16 0 x (objects m b)" for x
    using assms(1,2) by (cases v) (simp add: copy_keeps_def del: split_paired_All)
  show ?thesis using assms(3)
    by (simp add: ConnectionResponse_Result_setError_def ConnectionResponse_Result_setConnectionDetails_def
      ConnectionResponse_Result_isError_def ConnectionResponse_Result_isConnectionDetails_def ConnectionResponse_Result_which_def
      ConnectionResponse_Result_getError_def ConnectionResponse_Result_getConnectionDetails_def set_struct_eq read_pointer_def
      read_data_def reader_struct_def keep set_pointer_data set_pointer_same set_data_same ERROR_def CONNECTION_DETAILS_def
      sized_def ConnectionResponse_header_def)
qed

end

end
