(* ===== verification/Rpc_Wire.thy ===== *)
theory Rpc_Wire
  imports Capnp_Accessors Quic_Client "HOL-Library.Monad_Syntax"
begin

text \<open>
  The registration call on the wire: what \<^verbatim>\<open>register_connection\<close> of \<^verbatim>\<open>quic_client.cpp\<close> does with the generated builders and
  readers, the calls and the dispatch of \<^verbatim>\<open>tunnelrpc.capnp.c++\<close>, and, as the specification, an edge that reads and answers with the
  same accessors. All over a runtime \<open>rt\<close> with the laws of \<open>struct_runtime\<close>.
\<close>

section \<open>Definitions\<close>

subsection \<open>Calls and their dispatch\<close>

type_synonym 's call_request = "(u64 \<times> u16) \<times> nat \<times> 's message"

definition registerConnectionRequest :: "'s struct_rt \<Rightarrow> 's message \<Rightarrow> 's call_request" where
  "registerConnectionRequest rt m = ((0xf71695ec7fe85497, 0), new_struct rt RegisterConnectionParams_header m)"

definition unregisterConnectionRequest :: "'s struct_rt \<Rightarrow> 's message \<Rightarrow> 's call_request" where
  "unregisterConnectionRequest rt m = ((0xf71695ec7fe85497, 1), new_struct rt UnregisterConnectionParams_header m)"

definition updateLocalConfigurationRequest :: "'s struct_rt \<Rightarrow> 's message \<Rightarrow> 's call_request" where
  "updateLocalConfigurationRequest rt m = ((0xf71695ec7fe85497, 2), new_struct rt UpdateLocalConfigurationParams_header m)"

datatype dispatched = RegisterConnection | UnregisterConnection | UpdateLocalConfiguration | Unimplemented

definition dispatchCallInternal :: "u16 \<Rightarrow> dispatched" where
  "dispatchCallInternal methodId =
     (if methodId = 0 then RegisterConnection
      else if methodId = 1 then UnregisterConnection
      else if methodId = 2 then UpdateLocalConfiguration
      else Unimplemented)"

definition dispatchCall :: "u64 \<Rightarrow> u16 \<Rightarrow> dispatched" where
  "dispatchCall interfaceId methodId =
     (if interfaceId = 0xf71695ec7fe85497 then dispatchCallInternal methodId else Unimplemented)"

text \<open>What a server that overrides nothing answers: the interface, the method and their ids in the error.\<close>

definition Server_registerConnection :: "string \<times> string \<times> u64 \<times> u16" where
  "Server_registerConnection = (''tunnelrpc.capnp:RegistrationServer'', ''registerConnection'', 0xf71695ec7fe85497, 0)"

definition Server_unregisterConnection :: "string \<times> string \<times> u64 \<times> u16" where
  "Server_unregisterConnection = (''tunnelrpc.capnp:RegistrationServer'', ''unregisterConnection'', 0xf71695ec7fe85497, 1)"

definition Server_updateLocalConfiguration :: "string \<times> string \<times> u64 \<times> u16" where
  "Server_updateLocalConfiguration = (''tunnelrpc.capnp:RegistrationServer'', ''updateLocalConfiguration'', 0xf71695ec7fe85497, 2)"

subsection \<open>The request\<close>

fun set_features :: "'s struct_rt \<Rightarrow> nat \<Rightarrow> string list \<Rightarrow> nat \<Rightarrow> 's message \<Rightarrow> 's message option" where
  "set_features rt i [] ci m = Some m"
| "set_features rt i (t # ts) ci m = Option.bind (set_text rt 1 i t ci m) (set_features rt (Suc i) ts ci)"

text \<open>
  The texts of the request are taken whole, as \<^verbatim>\<open>Text\<close> values without a NUL inside: how the runtime turns a \<^verbatim>\<open>std::string\<close> into a \<^verbatim>\<open>Text\<close>
  is not in the repository, and the strings given are the program's constants and a tag from the configuration.
\<close>

definition fill_request :: "'s struct_rt \<Rightarrow> register_request \<Rightarrow> nat \<Rightarrow> 's message \<Rightarrow> 's message option" where
  "fill_request rt req b m =
     (let (a, m) = RegisterConnectionParams_initAuth rt b m;
          m = TunnelAuth_setAccountTag rt (account_tag (auth req)) a m;
          m = TunnelAuth_setTunnelSecret rt (tunnel_secret (auth req)) a m;
          m = RegisterConnectionParams_setTunnelId rt (tunnel_uuid req) b m;
          m = RegisterConnectionParams_setConnIndex rt (conn_index req) b m;
          (opts, m) = RegisterConnectionParams_initOptions rt b m;
          (ci, m) = ConnectionOptions_initClient rt opts m;
          m = ClientInfo_setClientId rt (tunnel_uuid req) ci m;
          m = ClientInfo_setVersion rt (version req) ci m;
          m = ClientInfo_setArch rt (arch req) ci m;
          m = ClientInfo_initFeatures rt (length (features req)) ci m
      in set_features rt 0 (features req) ci m)"

subsection \<open>The response\<close>

text \<open>What the call leaves in \<^verbatim>\<open>resp_out\<close>, and whether reading threw; an exception leaves what was assigned before it.\<close>

definition take_response :: "bool \<Rightarrow> 's struct_rt \<Rightarrow> nat option \<Rightarrow> 's message \<Rightarrow> register_response \<Rightarrow> bool \<times> register_response" where
  "take_response debug rt r m resp =
     (case RegisterConnectionResults_getResult rt r m of
        None \<Rightarrow> (True, resp)
      | Some rr \<Rightarrow>
     (let u = ConnectionResponse_getResult rr in
      if ConnectionResponse_Result_isConnectionDetails rt u m then
        (case ConnectionResponse_Result_getConnectionDetails debug rt u m of
           None \<Rightarrow> (True, resp)
         | Some d \<Rightarrow>
        (case ConnectionDetails_getUuid rt d m of
           None \<Rightarrow> (True, resp)
         | Some uid \<Rightarrow>
        (let resp = (if length uid = 16 then resp\<lparr>assigned_uuid := uid\<rparr> else resp) in
         case ConnectionDetails_getLocationName rt d m of
           None \<Rightarrow> (True, resp)
         | Some loc \<Rightarrow> (False, resp\<lparr>location_name := c_str loc, resp_ok := True\<rparr>))))
      else
        (case ConnectionResponse_Result_getError debug rt u m of
           None \<Rightarrow> (True, resp)
         | Some e \<Rightarrow>
        (case ConnectionError_getCause rt e m of
           None \<Rightarrow> (True, resp)
         | Some cause \<Rightarrow>
             (False, resp\<lparr>error_cause := c_str cause, retry_after_seconds := ConnectionError_getRetryAfter rt e m,
                should_retry := ConnectionError_getShouldRetry rt e m, resp_ok := False\<rparr>)))))"

definition register_code :: "bool \<times> register_response \<Rightarrow> errc option" where
  "register_code tr = (if fst tr then Some ProtocolError else if \<not> resp_ok (snd tr) then Some PermissionDenied else None)"

subsection \<open>Specification\<close>

text \<open>An edge that reads the parameters, at their place in the message, with the generated readers.\<close>

definition read_call :: "'s struct_rt \<Rightarrow> nat \<Rightarrow> 's message \<Rightarrow> register_call option" where
  "read_call rt b m = do {
     a \<leftarrow> RegisterConnectionParams_getAuth rt (Some b) m;
     tag \<leftarrow> TunnelAuth_getAccountTag rt a m;
     secret \<leftarrow> TunnelAuth_getTunnelSecret rt a m;
     tid \<leftarrow> RegisterConnectionParams_getTunnelId rt (Some b) m;
     opts \<leftarrow> RegisterConnectionParams_getOptions rt (Some b) m;
     ci \<leftarrow> ConnectionOptions_getClient rt opts m;
     cid \<leftarrow> ClientInfo_getClientId rt ci m;
     ver \<leftarrow> ClientInfo_getVersion rt ci m;
     arc \<leftarrow> ClientInfo_getArch rt ci m;
     feats \<leftarrow> ClientInfo_getFeatures rt ci m;
     Some \<lparr>rc_account_tag = tag, rc_tunnel_secret = secret, rc_tunnel_id = tid,
       rc_conn_index = RegisterConnectionParams_getConnIndex rt (Some b) m, rc_client_id = cid,
       rc_version = ver, rc_arch = arc, rc_features = feats\<rparr>
   }"

text \<open>The options the client does not set, as an edge reads them.\<close>

definition read_options :: "'s struct_rt \<Rightarrow> nat \<Rightarrow> 's message \<Rightarrow> (u8 list \<times> bool \<times> u8 \<times> u8) option" where
  "read_options rt b m = do {
     opts \<leftarrow> RegisterConnectionParams_getOptions rt (Some b) m;
     ip \<leftarrow> ConnectionOptions_getOriginLocalIp rt opts m;
     Some (ip, ConnectionOptions_getReplaceExisting rt opts m, ConnectionOptions_getCompressionQuality rt opts m,
       ConnectionOptions_getNumPreviousAttempts rt opts m)
   }"

text \<open>Its answers, at place \<open>r\<close>, built with the generated builders.\<close>

definition answer_details :: "'s struct_rt \<Rightarrow> u8 list \<Rightarrow> string \<Rightarrow> 's message \<Rightarrow> nat \<times> 's message" where
  "answer_details rt uid loc m =
     (let (r, m) = new_struct rt RegisterConnectionResults_header m;
          (c, m) = RegisterConnectionResults_initResult rt r m;
          (u, m) = ConnectionResponse_initResult rt c m;
          (d, m) = ConnectionResponse_Result_initConnectionDetails rt u m;
          m = ConnectionDetails_setUuid rt uid d m;
          m = ConnectionDetails_setLocationName rt loc d m;
          m = ConnectionDetails_setTunnelIsRemotelyManaged rt True d m
      in (r, m))"

definition answer_error :: "'s struct_rt \<Rightarrow> string \<Rightarrow> u64 \<Rightarrow> bool \<Rightarrow> 's message \<Rightarrow> nat \<times> 's message" where
  "answer_error rt cause n again m =
     (let (r, m) = new_struct rt RegisterConnectionResults_header m;
          (c, m) = RegisterConnectionResults_initResult rt r m;
          (u, m) = ConnectionResponse_initResult rt c m;
          (e, m) = ConnectionResponse_Result_initError rt u m;
          m = ConnectionError_setCause rt cause e m;
          m = ConnectionError_setRetryAfter rt n e m;
          m = ConnectionError_setShouldRetry rt again e m
      in (r, m))"

text \<open>What a response means, as the outcome that the model of the client takes.\<close>

definition wire_outcome :: "bool \<Rightarrow> 's struct_rt \<Rightarrow> nat option \<Rightarrow> 's message \<Rightarrow> rpc_outcome" where
  "wire_outcome debug rt r m =
     (case RegisterConnectionResults_getResult rt r m of
        None \<Rightarrow> RpcThrew
      | Some u \<Rightarrow>
      if ConnectionResponse_Result_isConnectionDetails rt u m then
        case_option RpcThrew id (do {
          d \<leftarrow> ConnectionResponse_Result_getConnectionDetails debug rt u m;
          uid \<leftarrow> ConnectionDetails_getUuid rt d m;
          loc \<leftarrow> ConnectionDetails_getLocationName rt d m;
          Some (RpcDetails uid loc)
        })
      else
        case_option RpcThrew id (do {
          e \<leftarrow> ConnectionResponse_Result_getError debug rt u m;
          cause \<leftarrow> ConnectionError_getCause rt e m;
          Some (RpcError cause (ConnectionError_getRetryAfter rt e m) (ConnectionError_getShouldRetry rt e m))
        }))"

definition empty_message :: "bit_struct message" where
  "empty_message = \<lparr>objects = (\<lambda>_. rt_new bit_rt 0 0), next_object = 0\<rparr>"

section \<open>Lemmas\<close>

lemmas header_defs = ClientInfo_header_def ConnectionOptions_header_def ConnectionDetails_header_def ConnectionError_header_def
  ConnectionResponse_header_def TunnelAuth_header_def RegisterConnectionParams_header_def RegisterConnectionResults_header_def

lemmas union_header_defs = ConnectionResponse_Result_header_def UpdateLocalConfigurationParams_header_def

lemmas response_defs = RegisterConnectionResults_getResult_def ConnectionResponse_getResult_def
  ConnectionResponse_Result_isConnectionDetails_def ConnectionResponse_Result_which_def
  ConnectionResponse_Result_getConnectionDetails_def ConnectionDetails_getUuid_def ConnectionDetails_getLocationName_def
  ConnectionResponse_Result_getError_def ConnectionError_getCause_def ConnectionError_getRetryAfter_def
  ConnectionError_getShouldRetry_def

lemma unat_bound: "unat (n :: 'a::len word) < 2 ^ LENGTH('a)"
  by (rule unsigned_less)

text \<open>Each call is dispatched to the method of its name, and the method that is not overridden reports the ids of the call.\<close>

lemma calls_dispatched:
  "case fst (registerConnectionRequest rt m) of (i, k) \<Rightarrow>
     dispatchCall i k = RegisterConnection \<and> snd (snd Server_registerConnection) = (i, k)"
  "case fst (unregisterConnectionRequest rt m) of (i, k) \<Rightarrow>
     dispatchCall i k = UnregisterConnection \<and> snd (snd Server_unregisterConnection) = (i, k)"
  "case fst (updateLocalConfigurationRequest rt m) of (i, k) \<Rightarrow>
     dispatchCall i k = UpdateLocalConfiguration \<and> snd (snd Server_updateLocalConfiguration) = (i, k)"
  by (simp_all add: registerConnectionRequest_def unregisterConnectionRequest_def updateLocalConfigurationRequest_def
      dispatchCall_def dispatchCallInternal_def Server_registerConnection_def Server_unregisterConnection_def
      Server_updateLocalConfiguration_def)

context struct_runtime
begin

lemma set_features_result:
  assumes "1 < rt_pointers rt (objects m ci)" "read_pointer rt 1 (Some ci) m = TextsPtr ts" "i + length us \<le> length ts"
  shows "\<exists>m'. set_features rt i us ci m = Some m' \<and>
     read_pointer rt 1 (Some ci) m' = TextsPtr (take i ts @ us @ drop (i + length us) ts) \<and>
     (\<forall>a j. (a, j) \<noteq> (ci, 1) \<longrightarrow> read_pointer rt j (Some a) m' = read_pointer rt j (Some a) m) \<and>
     (\<forall>a w j. read_data rt w j (Some a) m' = read_data rt w j (Some a) m)"
  using assms
proof (induction us arbitrary: i ts m)
  case (Cons u us)
  let ?m = "store_pointer rt 1 (TextsPtr (ts[i := u])) ci m"
  have s: "set_text rt 1 i u ci m = Some ?m" using Cons.prems by (simp add: set_text_def)
  have p: "read_pointer rt 1 (Some ci) ?m = TextsPtr (ts[i := u])" "1 < rt_pointers rt (objects ?m ci)"
    using Cons.prems by (simp_all add: read_pointer_store del: One_nat_def)
  from Cons.IH [OF p(2,1), of "Suc i"] Cons.prems obtain m' where m':
    "set_features rt (Suc i) us ci ?m = Some m'"
    "read_pointer rt 1 (Some ci) m' = TextsPtr (take (Suc i) (ts[i := u]) @ us @ drop (Suc i + length us) (ts[i := u]))"
    "\<forall>a j. (a, j) \<noteq> (ci, 1) \<longrightarrow> read_pointer rt j (Some a) m' = read_pointer rt j (Some a) ?m"
    "\<forall>a w j. read_data rt w j (Some a) m' = read_data rt w j (Some a) ?m"
    by auto
  have "i < length ts" using Cons.prems by simp
  then have t: "take (Suc i) (ts[i := u]) = take i ts @ [u]" by (simp add: take_Suc_conv_app_nth)
  show ?case using m' s Cons.prems unfolding t
    by (intro exI [of _ m']) (auto simp: read_pointer_store read_data_store del: One_nat_def)
qed auto

lemma request_arrives:
  assumes "registerConnectionRequest rt m0 = (ids, b, m)"
  shows "\<exists>m'. fill_request rt req b m = Some m' \<and> read_call rt b m' = Some (register_params req) \<and>
     read_options rt b m' = Some ([], False, 0, 0)"
proof -
  let ?n = "next_object m0"
  have b: "b = ?n" "m = snd (new_struct rt RegisterConnectionParams_header m0)"
    using assms by (auto simp: registerConnectionRequest_def new_struct_def)
  let ?m1 = "snd (RegisterConnectionParams_initAuth rt b m)"
  let ?m2 = "TunnelAuth_setTunnelSecret rt (tunnel_secret (auth req)) (Suc ?n) (TunnelAuth_setAccountTag rt (account_tag (auth req)) (Suc ?n) ?m1)"
  let ?m3 = "RegisterConnectionParams_setConnIndex rt (conn_index req) b (RegisterConnectionParams_setTunnelId rt (tunnel_uuid req) b ?m2)"
  let ?m4 = "snd (ConnectionOptions_initClient rt (Suc (Suc ?n)) (snd (RegisterConnectionParams_initOptions rt b ?m3)))"
  let ?ci = "Suc (Suc (Suc ?n))"
  let ?m5 = "ClientInfo_setArch rt (arch req) ?ci (ClientInfo_setVersion rt (version req) ?ci (ClientInfo_setClientId rt (tunnel_uuid req) ?ci ?m4))"
  let ?m = "ClientInfo_initFeatures rt (length (features req)) ?ci ?m5"
  note defs = RegisterConnectionParams_initAuth_def TunnelAuth_setTunnelSecret_def TunnelAuth_setAccountTag_def
    RegisterConnectionParams_setConnIndex_def RegisterConnectionParams_setTunnelId_def RegisterConnectionParams_initOptions_def
    ConnectionOptions_initClient_def ClientInfo_setClientId_def ClientInfo_setVersion_def ClientInfo_setArch_def
    ClientInfo_initFeatures_def header_defs
  have fill: "fill_request rt req b m = set_features rt 0 (features req) ?ci ?m"
    by (simp add: fill_request_def b defs init_struct_eq)
  have ptrs: "1 < rt_pointers rt (objects ?m ?ci)" by (simp add: b defs init_struct_eq)
  have feats: "read_pointer rt 1 (Some ?ci) ?m = TextsPtr (replicate (length (features req)) [])"
    by (simp add: b defs read_simps del: One_nat_def)
  have ptr: "read_pointer rt 0 (Some b) ?m = StructPtr (Suc ?n)" "read_pointer rt 1 (Some b) ?m = BytesPtr (tunnel_uuid req)"
    "read_pointer rt 2 (Some b) ?m = StructPtr (Suc (Suc ?n))"
    "read_pointer rt 0 (Some (Suc ?n)) ?m = BytesPtr (text_bytes (account_tag (auth req)))"
    "read_pointer rt 1 (Some (Suc ?n)) ?m = BytesPtr (tunnel_secret (auth req))"
    "read_pointer rt 0 (Some (Suc (Suc ?n))) ?m = StructPtr ?ci" "read_pointer rt 1 (Some (Suc (Suc ?n))) ?m = NullPtr"
    "read_pointer rt 0 (Some ?ci) ?m = BytesPtr (tunnel_uuid req)"
    "read_pointer rt 2 (Some ?ci) ?m = BytesPtr (text_bytes (version req))"
    "read_pointer rt 3 (Some ?ci) ?m = BytesPtr (text_bytes (arch req))"
    by (simp_all add: b defs read_simps)
  have data: "read_data rt 8 0 (Some b) ?m = unat (conn_index req)" "read_data rt 1 0 (Some (Suc (Suc ?n))) ?m = 0"
    "read_data rt 8 1 (Some (Suc (Suc ?n))) ?m = 0" "read_data rt 8 2 (Some (Suc (Suc ?n))) ?m = 0"
    using unat_bound [of "conn_index req"] by (simp_all add: b defs read_simps)
  from set_features_result [OF ptrs feats, of 0 "features req"] obtain m' where m':
    "set_features rt 0 (features req) ?ci ?m = Some m'" "read_pointer rt 1 (Some ?ci) m' = TextsPtr (features req)"
    "\<And>a j. (a, j) \<noteq> (?ci, 1) \<Longrightarrow> read_pointer rt j (Some a) m' = read_pointer rt j (Some a) ?m"
    "\<And>a w j. read_data rt w j (Some a) m' = read_data rt w j (Some a) ?m"
    by auto
  have other: "b \<noteq> ?ci" by (simp add: b)
  have "read_call rt b m' = Some (register_params req)"
    using other by (simp add: read_call_def register_params_def RegisterConnectionParams_getAuth_def TunnelAuth_getAccountTag_def
      TunnelAuth_getTunnelSecret_def RegisterConnectionParams_getTunnelId_def RegisterConnectionParams_getOptions_def
      ConnectionOptions_getClient_def ClientInfo_getClientId_def ClientInfo_getVersion_def ClientInfo_getArch_def
      ClientInfo_getFeatures_def RegisterConnectionParams_getConnIndex_def m'(2-4) ptr data del: One_nat_def)
  moreover have "read_options rt b m' = Some ([], False, 0, 0)"
    using other by (simp add: read_options_def RegisterConnectionParams_getOptions_def ConnectionOptions_getOriginLocalIp_def
      ConnectionOptions_getReplaceExisting_def ConnectionOptions_getCompressionQuality_def
      ConnectionOptions_getNumPreviousAttempts_def m'(3,4) ptr data del: One_nat_def)
  ultimately show ?thesis using fill m'(1) by (intro exI [of _ m']) simp
qed

lemma details_arrive:
  "case answer_details rt uid loc m0 of (r, m) \<Rightarrow> wire_outcome debug rt (Some r) m = RpcDetails uid loc"
proof -
  let ?n = "next_object m0"
  note defs = answer_details_def RegisterConnectionResults_initResult_def ConnectionResponse_initResult_def
    ConnectionResponse_Result_initConnectionDetails_def ConnectionDetails_setUuid_def ConnectionDetails_setLocationName_def
    ConnectionDetails_setTunnelIsRemotelyManaged_def header_defs
  have r: "fst (answer_details rt uid loc m0) = ?n" by (simp add: defs init_struct_eq Let_def split_beta)
  let ?m = "snd (answer_details rt uid loc m0)"
  have "read_pointer rt 0 (Some ?n) ?m = StructPtr (Suc ?n)" "read_pointer rt 0 (Some (Suc ?n)) ?m = StructPtr (Suc (Suc ?n))"
    "read_pointer rt 0 (Some (Suc (Suc ?n))) ?m = BytesPtr uid" "read_pointer rt 1 (Some (Suc (Suc ?n))) ?m = BytesPtr (text_bytes loc)"
    "read_data rt 16 0 (Some (Suc ?n)) ?m = unat CONNECTION_DETAILS"
    by (simp_all add: defs read_simps Let_def split_beta CONNECTION_DETAILS_def)
  then show ?thesis by (simp add: split_beta r wire_outcome_def response_defs CONNECTION_DETAILS_def)
qed

lemma error_arrives:
  "case answer_error rt cause n again m0 of (r, m) \<Rightarrow> wire_outcome debug rt (Some r) m = RpcError cause n again"
proof -
  let ?n = "next_object m0"
  note defs = answer_error_def RegisterConnectionResults_initResult_def ConnectionResponse_initResult_def
    ConnectionResponse_Result_initError_def ConnectionError_setCause_def ConnectionError_setRetryAfter_def
    ConnectionError_setShouldRetry_def header_defs
  have r: "fst (answer_error rt cause n again m0) = ?n" by (simp add: defs init_struct_eq Let_def split_beta)
  let ?m = "snd (answer_error rt cause n again m0)"
  have "read_pointer rt 0 (Some ?n) ?m = StructPtr (Suc ?n)" "read_pointer rt 0 (Some (Suc ?n)) ?m = StructPtr (Suc (Suc ?n))"
    "read_pointer rt 0 (Some (Suc (Suc ?n))) ?m = BytesPtr (text_bytes cause)"
    "read_data rt 16 0 (Some (Suc ?n)) ?m = unat ERROR" "read_data rt 64 0 (Some (Suc (Suc ?n))) ?m = unat n"
    "read_data rt 1 64 (Some (Suc (Suc ?n))) ?m = of_bool again"
    using unat_bound [of n] by (simp_all add: defs read_simps Let_def split_beta ERROR_def apart_def)
  then show ?thesis by (simp add: split_beta r wire_outcome_def response_defs CONNECTION_DETAILS_def ERROR_def)
qed

text \<open>A response with nothing in it is an error without a cause.\<close>

lemma empty_answer:
  "read_pointer rt 0 (Some r) m = NullPtr \<Longrightarrow> wire_outcome debug rt (Some r) m = RpcError [] 0 False"
  by (simp add: wire_outcome_def response_defs CONNECTION_DETAILS_def ERROR_def)

end

text \<open>The reading of the response and the model of the client agree.\<close>

lemma take_response_outcome:
  "take_response debug rt r m resp = (thrown, resp') \<Longrightarrow>
   (case wire_outcome debug rt r m of
      RpcThrew \<Rightarrow> thrown \<and> resp'\<lparr>assigned_uuid := assigned_uuid resp\<rparr> = resp
    | RpcDetails uid loc \<Rightarrow> \<not> thrown \<and>
        resp' = (if length uid = 16 then resp\<lparr>assigned_uuid := uid\<rparr> else resp)\<lparr>location_name := c_str loc, resp_ok := True\<rparr>
    | RpcError cause n again \<Rightarrow> \<not> thrown \<and>
        resp' = resp\<lparr>error_cause := c_str cause, retry_after_seconds := n, should_retry := again, resp_ok := False\<rparr>)"
  unfolding take_response_def wire_outcome_def Let_def ConnectionResponse_getResult_def
  by (auto split: option.splits if_splits)

lemmas field_defs =
  ClientInfo_setClientId_def ClientInfo_getClientId_def ClientInfo_setFeatures_def ClientInfo_getFeatures_def
  ClientInfo_setVersion_def ClientInfo_getVersion_def ClientInfo_setArch_def ClientInfo_getArch_def
  ConnectionOptions_initClient_def ConnectionOptions_getClient_def ConnectionOptions_setOriginLocalIp_def
  ConnectionOptions_getOriginLocalIp_def ConnectionOptions_setReplaceExisting_def
  ConnectionOptions_getReplaceExisting_def ConnectionOptions_setCompressionQuality_def
  ConnectionOptions_getCompressionQuality_def ConnectionOptions_setNumPreviousAttempts_def
  ConnectionOptions_getNumPreviousAttempts_def ConnectionDetails_setUuid_def ConnectionDetails_getUuid_def
  ConnectionDetails_setLocationName_def ConnectionDetails_getLocationName_def
  ConnectionDetails_setTunnelIsRemotelyManaged_def ConnectionDetails_getTunnelIsRemotelyManaged_def
  ConnectionError_setCause_def ConnectionError_getCause_def ConnectionError_setRetryAfter_def
  ConnectionError_getRetryAfter_def ConnectionError_setShouldRetry_def ConnectionError_getShouldRetry_def
  ConnectionResponse_Result_initError_def ConnectionResponse_Result_getError_def
  ConnectionResponse_Result_initConnectionDetails_def ConnectionResponse_Result_getConnectionDetails_def
  TunnelAuth_setAccountTag_def TunnelAuth_getAccountTag_def TunnelAuth_setTunnelSecret_def
  TunnelAuth_getTunnelSecret_def RegisterConnectionParams_initAuth_def RegisterConnectionParams_getAuth_def
  RegisterConnectionParams_setTunnelId_def RegisterConnectionParams_getTunnelId_def
  RegisterConnectionParams_setConnIndex_def RegisterConnectionParams_getConnIndex_def
  RegisterConnectionParams_initOptions_def RegisterConnectionParams_getOptions_def
  RegisterConnectionResults_initResult_def RegisterConnectionResults_getResult_def
  UpdateLocalConfigurationParams_setConfig_def UpdateLocalConfigurationParams_getConfig_def
  ConnectionResponse_Result_which_def ConnectionResponse_Result_isError_def
  ConnectionResponse_Result_isConnectionDetails_def ERROR_def CONNECTION_DETAILS_def

section \<open>Properties\<close>

text \<open>
  C24: the registration request as the code builds it, over any runtime that keeps the documented laws of the encoding: the
  call is dispatched to the method it names, filling it in succeeds, and an edge that reads it with the generated readers gets back every
  field of the request; the options the code leaves unset read as their defaults.
\<close>

theorem registration_request_roundtrip:
  assumes "struct_runtime rt" and "registerConnectionRequest rt m0 = ((iface, meth), b, m)"
  shows "dispatchCall iface meth = RegisterConnection \<and>
     (\<exists>m'. fill_request rt req b m = Some m' \<and> read_call rt b m' = Some (register_params req) \<and>
        read_options rt b m' = Some ([], False, 0, 0))"
  using struct_runtime.request_arrives [OF assms, of req] assms(2)
  by (auto simp: registerConnectionRequest_def dispatchCall_def dispatchCallInternal_def)

lemma registration_request_roundtrip_witness:
  "\<exists>m'. fill_request bit_rt (register_request_init\<lparr>features := [''a'', ''b'']\<rparr>) 0
       (snd (snd (registerConnectionRequest bit_rt empty_message))) = Some m' \<and>
     map_option rc_features (read_call bit_rt 0 m') = Some [''a'', ''b'']"
proof -
  have rq: "registerConnectionRequest bit_rt empty_message =
      ((0xf71695ec7fe85497, 0), 0, snd (snd (registerConnectionRequest bit_rt empty_message)))"
    by (simp add: registerConnectionRequest_def new_struct_def empty_message_def)
  from registration_request_roundtrip [OF bits.struct_runtime_axioms rq, of "register_request_init\<lparr>features := [''a'', ''b'']\<rparr>"]
  show ?thesis by (auto simp: register_params_def)
qed

text \<open>
  C25: reading the response. An answer with details is a success that carries the edge's UUID, if it has 16 bytes, and its
  location; an answer with an error is a refusal with its cause and advice; a response with nothing in it is a refusal
  without a cause. Whatever else the message holds, reading it ends, and if it throws, nothing but the UUID was touched.
\<close>

theorem registration_response_read:
  assumes "struct_runtime rt"
  shows "(case answer_details rt uid loc m0 of (r, m) \<Rightarrow>
       take_response debug rt (Some r) m resp = (False, (if length uid = 16 then resp\<lparr>assigned_uuid := uid\<rparr> else resp)
          \<lparr>location_name := c_str loc, resp_ok := True\<rparr>) \<and>
       register_code (take_response debug rt (Some r) m resp) = None) \<and>
     (case answer_error rt cause n again m0 of (r, m) \<Rightarrow>
       take_response debug rt (Some r) m resp = (False, resp\<lparr>error_cause := c_str cause, retry_after_seconds := n,
          should_retry := again, resp_ok := False\<rparr>) \<and>
       register_code (take_response debug rt (Some r) m resp) = Some PermissionDenied) \<and>
     take_response debug rt None m1 resp = (False, resp\<lparr>error_cause := [], retry_after_seconds := 0,
        should_retry := False, resp_ok := False\<rparr>) \<and>
     (\<exists>thrown resp'. take_response debug rt r1 m1 resp = (thrown, resp') \<and>
        (thrown \<longrightarrow> resp'\<lparr>assigned_uuid := assigned_uuid resp\<rparr> = resp \<and> register_code (thrown, resp') = Some ProtocolError))"
proof -
  obtain r m r' m' where a: "answer_details rt uid loc m0 = (r, m)" "answer_error rt cause n again m0 = (r', m')"
    by (cases "answer_details rt uid loc m0", cases "answer_error rt cause n again m0")
  have d: "wire_outcome debug rt (Some r) m = RpcDetails uid loc"
    using struct_runtime.details_arrive [OF assms, where uid = uid and loc = loc and ?m0.0 = m0 and debug = debug] a by simp
  have e: "wire_outcome debug rt (Some r') m' = RpcError cause n again"
    using struct_runtime.error_arrives [OF assms, where cause = cause and n = n and again = again and ?m0.0 = m0 and debug = debug] a by simp
  have z: "wire_outcome debug rt None m1 = RpcError [] 0 False"
    by (simp add: wire_outcome_def response_defs struct_runtime.read_default [OF assms] CONNECTION_DETAILS_def ERROR_def)
  have out: "take_response debug rt x y resp = (fst (take_response debug rt x y resp), snd (take_response debug rt x y resp))" for x y
    by simp
  note o = take_response_outcome [OF out]
  have 1: "take_response debug rt (Some r) m resp = (False, (if length uid = 16 then resp\<lparr>assigned_uuid := uid\<rparr> else resp)
      \<lparr>location_name := c_str loc, resp_ok := True\<rparr>)"
    using o [of "Some r" m] by (simp add: d prod_eq_iff)
  have 2: "take_response debug rt (Some r') m' resp = (False, resp\<lparr>error_cause := c_str cause, retry_after_seconds := n,
      should_retry := again, resp_ok := False\<rparr>)"
    using o [of "Some r'" m'] by (simp add: e prod_eq_iff)
  have 3: "take_response debug rt None m1 resp = (False, resp\<lparr>error_cause := [], retry_after_seconds := 0,
      should_retry := False, resp_ok := False\<rparr>)"
    using o [of None m1] by (simp add: z prod_eq_iff c_str_def)
  have 4: "fst (take_response debug rt r1 m1 resp) \<longrightarrow>
      (snd (take_response debug rt r1 m1 resp))\<lparr>assigned_uuid := assigned_uuid resp\<rparr> = resp"
    using o [of r1 m1] by (auto split: rpc_outcome.splits)
  show ?thesis unfolding a
    using 1 2 3 4 by (cases "take_response debug rt r1 m1 resp") (simp add: register_code_def)
qed

lemma registration_response_read_witness:
  "take_response True bit_rt None empty_message register_response_init =
     (False, register_response_init\<lparr>error_cause := [], retry_after_seconds := 0, should_retry := False, resp_ok := False\<rparr>)"
  using registration_response_read [OF bits.struct_runtime_axioms] by blast

text \<open>
  C28: the fields of the generated structs do not overlap and lie within the sizes their headers declare. For each of the structs that have
  fields, over any lawful runtime: what is set in a struct of that size, all its fields one after another, a struct field by its
  initialiser, is what the getters return; of the union, which shares its pointer, each member with the tag.
\<close>

theorem generated_fields_disjoint:
  assumes "struct_runtime rt" and "b < next_object m"
  shows "(sized rt ClientInfo_header b m \<longrightarrow>
       (let m' = ClientInfo_setArch rt t b (ClientInfo_setVersion rt s b (ClientInfo_setFeatures rt fs b (ClientInfo_setClientId rt ip b m))) in
        ClientInfo_getClientId rt (Some b) m' = Some ip \<and> ClientInfo_getFeatures rt (Some b) m' = Some fs \<and>
        ClientInfo_getVersion rt (Some b) m' = Some s \<and> ClientInfo_getArch rt (Some b) m' = Some t)) \<and>
     (sized rt ConnectionOptions_header b m \<longrightarrow>
       (let (c, m') = ConnectionOptions_initClient rt b m;
            m' = ConnectionOptions_setNumPreviousAttempts rt k b (ConnectionOptions_setCompressionQuality rt q b
              (ConnectionOptions_setReplaceExisting rt x b (ConnectionOptions_setOriginLocalIp rt ip b m'))) in
        ConnectionOptions_getClient rt (Some b) m' = Some (Some c) \<and> sized rt ClientInfo_header c m' \<and>
        ConnectionOptions_getOriginLocalIp rt (Some b) m' = Some ip \<and> ConnectionOptions_getReplaceExisting rt (Some b) m' = x \<and>
        ConnectionOptions_getCompressionQuality rt (Some b) m' = q \<and> ConnectionOptions_getNumPreviousAttempts rt (Some b) m' = k)) \<and>
     (sized rt ConnectionDetails_header b m \<longrightarrow>
       (let m' = ConnectionDetails_setTunnelIsRemotelyManaged rt x b (ConnectionDetails_setLocationName rt s b
          (ConnectionDetails_setUuid rt ip b m)) in
        ConnectionDetails_getUuid rt (Some b) m' = Some ip \<and> ConnectionDetails_getLocationName rt (Some b) m' = Some s \<and>
        ConnectionDetails_getTunnelIsRemotelyManaged rt (Some b) m' = x)) \<and>
     (sized rt ConnectionError_header b m \<longrightarrow>
       (let m' = ConnectionError_setShouldRetry rt x b (ConnectionError_setRetryAfter rt n b (ConnectionError_setCause rt s b m)) in
        ConnectionError_getCause rt (Some b) m' = Some s \<and> ConnectionError_getRetryAfter rt (Some b) m' = n \<and>
        ConnectionError_getShouldRetry rt (Some b) m' = x)) \<and>
     (sized rt ConnectionResponse_Result_header b m \<longrightarrow>
       (let (e, m') = ConnectionResponse_Result_initError rt b m in
        ConnectionResponse_Result_isError rt (Some b) m' \<and> \<not> ConnectionResponse_Result_isConnectionDetails rt (Some b) m' \<and>
        ConnectionResponse_Result_getError True rt (Some b) m' = Some (Some e) \<and> sized rt ConnectionError_header e m') \<and>
       (let (d, m') = ConnectionResponse_Result_initConnectionDetails rt b m in
        ConnectionResponse_Result_isConnectionDetails rt (Some b) m' \<and> \<not> ConnectionResponse_Result_isError rt (Some b) m' \<and>
        ConnectionResponse_Result_getConnectionDetails True rt (Some b) m' = Some (Some d) \<and> sized rt ConnectionDetails_header d m')) \<and>
     (sized rt TunnelAuth_header b m \<longrightarrow>
       (let m' = TunnelAuth_setTunnelSecret rt ip b (TunnelAuth_setAccountTag rt s b m) in
        TunnelAuth_getAccountTag rt (Some b) m' = Some s \<and> TunnelAuth_getTunnelSecret rt (Some b) m' = Some ip)) \<and>
     (sized rt RegisterConnectionParams_header b m \<longrightarrow>
       (let (a, m') = RegisterConnectionParams_initAuth rt b m;
            (c, m') = RegisterConnectionParams_initOptions rt b (RegisterConnectionParams_setConnIndex rt q b
              (RegisterConnectionParams_setTunnelId rt ip b m')) in
        RegisterConnectionParams_getAuth rt (Some b) m' = Some (Some a) \<and> sized rt TunnelAuth_header a m' \<and>
        RegisterConnectionParams_getTunnelId rt (Some b) m' = Some ip \<and> RegisterConnectionParams_getConnIndex rt (Some b) m' = q \<and>
        RegisterConnectionParams_getOptions rt (Some b) m' = Some (Some c) \<and> sized rt ConnectionOptions_header c m')) \<and>
     (sized rt RegisterConnectionResults_header b m \<longrightarrow>
       (let (c, m') = RegisterConnectionResults_initResult rt b m in
        RegisterConnectionResults_getResult rt (Some b) m' = Some (Some c) \<and> sized rt ConnectionResponse_header c m')) \<and>
     (sized rt UpdateLocalConfigurationParams_header b m \<longrightarrow>
       UpdateLocalConfigurationParams_getConfig rt (Some b) (UpdateLocalConfigurationParams_setConfig rt ip b m) = Some ip)"
  using unat_bound [of k] unat_bound [of q] unat_bound [of n] assms(2)
  by (intro conjI) (simp_all add: sized_def header_defs union_header_defs Let_def field_defs apart_def
      struct_runtime.read_simps [OF assms(1)] struct_runtime.new_struct_simps [OF assms(1)] struct_runtime.size_simps [OF assms(1)]
      struct_runtime.read_after_store [OF assms(1)])

lemma generated_fields_disjoint_witness:
  "let m = snd (new_struct bit_rt ConnectionError_header empty_message) in
     ConnectionError_getRetryAfter bit_rt (Some 0)
       (ConnectionError_setShouldRetry bit_rt True 0 (ConnectionError_setRetryAfter bit_rt 5 0 (ConnectionError_setCause bit_rt ''x'' 0 m))) = 5"
proof -
  let ?m = "snd (new_struct bit_rt ConnectionError_header empty_message)"
  have "sized bit_rt ConnectionError_header 0 ?m" "0 < next_object ?m"
    by (simp_all add: sized_def empty_message_def header_defs)
  then show ?thesis using generated_fields_disjoint [OF bits.struct_runtime_axioms, of 0 ?m] by (simp add: Let_def)
qed

text \<open>
  The model of the registration call takes the edge's answer as an outcome; reading the response message gives the same: for any
  message over any runtime, the call with the outcome that the message stands for ends with the code and the response that the
  code's reading of the message leaves, but for the UUID when the reading throws.
\<close>

theorem registration_over_wire:
  assumes "h_connection c = Some conn" and "handshake_ok c"
    and "register_connection True True (\<lambda>_. wire_outcome debug rt r m) req resp c q = (ec, resp', q')"
  shows "ec = register_code (take_response debug rt r m resp) \<and>
     (fst (take_response debug rt r m resp) \<longrightarrow>
        resp' = (snd (take_response debug rt r m resp))\<lparr>assigned_uuid := assigned_uuid resp\<rparr>) \<and>
     (\<not> fst (take_response debug rt r m resp) \<longrightarrow> resp' = snd (take_response debug rt r m resp))"
proof -
  obtain thrown s where t: "take_response debug rt r m resp = (thrown, s)" by fastforce
  note o = take_response_outcome [OF t]
  obtain st q1 where "rpc_stream_open True True (fst conn) q = (Some st, q1)"
    by (auto simp: rpc_stream_open_def open_handle_def)
  then show ?thesis using assms o
    by (auto simp: register_connection_def t register_code_def Let_def split: rpc_outcome.splits if_splits)
qed

lemma registration_over_wire_witness:
  "\<exists>c q ec resp' q'. register_connection True True (\<lambda>_. wire_outcome True bit_rt None empty_message) register_request_init
       register_response_init c q = (ec, resp', q') \<and> ec = Some PermissionDenied \<and> error_cause resp' = []"
proof -
  let ?c = "(client_init quic_config_init)\<lparr>h_connection := Some (2, HConnection), handshake_ok := True\<rparr>"
  obtain ec resp' q' where run: "register_connection True True (\<lambda>_. wire_outcome True bit_rt None empty_message)
    register_request_init register_response_init ?c msquic_init = (ec, resp', q')"
    by (rule prod_cases3)
  have "h_connection ?c = Some (2, HConnection)" "handshake_ok ?c" by simp_all
  from registration_over_wire [OF this run] have
    "ec = register_code (take_response True bit_rt None empty_message register_response_init)"
    "\<not> fst (take_response True bit_rt None empty_message register_response_init) \<longrightarrow>
       resp' = snd (take_response True bit_rt None empty_message register_response_init)" by auto
  moreover have "take_response True bit_rt None empty_message register_response_init =
     (False, register_response_init\<lparr>error_cause := [], retry_after_seconds := 0, should_retry := False, resp_ok := False\<rparr>)"
    by (simp add: take_response_def response_defs c_str_def CONNECTION_DETAILS_def ERROR_def)
  ultimately show ?thesis using run
    by (intro exI [of _ ?c] exI [of _ msquic_init] exI [of _ ec] exI [of _ resp'] exI [of _ q']) (simp add: register_code_def)
qed

end
