(* ===== verification/Schema_Nodes.thy ===== *)
theory Schema_Nodes
  imports Rpc_Wire
begin

text \<open>
  The schema that \<^verbatim>\<open>tunnelrpc.capnp.c++\<close> embeds: each type's node as the words of an encoded message, and the tables beside it.
  The specification reads a node as the encoding and \<^verbatim>\<open>schema.capnp\<close> document it; the properties compare what it says with the
  accessors, ids and sizes of the header, and with the calls and their dispatch.
\<close>

section \<open>Definitions\<close>

subsection \<open>Nodes\<close>

text \<open>One row is one word of the message, its bytes in the order of the source.\<close>

definition b_83ced0145b2f114b :: "u8 list list" where
  "b_83ced0145b2f114b =
    [[0, 0, 0, 0, 6, 0, 6, 0],
     [75, 17, 47, 91, 20, 208, 206, 131],
     [16, 0, 0, 0, 1, 0, 0, 0],
     [126, 188, 74, 20, 249, 116, 130, 219],
     [4, 0, 7, 0, 0, 0, 0, 0],
     [0, 0, 0, 0, 0, 0, 0, 0],
     [189, 1, 0, 0, 172, 2, 0, 0],
     [21, 0, 0, 0, 218, 0, 0, 0],
     [33, 0, 0, 0, 7, 0, 0, 0],
     [0, 0, 0, 0, 0, 0, 0, 0],
     [29, 0, 0, 0, 231, 0, 0, 0],
     [0, 0, 0, 0, 0, 0, 0, 0],
     [0, 0, 0, 0, 0, 0, 0, 0],
     [116, 117, 110, 110, 101, 108, 114, 112],
     [99, 46, 99, 97, 112, 110, 112, 58],
     [67, 108, 105, 101, 110, 116, 73, 110],
     [102, 111, 0, 0, 0, 0, 0, 0],
     [0, 0, 0, 0, 1, 0, 1, 0],
     [16, 0, 0, 0, 3, 0, 4, 0],
     [0, 0, 0, 0, 0, 0, 0, 0],
     [0, 0, 1, 0, 0, 0, 0, 0],
     [0, 0, 0, 0, 0, 0, 0, 0],
     [97, 0, 0, 0, 74, 0, 0, 0],
     [0, 0, 0, 0, 0, 0, 0, 0],
     [96, 0, 0, 0, 3, 0, 1, 0],
     [108, 0, 0, 0, 2, 0, 1, 0],
     [1, 0, 0, 0, 1, 0, 0, 0],
     [0, 0, 1, 0, 1, 0, 0, 0],
     [0, 0, 0, 0, 0, 0, 0, 0],
     [105, 0, 0, 0, 74, 0, 0, 0],
     [0, 0, 0, 0, 0, 0, 0, 0],
     [104, 0, 0, 0, 3, 0, 1, 0],
     [132, 0, 0, 0, 2, 0, 1, 0],
     [2, 0, 0, 0, 2, 0, 0, 0],
     [0, 0, 1, 0, 2, 0, 0, 0],
     [0, 0, 0, 0, 0, 0, 0, 0],
     [129, 0, 0, 0, 66, 0, 0, 0],
     [0, 0, 0, 0, 0, 0, 0, 0],
     [124, 0, 0, 0, 3, 0, 1, 0],
     [136, 0, 0, 0, 2, 0, 1, 0],
     [3, 0, 0, 0, 3, 0, 0, 0],
     [0, 0, 1, 0, 3, 0, 0, 0],
     [0, 0, 0, 0, 0, 0, 0, 0],
     [133, 0, 0, 0, 42, 0, 0, 0],
     [0, 0, 0, 0, 0, 0, 0, 0],
     [128, 0, 0, 0, 3, 0, 1, 0],
     [140, 0, 0, 0, 2, 0, 1, 0],
     [99, 108, 105, 101, 110, 116, 73, 100],
     [0, 0, 0, 0, 0, 0, 0, 0],
     [13, 0, 0, 0, 0, 0, 0, 0],
     [0, 0, 0, 0, 0, 0, 0, 0],
     [0, 0, 0, 0, 0, 0, 0, 0],
     [0, 0, 0, 0, 0, 0, 0, 0],
     [13, 0, 0, 0, 0, 0, 0, 0],
     [0, 0, 0, 0, 0, 0, 0, 0],
     [0, 0, 0, 0, 0, 0, 0, 0],
     [102, 101, 97, 116, 117, 114, 101, 115],
     [0, 0, 0, 0, 0, 0, 0, 0],
     [14, 0, 0, 0, 0, 0, 0, 0],
     [0, 0, 0, 0, 0, 0, 0, 0],
     [0, 0, 0, 0, 0, 0, 0, 0],
     [0, 0, 0, 0, 3, 0, 1, 0],
     [12, 0, 0, 0, 0, 0, 0, 0],
     [0, 0, 0, 0, 0, 0, 0, 0],
     [0, 0, 0, 0, 0, 0, 0, 0],
     [0, 0, 0, 0, 0, 0, 0, 0],
     [14, 0, 0, 0, 0, 0, 0, 0],
     [0, 0, 0, 0, 0, 0, 0, 0],
     [0, 0, 0, 0, 0, 0, 0, 0],
     [118, 101, 114, 115, 105, 111, 110, 0],
     [12, 0, 0, 0, 0, 0, 0, 0],
     [0, 0, 0, 0, 0, 0, 0, 0],
     [0, 0, 0, 0, 0, 0, 0, 0],
     [0, 0, 0, 0, 0, 0, 0, 0],
     [12, 0, 0, 0, 0, 0, 0, 0],
     [0, 0, 0, 0, 0, 0, 0, 0],
     [0, 0, 0, 0, 0, 0, 0, 0],
     [97, 114, 99, 104, 0, 0, 0, 0],
     [12, 0, 0, 0, 0, 0, 0, 0],
     [0, 0, 0, 0, 0, 0, 0, 0],
     [0, 0, 0, 0, 0, 0, 0, 0],
     [0, 0, 0, 0, 0, 0, 0, 0],
     [12, 0, 0, 0, 0, 0, 0, 0],
     [0, 0, 0, 0, 0, 0, 0, 0],
     [0, 0, 0, 0, 0, 0, 0, 0]]"

definition b_b4bf9861fe035d04 :: "u8 list list" where
  "b_b4bf9861fe035d04 =
    [[0, 0, 0, 0, 6, 0, 6, 0],
     [4, 93, 3, 254, 97, 152, 191, 180],
     [16, 0, 0, 0, 1, 0, 1, 0],
     [126, 188, 74, 20, 249, 116, 130, 219],
     [2, 0, 7, 0, 0, 0, 0, 0],
     [0, 0, 0, 0, 0, 0, 0, 0],
     [174, 2, 0, 0, 144, 3, 0, 0],
     [21, 0, 0, 0, 18, 1, 0, 0],
     [37, 0, 0, 0, 7, 0, 0, 0],
     [0, 0, 0, 0, 0, 0, 0, 0],
     [33, 0, 0, 0, 31, 1, 0, 0],
     [0, 0, 0, 0, 0, 0, 0, 0],
     [0, 0, 0, 0, 0, 0, 0, 0],
     [116, 117, 110, 110, 101, 108, 114, 112],
     [99, 46, 99, 97, 112, 110, 112, 58],
     [67, 111, 110, 110, 101, 99, 116, 105],
     [111, 110, 79, 112, 116, 105, 111, 110],
     [115, 0, 0, 0, 0, 0, 0, 0],
     [0, 0, 0, 0, 1, 0, 1, 0],
     [20, 0, 0, 0, 3, 0, 4, 0],
     [0, 0, 0, 0, 0, 0, 0, 0],
     [0, 0, 1, 0, 0, 0, 0, 0],
     [0, 0, 0, 0, 0, 0, 0, 0],
     [125, 0, 0, 0, 58, 0, 0, 0],
     [0, 0, 0, 0, 0, 0, 0, 0],
     [120, 0, 0, 0, 3, 0, 1, 0],
     [132, 0, 0, 0, 2, 0, 1, 0],
     [1, 0, 0, 0, 1, 0, 0, 0],
     [0, 0, 1, 0, 1, 0, 0, 0],
     [0, 0, 0, 0, 0, 0, 0, 0],
     [129, 0, 0, 0, 114, 0, 0, 0],
     [0, 0, 0, 0, 0, 0, 0, 0],
     [128, 0, 0, 0, 3, 0, 1, 0],
     [140, 0, 0, 0, 2, 0, 1, 0],
     [2, 0, 0, 0, 0, 0, 0, 0],
     [0, 0, 1, 0, 2, 0, 0, 0],
     [0, 0, 0, 0, 0, 0, 0, 0],
     [137, 0, 0, 0, 130, 0, 0, 0],
     [0, 0, 0, 0, 0, 0, 0, 0],
     [136, 0, 0, 0, 3, 0, 1, 0],
     [148, 0, 0, 0, 2, 0, 1, 0],
     [3, 0, 0, 0, 1, 0, 0, 0],
     [0, 0, 1, 0, 3, 0, 0, 0],
     [0, 0, 0, 0, 0, 0, 0, 0],
     [145, 0, 0, 0, 154, 0, 0, 0],
     [0, 0, 0, 0, 0, 0, 0, 0],
     [148, 0, 0, 0, 3, 0, 1, 0],
     [160, 0, 0, 0, 2, 0, 1, 0],
     [4, 0, 0, 0, 2, 0, 0, 0],
     [0, 0, 1, 0, 4, 0, 0, 0],
     [0, 0, 0, 0, 0, 0, 0, 0],
     [157, 0, 0, 0, 162, 0, 0, 0],
     [0, 0, 0, 0, 0, 0, 0, 0],
     [160, 0, 0, 0, 3, 0, 1, 0],
     [172, 0, 0, 0, 2, 0, 1, 0],
     [99, 108, 105, 101, 110, 116, 0, 0],
     [16, 0, 0, 0, 0, 0, 0, 0],
     [75, 17, 47, 91, 20, 208, 206, 131],
     [0, 0, 0, 0, 0, 0, 0, 0],
     [0, 0, 0, 0, 0, 0, 0, 0],
     [16, 0, 0, 0, 0, 0, 0, 0],
     [0, 0, 0, 0, 0, 0, 0, 0],
     [0, 0, 0, 0, 0, 0, 0, 0],
     [111, 114, 105, 103, 105, 110, 76, 111],
     [99, 97, 108, 73, 112, 0, 0, 0],
     [13, 0, 0, 0, 0, 0, 0, 0],
     [0, 0, 0, 0, 0, 0, 0, 0],
     [0, 0, 0, 0, 0, 0, 0, 0],
     [0, 0, 0, 0, 0, 0, 0, 0],
     [13, 0, 0, 0, 0, 0, 0, 0],
     [0, 0, 0, 0, 0, 0, 0, 0],
     [0, 0, 0, 0, 0, 0, 0, 0],
     [114, 101, 112, 108, 97, 99, 101, 69],
     [120, 105, 115, 116, 105, 110, 103, 0],
     [1, 0, 0, 0, 0, 0, 0, 0],
     [0, 0, 0, 0, 0, 0, 0, 0],
     [0, 0, 0, 0, 0, 0, 0, 0],
     [0, 0, 0, 0, 0, 0, 0, 0],
     [1, 0, 0, 0, 0, 0, 0, 0],
     [0, 0, 0, 0, 0, 0, 0, 0],
     [0, 0, 0, 0, 0, 0, 0, 0],
     [99, 111, 109, 112, 114, 101, 115, 115],
     [105, 111, 110, 81, 117, 97, 108, 105],
     [116, 121, 0, 0, 0, 0, 0, 0],
     [6, 0, 0, 0, 0, 0, 0, 0],
     [0, 0, 0, 0, 0, 0, 0, 0],
     [0, 0, 0, 0, 0, 0, 0, 0],
     [0, 0, 0, 0, 0, 0, 0, 0],
     [6, 0, 0, 0, 0, 0, 0, 0],
     [0, 0, 0, 0, 0, 0, 0, 0],
     [0, 0, 0, 0, 0, 0, 0, 0],
     [110, 117, 109, 80, 114, 101, 118, 105],
     [111, 117, 115, 65, 116, 116, 101, 109],
     [112, 116, 115, 0, 0, 0, 0, 0],
     [6, 0, 0, 0, 0, 0, 0, 0],
     [0, 0, 0, 0, 0, 0, 0, 0],
     [0, 0, 0, 0, 0, 0, 0, 0],
     [0, 0, 0, 0, 0, 0, 0, 0],
     [6, 0, 0, 0, 0, 0, 0, 0],
     [0, 0, 0, 0, 0, 0, 0, 0],
     [0, 0, 0, 0, 0, 0, 0, 0]]"

definition b_b5f39f082b9ac18a :: "u8 list list" where
  "b_b5f39f082b9ac18a =
    [[0, 0, 0, 0, 6, 0, 6, 0],
     [138, 193, 154, 43, 8, 159, 243, 181],
     [16, 0, 0, 0, 1, 0, 1, 0],
     [126, 188, 74, 20, 249, 116, 130, 219],
     [2, 0, 7, 0, 0, 0, 0, 0],
     [0, 0, 0, 0, 0, 0, 0, 0],
     [146, 3, 0, 0, 61, 4, 0, 0],
     [21, 0, 0, 0, 18, 1, 0, 0],
     [37, 0, 0, 0, 7, 0, 0, 0],
     [0, 0, 0, 0, 0, 0, 0, 0],
     [33, 0, 0, 0, 175, 0, 0, 0],
     [0, 0, 0, 0, 0, 0, 0, 0],
     [0, 0, 0, 0, 0, 0, 0, 0],
     [116, 117, 110, 110, 101, 108, 114, 112],
     [99, 46, 99, 97, 112, 110, 112, 58],
     [67, 111, 110, 110, 101, 99, 116, 105],
     [111, 110, 68, 101, 116, 97, 105, 108],
     [115, 0, 0, 0, 0, 0, 0, 0],
     [0, 0, 0, 0, 1, 0, 1, 0],
     [12, 0, 0, 0, 3, 0, 4, 0],
     [0, 0, 0, 0, 0, 0, 0, 0],
     [0, 0, 1, 0, 0, 0, 0, 0],
     [0, 0, 0, 0, 0, 0, 0, 0],
     [69, 0, 0, 0, 42, 0, 0, 0],
     [0, 0, 0, 0, 0, 0, 0, 0],
     [64, 0, 0, 0, 3, 0, 1, 0],
     [76, 0, 0, 0, 2, 0, 1, 0],
     [1, 0, 0, 0, 1, 0, 0, 0],
     [0, 0, 1, 0, 1, 0, 0, 0],
     [0, 0, 0, 0, 0, 0, 0, 0],
     [73, 0, 0, 0, 106, 0, 0, 0],
     [0, 0, 0, 0, 0, 0, 0, 0],
     [72, 0, 0, 0, 3, 0, 1, 0],
     [84, 0, 0, 0, 2, 0, 1, 0],
     [2, 0, 0, 0, 0, 0, 0, 0],
     [0, 0, 1, 0, 2, 0, 0, 0],
     [0, 0, 0, 0, 0, 0, 0, 0],
     [81, 0, 0, 0, 194, 0, 0, 0],
     [0, 0, 0, 0, 0, 0, 0, 0],
     [84, 0, 0, 0, 3, 0, 1, 0],
     [96, 0, 0, 0, 2, 0, 1, 0],
     [117, 117, 105, 100, 0, 0, 0, 0],
     [13, 0, 0, 0, 0, 0, 0, 0],
     [0, 0, 0, 0, 0, 0, 0, 0],
     [0, 0, 0, 0, 0, 0, 0, 0],
     [0, 0, 0, 0, 0, 0, 0, 0],
     [13, 0, 0, 0, 0, 0, 0, 0],
     [0, 0, 0, 0, 0, 0, 0, 0],
     [0, 0, 0, 0, 0, 0, 0, 0],
     [108, 111, 99, 97, 116, 105, 111, 110],
     [78, 97, 109, 101, 0, 0, 0, 0],
     [12, 0, 0, 0, 0, 0, 0, 0],
     [0, 0, 0, 0, 0, 0, 0, 0],
     [0, 0, 0, 0, 0, 0, 0, 0],
     [0, 0, 0, 0, 0, 0, 0, 0],
     [12, 0, 0, 0, 0, 0, 0, 0],
     [0, 0, 0, 0, 0, 0, 0, 0],
     [0, 0, 0, 0, 0, 0, 0, 0],
     [116, 117, 110, 110, 101, 108, 73, 115],
     [82, 101, 109, 111, 116, 101, 108, 121],
     [77, 97, 110, 97, 103, 101, 100, 0],
     [1, 0, 0, 0, 0, 0, 0, 0],
     [0, 0, 0, 0, 0, 0, 0, 0],
     [0, 0, 0, 0, 0, 0, 0, 0],
     [0, 0, 0, 0, 0, 0, 0, 0],
     [1, 0, 0, 0, 0, 0, 0, 0],
     [0, 0, 0, 0, 0, 0, 0, 0],
     [0, 0, 0, 0, 0, 0, 0, 0]]"

definition b_f5f383d2785edb86 :: "u8 list list" where
  "b_f5f383d2785edb86 =
    [[0, 0, 0, 0, 6, 0, 6, 0],
     [134, 219, 94, 120, 210, 131, 243, 245],
     [16, 0, 0, 0, 1, 0, 2, 0],
     [126, 188, 74, 20, 249, 116, 130, 219],
     [1, 0, 7, 0, 0, 0, 0, 0],
     [0, 0, 0, 0, 0, 0, 0, 0],
     [63, 4, 0, 0, 188, 4, 0, 0],
     [21, 0, 0, 0, 2, 1, 0, 0],
     [33, 0, 0, 0, 7, 0, 0, 0],
     [0, 0, 0, 0, 0, 0, 0, 0],
     [29, 0, 0, 0, 175, 0, 0, 0],
     [0, 0, 0, 0, 0, 0, 0, 0],
     [0, 0, 0, 0, 0, 0, 0, 0],
     [116, 117, 110, 110, 101, 108, 114, 112],
     [99, 46, 99, 97, 112, 110, 112, 58],
     [67, 111, 110, 110, 101, 99, 116, 105],
     [111, 110, 69, 114, 114, 111, 114, 0],
     [0, 0, 0, 0, 1, 0, 1, 0],
     [12, 0, 0, 0, 3, 0, 4, 0],
     [0, 0, 0, 0, 0, 0, 0, 0],
     [0, 0, 1, 0, 0, 0, 0, 0],
     [0, 0, 0, 0, 0, 0, 0, 0],
     [69, 0, 0, 0, 50, 0, 0, 0],
     [0, 0, 0, 0, 0, 0, 0, 0],
     [64, 0, 0, 0, 3, 0, 1, 0],
     [76, 0, 0, 0, 2, 0, 1, 0],
     [1, 0, 0, 0, 0, 0, 0, 0],
     [0, 0, 1, 0, 1, 0, 0, 0],
     [0, 0, 0, 0, 0, 0, 0, 0],
     [73, 0, 0, 0, 90, 0, 0, 0],
     [0, 0, 0, 0, 0, 0, 0, 0],
     [72, 0, 0, 0, 3, 0, 1, 0],
     [84, 0, 0, 0, 2, 0, 1, 0],
     [2, 0, 0, 0, 64, 0, 0, 0],
     [0, 0, 1, 0, 2, 0, 0, 0],
     [0, 0, 0, 0, 0, 0, 0, 0],
     [81, 0, 0, 0, 98, 0, 0, 0],
     [0, 0, 0, 0, 0, 0, 0, 0],
     [80, 0, 0, 0, 3, 0, 1, 0],
     [92, 0, 0, 0, 2, 0, 1, 0],
     [99, 97, 117, 115, 101, 0, 0, 0],
     [12, 0, 0, 0, 0, 0, 0, 0],
     [0, 0, 0, 0, 0, 0, 0, 0],
     [0, 0, 0, 0, 0, 0, 0, 0],
     [0, 0, 0, 0, 0, 0, 0, 0],
     [12, 0, 0, 0, 0, 0, 0, 0],
     [0, 0, 0, 0, 0, 0, 0, 0],
     [0, 0, 0, 0, 0, 0, 0, 0],
     [114, 101, 116, 114, 121, 65, 102, 116],
     [101, 114, 0, 0, 0, 0, 0, 0],
     [5, 0, 0, 0, 0, 0, 0, 0],
     [0, 0, 0, 0, 0, 0, 0, 0],
     [0, 0, 0, 0, 0, 0, 0, 0],
     [0, 0, 0, 0, 0, 0, 0, 0],
     [5, 0, 0, 0, 0, 0, 0, 0],
     [0, 0, 0, 0, 0, 0, 0, 0],
     [0, 0, 0, 0, 0, 0, 0, 0],
     [115, 104, 111, 117, 108, 100, 82, 101],
     [116, 114, 121, 0, 0, 0, 0, 0],
     [1, 0, 0, 0, 0, 0, 0, 0],
     [0, 0, 0, 0, 0, 0, 0, 0],
     [0, 0, 0, 0, 0, 0, 0, 0],
     [0, 0, 0, 0, 0, 0, 0, 0],
     [1, 0, 0, 0, 0, 0, 0, 0],
     [0, 0, 0, 0, 0, 0, 0, 0],
     [0, 0, 0, 0, 0, 0, 0, 0]]"

definition b_dbaa9d03d52b62dc :: "u8 list list" where
  "b_dbaa9d03d52b62dc =
    [[0, 0, 0, 0, 6, 0, 6, 0],
     [220, 98, 43, 213, 3, 157, 170, 219],
     [16, 0, 0, 0, 1, 0, 1, 0],
     [126, 188, 74, 20, 249, 116, 130, 219],
     [1, 0, 7, 0, 0, 0, 0, 0],
     [0, 0, 0, 0, 0, 0, 0, 0],
     [190, 4, 0, 0, 105, 5, 0, 0],
     [21, 0, 0, 0, 26, 1, 0, 0],
     [37, 0, 0, 0, 7, 0, 0, 0],
     [0, 0, 0, 0, 0, 0, 0, 0],
     [33, 0, 0, 0, 63, 0, 0, 0],
     [0, 0, 0, 0, 0, 0, 0, 0],
     [0, 0, 0, 0, 0, 0, 0, 0],
     [116, 117, 110, 110, 101, 108, 114, 112],
     [99, 46, 99, 97, 112, 110, 112, 58],
     [67, 111, 110, 110, 101, 99, 116, 105],
     [111, 110, 82, 101, 115, 112, 111, 110],
     [115, 101, 0, 0, 0, 0, 0, 0],
     [0, 0, 0, 0, 1, 0, 1, 0],
     [4, 0, 0, 0, 3, 0, 4, 0],
     [0, 0, 0, 0, 0, 0, 0, 0],
     [1, 0, 0, 0, 0, 0, 0, 0],
     [34, 118, 37, 96, 194, 197, 179, 151],
     [13, 0, 0, 0, 58, 0, 0, 0],
     [0, 0, 0, 0, 0, 0, 0, 0],
     [0, 0, 0, 0, 0, 0, 0, 0],
     [0, 0, 0, 0, 0, 0, 0, 0],
     [114, 101, 115, 117, 108, 116, 0, 0]]"

definition b_97b3c5c260257622 :: "u8 list list" where
  "b_97b3c5c260257622 =
    [[0, 0, 0, 0, 6, 0, 6, 0],
     [34, 118, 37, 96, 194, 197, 179, 151],
     [35, 0, 0, 0, 1, 0, 1, 0],
     [220, 98, 43, 213, 3, 157, 170, 219],
     [1, 0, 7, 0, 1, 0, 2, 0],
     [0, 0, 0, 0, 0, 0, 0, 0],
     [0, 0, 0, 0, 0, 0, 0, 0],
     [21, 0, 0, 0, 82, 1, 0, 0],
     [0, 0, 0, 0, 0, 0, 0, 0],
     [0, 0, 0, 0, 0, 0, 0, 0],
     [33, 0, 0, 0, 119, 0, 0, 0],
     [0, 0, 0, 0, 0, 0, 0, 0],
     [0, 0, 0, 0, 0, 0, 0, 0],
     [116, 117, 110, 110, 101, 108, 114, 112],
     [99, 46, 99, 97, 112, 110, 112, 58],
     [67, 111, 110, 110, 101, 99, 116, 105],
     [111, 110, 82, 101, 115, 112, 111, 110],
     [115, 101, 46, 114, 101, 115, 117, 108],
     [116, 0, 0, 0, 0, 0, 0, 0],
     [8, 0, 0, 0, 3, 0, 4, 0],
     [0, 0, 255, 255, 0, 0, 0, 0],
     [0, 0, 1, 0, 0, 0, 0, 0],
     [0, 0, 0, 0, 0, 0, 0, 0],
     [41, 0, 0, 0, 50, 0, 0, 0],
     [0, 0, 0, 0, 0, 0, 0, 0],
     [36, 0, 0, 0, 3, 0, 1, 0],
     [48, 0, 0, 0, 2, 0, 1, 0],
     [1, 0, 254, 255, 0, 0, 0, 0],
     [0, 0, 1, 0, 1, 0, 0, 0],
     [0, 0, 0, 0, 0, 0, 0, 0],
     [45, 0, 0, 0, 146, 0, 0, 0],
     [0, 0, 0, 0, 0, 0, 0, 0],
     [48, 0, 0, 0, 3, 0, 1, 0],
     [60, 0, 0, 0, 2, 0, 1, 0],
     [101, 114, 114, 111, 114, 0, 0, 0],
     [16, 0, 0, 0, 0, 0, 0, 0],
     [134, 219, 94, 120, 210, 131, 243, 245],
     [0, 0, 0, 0, 0, 0, 0, 0],
     [0, 0, 0, 0, 0, 0, 0, 0],
     [16, 0, 0, 0, 0, 0, 0, 0],
     [0, 0, 0, 0, 0, 0, 0, 0],
     [0, 0, 0, 0, 0, 0, 0, 0],
     [99, 111, 110, 110, 101, 99, 116, 105],
     [111, 110, 68, 101, 116, 97, 105, 108],
     [115, 0, 0, 0, 0, 0, 0, 0],
     [16, 0, 0, 0, 0, 0, 0, 0],
     [138, 193, 154, 43, 8, 159, 243, 181],
     [0, 0, 0, 0, 0, 0, 0, 0],
     [0, 0, 0, 0, 0, 0, 0, 0],
     [16, 0, 0, 0, 0, 0, 0, 0],
     [0, 0, 0, 0, 0, 0, 0, 0],
     [0, 0, 0, 0, 0, 0, 0, 0]]"

definition b_9496331ab9cd463f :: "u8 list list" where
  "b_9496331ab9cd463f =
    [[0, 0, 0, 0, 6, 0, 6, 0],
     [63, 70, 205, 185, 26, 51, 150, 148],
     [16, 0, 0, 0, 1, 0, 0, 0],
     [126, 188, 74, 20, 249, 116, 130, 219],
     [2, 0, 7, 0, 0, 0, 0, 0],
     [0, 0, 0, 0, 0, 0, 0, 0],
     [107, 5, 0, 0, 247, 5, 0, 0],
     [21, 0, 0, 0, 218, 0, 0, 0],
     [33, 0, 0, 0, 7, 0, 0, 0],
     [0, 0, 0, 0, 0, 0, 0, 0],
     [29, 0, 0, 0, 119, 0, 0, 0],
     [0, 0, 0, 0, 0, 0, 0, 0],
     [0, 0, 0, 0, 0, 0, 0, 0],
     [116, 117, 110, 110, 101, 108, 114, 112],
     [99, 46, 99, 97, 112, 110, 112, 58],
     [84, 117, 110, 110, 101, 108, 65, 117],
     [116, 104, 0, 0, 0, 0, 0, 0],
     [0, 0, 0, 0, 1, 0, 1, 0],
     [8, 0, 0, 0, 3, 0, 4, 0],
     [0, 0, 0, 0, 0, 0, 0, 0],
     [0, 0, 1, 0, 0, 0, 0, 0],
     [0, 0, 0, 0, 0, 0, 0, 0],
     [41, 0, 0, 0, 90, 0, 0, 0],
     [0, 0, 0, 0, 0, 0, 0, 0],
     [40, 0, 0, 0, 3, 0, 1, 0],
     [52, 0, 0, 0, 2, 0, 1, 0],
     [1, 0, 0, 0, 1, 0, 0, 0],
     [0, 0, 1, 0, 1, 0, 0, 0],
     [0, 0, 0, 0, 0, 0, 0, 0],
     [49, 0, 0, 0, 106, 0, 0, 0],
     [0, 0, 0, 0, 0, 0, 0, 0],
     [48, 0, 0, 0, 3, 0, 1, 0],
     [60, 0, 0, 0, 2, 0, 1, 0],
     [97, 99, 99, 111, 117, 110, 116, 84],
     [97, 103, 0, 0, 0, 0, 0, 0],
     [12, 0, 0, 0, 0, 0, 0, 0],
     [0, 0, 0, 0, 0, 0, 0, 0],
     [0, 0, 0, 0, 0, 0, 0, 0],
     [0, 0, 0, 0, 0, 0, 0, 0],
     [12, 0, 0, 0, 0, 0, 0, 0],
     [0, 0, 0, 0, 0, 0, 0, 0],
     [0, 0, 0, 0, 0, 0, 0, 0],
     [116, 117, 110, 110, 101, 108, 83, 101],
     [99, 114, 101, 116, 0, 0, 0, 0],
     [13, 0, 0, 0, 0, 0, 0, 0],
     [0, 0, 0, 0, 0, 0, 0, 0],
     [0, 0, 0, 0, 0, 0, 0, 0],
     [0, 0, 0, 0, 0, 0, 0, 0],
     [13, 0, 0, 0, 0, 0, 0, 0],
     [0, 0, 0, 0, 0, 0, 0, 0],
     [0, 0, 0, 0, 0, 0, 0, 0]]"

definition b_f71695ec7fe85497 :: "u8 list list" where
  "b_f71695ec7fe85497 =
    [[0, 0, 0, 0, 6, 0, 6, 0],
     [151, 84, 232, 127, 236, 149, 22, 247],
     [16, 0, 0, 0, 3, 0, 0, 0],
     [126, 188, 74, 20, 249, 116, 130, 219],
     [0, 0, 0, 0, 0, 0, 0, 0],
     [0, 0, 0, 0, 0, 0, 0, 0],
     [249, 5, 0, 0, 70, 7, 0, 0],
     [21, 0, 0, 0, 26, 1, 0, 0],
     [37, 0, 0, 0, 7, 0, 0, 0],
     [0, 0, 0, 0, 0, 0, 0, 0],
     [33, 0, 0, 0, 199, 0, 0, 0],
     [181, 0, 0, 0, 7, 0, 0, 0],
     [0, 0, 0, 0, 0, 0, 0, 0],
     [116, 117, 110, 110, 101, 108, 114, 112],
     [99, 46, 99, 97, 112, 110, 112, 58],
     [82, 101, 103, 105, 115, 116, 114, 97],
     [116, 105, 111, 110, 83, 101, 114, 118],
     [101, 114, 0, 0, 0, 0, 0, 0],
     [0, 0, 0, 0, 1, 0, 1, 0],
     [12, 0, 0, 0, 3, 0, 5, 0],
     [0, 0, 0, 0, 0, 0, 0, 0],
     [238, 166, 234, 143, 236, 109, 100, 230],
     [23, 31, 13, 69, 34, 216, 80, 234],
     [81, 0, 0, 0, 154, 0, 0, 0],
     [0, 0, 0, 0, 0, 0, 0, 0],
     [0, 0, 0, 0, 0, 0, 0, 0],
     [0, 0, 0, 0, 0, 0, 0, 0],
     [77, 0, 0, 0, 7, 0, 0, 0],
     [1, 0, 0, 0, 0, 0, 0, 0],
     [208, 7, 163, 49, 68, 127, 203, 249],
     [173, 30, 75, 9, 120, 229, 70, 176],
     [65, 0, 0, 0, 170, 0, 0, 0],
     [0, 0, 0, 0, 0, 0, 0, 0],
     [0, 0, 0, 0, 0, 0, 0, 0],
     [0, 0, 0, 0, 0, 0, 0, 0],
     [61, 0, 0, 0, 7, 0, 0, 0],
     [2, 0, 0, 0, 0, 0, 0, 0],
     [4, 54, 106, 135, 17, 227, 214, 197],
     [190, 215, 151, 104, 93, 174, 206, 229],
     [49, 0, 0, 0, 202, 0, 0, 0],
     [0, 0, 0, 0, 0, 0, 0, 0],
     [0, 0, 0, 0, 0, 0, 0, 0],
     [0, 0, 0, 0, 0, 0, 0, 0],
     [49, 0, 0, 0, 7, 0, 0, 0],
     [114, 101, 103, 105, 115, 116, 101, 114],
     [67, 111, 110, 110, 101, 99, 116, 105],
     [111, 110, 0, 0, 0, 0, 0, 0],
     [0, 0, 0, 0, 0, 0, 1, 0],
     [117, 110, 114, 101, 103, 105, 115, 116],
     [101, 114, 67, 111, 110, 110, 101, 99],
     [116, 105, 111, 110, 0, 0, 0, 0],
     [0, 0, 0, 0, 0, 0, 1, 0],
     [117, 112, 100, 97, 116, 101, 76, 111],
     [99, 97, 108, 67, 111, 110, 102, 105],
     [103, 117, 114, 97, 116, 105, 111, 110],
     [0, 0, 0, 0, 0, 0, 0, 0],
     [0, 0, 0, 0, 0, 0, 1, 0],
     [0, 0, 0, 0, 1, 0, 1, 0]]"

definition b_e6646dec8feaa6ee :: "u8 list list" where
  "b_e6646dec8feaa6ee =
    [[0, 0, 0, 0, 6, 0, 6, 0],
     [238, 166, 234, 143, 236, 109, 100, 230],
     [35, 0, 0, 0, 1, 0, 1, 0],
     [0, 0, 0, 0, 0, 0, 0, 0],
     [3, 0, 7, 0, 0, 0, 0, 0],
     [0, 0, 0, 0, 0, 0, 0, 0],
     [0, 0, 0, 0, 0, 0, 0, 0],
     [21, 0, 0, 0, 234, 1, 0, 0],
     [0, 0, 0, 0, 0, 0, 0, 0],
     [0, 0, 0, 0, 0, 0, 0, 0],
     [41, 0, 0, 0, 231, 0, 0, 0],
     [0, 0, 0, 0, 0, 0, 0, 0],
     [0, 0, 0, 0, 0, 0, 0, 0],
     [116, 117, 110, 110, 101, 108, 114, 112],
     [99, 46, 99, 97, 112, 110, 112, 58],
     [82, 101, 103, 105, 115, 116, 114, 97],
     [116, 105, 111, 110, 83, 101, 114, 118],
     [101, 114, 46, 114, 101, 103, 105, 115],
     [116, 101, 114, 67, 111, 110, 110, 101],
     [99, 116, 105, 111, 110, 36, 80, 97],
     [114, 97, 109, 115, 0, 0, 0, 0],
     [16, 0, 0, 0, 3, 0, 4, 0],
     [0, 0, 0, 0, 0, 0, 0, 0],
     [0, 0, 1, 0, 0, 0, 0, 0],
     [0, 0, 0, 0, 0, 0, 0, 0],
     [97, 0, 0, 0, 42, 0, 0, 0],
     [0, 0, 0, 0, 0, 0, 0, 0],
     [92, 0, 0, 0, 3, 0, 1, 0],
     [104, 0, 0, 0, 2, 0, 1, 0],
     [1, 0, 0, 0, 1, 0, 0, 0],
     [0, 0, 1, 0, 1, 0, 0, 0],
     [0, 0, 0, 0, 0, 0, 0, 0],
     [101, 0, 0, 0, 74, 0, 0, 0],
     [0, 0, 0, 0, 0, 0, 0, 0],
     [100, 0, 0, 0, 3, 0, 1, 0],
     [112, 0, 0, 0, 2, 0, 1, 0],
     [2, 0, 0, 0, 0, 0, 0, 0],
     [0, 0, 1, 0, 2, 0, 0, 0],
     [0, 0, 0, 0, 0, 0, 0, 0],
     [109, 0, 0, 0, 82, 0, 0, 0],
     [0, 0, 0, 0, 0, 0, 0, 0],
     [108, 0, 0, 0, 3, 0, 1, 0],
     [120, 0, 0, 0, 2, 0, 1, 0],
     [3, 0, 0, 0, 2, 0, 0, 0],
     [0, 0, 1, 0, 3, 0, 0, 0],
     [0, 0, 0, 0, 0, 0, 0, 0],
     [117, 0, 0, 0, 66, 0, 0, 0],
     [0, 0, 0, 0, 0, 0, 0, 0],
     [112, 0, 0, 0, 3, 0, 1, 0],
     [124, 0, 0, 0, 2, 0, 1, 0],
     [97, 117, 116, 104, 0, 0, 0, 0],
     [16, 0, 0, 0, 0, 0, 0, 0],
     [63, 70, 205, 185, 26, 51, 150, 148],
     [0, 0, 0, 0, 0, 0, 0, 0],
     [0, 0, 0, 0, 0, 0, 0, 0],
     [16, 0, 0, 0, 0, 0, 0, 0],
     [0, 0, 0, 0, 0, 0, 0, 0],
     [0, 0, 0, 0, 0, 0, 0, 0],
     [116, 117, 110, 110, 101, 108, 73, 100],
     [0, 0, 0, 0, 0, 0, 0, 0],
     [13, 0, 0, 0, 0, 0, 0, 0],
     [0, 0, 0, 0, 0, 0, 0, 0],
     [0, 0, 0, 0, 0, 0, 0, 0],
     [0, 0, 0, 0, 0, 0, 0, 0],
     [13, 0, 0, 0, 0, 0, 0, 0],
     [0, 0, 0, 0, 0, 0, 0, 0],
     [0, 0, 0, 0, 0, 0, 0, 0],
     [99, 111, 110, 110, 73, 110, 100, 101],
     [120, 0, 0, 0, 0, 0, 0, 0],
     [6, 0, 0, 0, 0, 0, 0, 0],
     [0, 0, 0, 0, 0, 0, 0, 0],
     [0, 0, 0, 0, 0, 0, 0, 0],
     [0, 0, 0, 0, 0, 0, 0, 0],
     [6, 0, 0, 0, 0, 0, 0, 0],
     [0, 0, 0, 0, 0, 0, 0, 0],
     [0, 0, 0, 0, 0, 0, 0, 0],
     [111, 112, 116, 105, 111, 110, 115, 0],
     [16, 0, 0, 0, 0, 0, 0, 0],
     [4, 93, 3, 254, 97, 152, 191, 180],
     [0, 0, 0, 0, 0, 0, 0, 0],
     [0, 0, 0, 0, 0, 0, 0, 0],
     [16, 0, 0, 0, 0, 0, 0, 0],
     [0, 0, 0, 0, 0, 0, 0, 0],
     [0, 0, 0, 0, 0, 0, 0, 0]]"

definition b_ea50d822450d1f17 :: "u8 list list" where
  "b_ea50d822450d1f17 =
    [[0, 0, 0, 0, 6, 0, 6, 0],
     [23, 31, 13, 69, 34, 216, 80, 234],
     [35, 0, 0, 0, 1, 0, 0, 0],
     [0, 0, 0, 0, 0, 0, 0, 0],
     [1, 0, 7, 0, 0, 0, 0, 0],
     [0, 0, 0, 0, 0, 0, 0, 0],
     [0, 0, 0, 0, 0, 0, 0, 0],
     [21, 0, 0, 0, 242, 1, 0, 0],
     [0, 0, 0, 0, 0, 0, 0, 0],
     [0, 0, 0, 0, 0, 0, 0, 0],
     [41, 0, 0, 0, 63, 0, 0, 0],
     [0, 0, 0, 0, 0, 0, 0, 0],
     [0, 0, 0, 0, 0, 0, 0, 0],
     [116, 117, 110, 110, 101, 108, 114, 112],
     [99, 46, 99, 97, 112, 110, 112, 58],
     [82, 101, 103, 105, 115, 116, 114, 97],
     [116, 105, 111, 110, 83, 101, 114, 118],
     [101, 114, 46, 114, 101, 103, 105, 115],
     [116, 101, 114, 67, 111, 110, 110, 101],
     [99, 116, 105, 111, 110, 36, 82, 101],
     [115, 117, 108, 116, 115, 0, 0, 0],
     [4, 0, 0, 0, 3, 0, 4, 0],
     [0, 0, 0, 0, 0, 0, 0, 0],
     [0, 0, 1, 0, 0, 0, 0, 0],
     [0, 0, 0, 0, 0, 0, 0, 0],
     [13, 0, 0, 0, 58, 0, 0, 0],
     [0, 0, 0, 0, 0, 0, 0, 0],
     [8, 0, 0, 0, 3, 0, 1, 0],
     [20, 0, 0, 0, 2, 0, 1, 0],
     [114, 101, 115, 117, 108, 116, 0, 0],
     [16, 0, 0, 0, 0, 0, 0, 0],
     [220, 98, 43, 213, 3, 157, 170, 219],
     [0, 0, 0, 0, 0, 0, 0, 0],
     [0, 0, 0, 0, 0, 0, 0, 0],
     [16, 0, 0, 0, 0, 0, 0, 0],
     [0, 0, 0, 0, 0, 0, 0, 0],
     [0, 0, 0, 0, 0, 0, 0, 0]]"

definition b_f9cb7f4431a307d0 :: "u8 list list" where
  "b_f9cb7f4431a307d0 =
    [[0, 0, 0, 0, 6, 0, 6, 0],
     [208, 7, 163, 49, 68, 127, 203, 249],
     [35, 0, 0, 0, 1, 0, 0, 0],
     [0, 0, 0, 0, 0, 0, 0, 0],
     [0, 0, 7, 0, 0, 0, 0, 0],
     [0, 0, 0, 0, 0, 0, 0, 0],
     [0, 0, 0, 0, 0, 0, 0, 0],
     [21, 0, 0, 0, 250, 1, 0, 0],
     [0, 0, 0, 0, 0, 0, 0, 0],
     [0, 0, 0, 0, 0, 0, 0, 0],
     [0, 0, 0, 0, 0, 0, 0, 0],
     [0, 0, 0, 0, 0, 0, 0, 0],
     [0, 0, 0, 0, 0, 0, 0, 0],
     [116, 117, 110, 110, 101, 108, 114, 112],
     [99, 46, 99, 97, 112, 110, 112, 58],
     [82, 101, 103, 105, 115, 116, 114, 97],
     [116, 105, 111, 110, 83, 101, 114, 118],
     [101, 114, 46, 117, 110, 114, 101, 103],
     [105, 115, 116, 101, 114, 67, 111, 110],
     [110, 101, 99, 116, 105, 111, 110, 36],
     [80, 97, 114, 97, 109, 115, 0, 0]]"

definition b_b046e578094b1ead :: "u8 list list" where
  "b_b046e578094b1ead =
    [[0, 0, 0, 0, 6, 0, 6, 0],
     [173, 30, 75, 9, 120, 229, 70, 176],
     [35, 0, 0, 0, 1, 0, 0, 0],
     [0, 0, 0, 0, 0, 0, 0, 0],
     [0, 0, 7, 0, 0, 0, 0, 0],
     [0, 0, 0, 0, 0, 0, 0, 0],
     [0, 0, 0, 0, 0, 0, 0, 0],
     [21, 0, 0, 0, 2, 2, 0, 0],
     [0, 0, 0, 0, 0, 0, 0, 0],
     [0, 0, 0, 0, 0, 0, 0, 0],
     [0, 0, 0, 0, 0, 0, 0, 0],
     [0, 0, 0, 0, 0, 0, 0, 0],
     [0, 0, 0, 0, 0, 0, 0, 0],
     [116, 117, 110, 110, 101, 108, 114, 112],
     [99, 46, 99, 97, 112, 110, 112, 58],
     [82, 101, 103, 105, 115, 116, 114, 97],
     [116, 105, 111, 110, 83, 101, 114, 118],
     [101, 114, 46, 117, 110, 114, 101, 103],
     [105, 115, 116, 101, 114, 67, 111, 110],
     [110, 101, 99, 116, 105, 111, 110, 36],
     [82, 101, 115, 117, 108, 116, 115, 0]]"

definition b_c5d6e311876a3604 :: "u8 list list" where
  "b_c5d6e311876a3604 =
    [[0, 0, 0, 0, 6, 0, 6, 0],
     [4, 54, 106, 135, 17, 227, 214, 197],
     [35, 0, 0, 0, 1, 0, 0, 0],
     [0, 0, 0, 0, 0, 0, 0, 0],
     [1, 0, 7, 0, 0, 0, 0, 0],
     [0, 0, 0, 0, 0, 0, 0, 0],
     [0, 0, 0, 0, 0, 0, 0, 0],
     [21, 0, 0, 0, 26, 2, 0, 0],
     [0, 0, 0, 0, 0, 0, 0, 0],
     [0, 0, 0, 0, 0, 0, 0, 0],
     [45, 0, 0, 0, 63, 0, 0, 0],
     [0, 0, 0, 0, 0, 0, 0, 0],
     [0, 0, 0, 0, 0, 0, 0, 0],
     [116, 117, 110, 110, 101, 108, 114, 112],
     [99, 46, 99, 97, 112, 110, 112, 58],
     [82, 101, 103, 105, 115, 116, 114, 97],
     [116, 105, 111, 110, 83, 101, 114, 118],
     [101, 114, 46, 117, 112, 100, 97, 116],
     [101, 76, 111, 99, 97, 108, 67, 111],
     [110, 102, 105, 103, 117, 114, 97, 116],
     [105, 111, 110, 36, 80, 97, 114, 97],
     [109, 115, 0, 0, 0, 0, 0, 0],
     [4, 0, 0, 0, 3, 0, 4, 0],
     [0, 0, 0, 0, 0, 0, 0, 0],
     [0, 0, 1, 0, 0, 0, 0, 0],
     [0, 0, 0, 0, 0, 0, 0, 0],
     [13, 0, 0, 0, 58, 0, 0, 0],
     [0, 0, 0, 0, 0, 0, 0, 0],
     [8, 0, 0, 0, 3, 0, 1, 0],
     [20, 0, 0, 0, 2, 0, 1, 0],
     [99, 111, 110, 102, 105, 103, 0, 0],
     [13, 0, 0, 0, 0, 0, 0, 0],
     [0, 0, 0, 0, 0, 0, 0, 0],
     [0, 0, 0, 0, 0, 0, 0, 0],
     [0, 0, 0, 0, 0, 0, 0, 0],
     [13, 0, 0, 0, 0, 0, 0, 0],
     [0, 0, 0, 0, 0, 0, 0, 0],
     [0, 0, 0, 0, 0, 0, 0, 0]]"

definition b_e5ceae5d6897d7be :: "u8 list list" where
  "b_e5ceae5d6897d7be =
    [[0, 0, 0, 0, 6, 0, 6, 0],
     [190, 215, 151, 104, 93, 174, 206, 229],
     [35, 0, 0, 0, 1, 0, 0, 0],
     [0, 0, 0, 0, 0, 0, 0, 0],
     [0, 0, 7, 0, 0, 0, 0, 0],
     [0, 0, 0, 0, 0, 0, 0, 0],
     [0, 0, 0, 0, 0, 0, 0, 0],
     [21, 0, 0, 0, 34, 2, 0, 0],
     [0, 0, 0, 0, 0, 0, 0, 0],
     [0, 0, 0, 0, 0, 0, 0, 0],
     [0, 0, 0, 0, 0, 0, 0, 0],
     [0, 0, 0, 0, 0, 0, 0, 0],
     [0, 0, 0, 0, 0, 0, 0, 0],
     [116, 117, 110, 110, 101, 108, 114, 112],
     [99, 46, 99, 97, 112, 110, 112, 58],
     [82, 101, 103, 105, 115, 116, 114, 97],
     [116, 105, 111, 110, 83, 101, 114, 118],
     [101, 114, 46, 117, 112, 100, 97, 116],
     [101, 76, 111, 99, 97, 108, 67, 111],
     [110, 102, 105, 103, 117, 114, 97, 116],
     [105, 111, 110, 36, 82, 101, 115, 117],
     [108, 116, 115, 0, 0, 0, 0, 0]]"

subsection \<open>Tables\<close>

record raw_schema =
  rs_id :: u64
  rs_node :: "u8 list list"
  rs_word_count :: nat
  rs_dependencies :: "u64 list"
  rs_by_name :: "nat list"
  rs_dependency_count :: nat
  rs_member_count :: nat
  rs_by_discriminant :: "nat list"

definition s_83ced0145b2f114b :: raw_schema where
  "s_83ced0145b2f114b = \<lparr>rs_id = 0x83ced0145b2f114b, rs_node = b_83ced0145b2f114b, rs_word_count = 85, rs_dependencies = [],
     rs_by_name = [3, 0, 1, 2], rs_dependency_count = 0, rs_member_count = 4, rs_by_discriminant = [0, 1, 2, 3]\<rparr>"

definition s_b4bf9861fe035d04 :: raw_schema where
  "s_b4bf9861fe035d04 = \<lparr>rs_id = 0xb4bf9861fe035d04, rs_node = b_b4bf9861fe035d04, rs_word_count = 101, rs_dependencies = [0x83ced0145b2f114b],
     rs_by_name = [0, 3, 4, 1, 2], rs_dependency_count = 1, rs_member_count = 5, rs_by_discriminant = [0, 1, 2, 3, 4]\<rparr>"

definition s_b5f39f082b9ac18a :: raw_schema where
  "s_b5f39f082b9ac18a = \<lparr>rs_id = 0xb5f39f082b9ac18a, rs_node = b_b5f39f082b9ac18a, rs_word_count = 68, rs_dependencies = [],
     rs_by_name = [1, 2, 0], rs_dependency_count = 0, rs_member_count = 3, rs_by_discriminant = [0, 1, 2]\<rparr>"

definition s_f5f383d2785edb86 :: raw_schema where
  "s_f5f383d2785edb86 = \<lparr>rs_id = 0xf5f383d2785edb86, rs_node = b_f5f383d2785edb86, rs_word_count = 66, rs_dependencies = [],
     rs_by_name = [0, 1, 2], rs_dependency_count = 0, rs_member_count = 3, rs_by_discriminant = [0, 1, 2]\<rparr>"

definition s_dbaa9d03d52b62dc :: raw_schema where
  "s_dbaa9d03d52b62dc = \<lparr>rs_id = 0xdbaa9d03d52b62dc, rs_node = b_dbaa9d03d52b62dc, rs_word_count = 28, rs_dependencies = [0x97b3c5c260257622],
     rs_by_name = [0], rs_dependency_count = 1, rs_member_count = 1, rs_by_discriminant = [0]\<rparr>"

definition s_97b3c5c260257622 :: raw_schema where
  "s_97b3c5c260257622 = \<lparr>rs_id = 0x97b3c5c260257622, rs_node = b_97b3c5c260257622, rs_word_count = 52, rs_dependencies = [0xb5f39f082b9ac18a, 0xdbaa9d03d52b62dc, 0xf5f383d2785edb86],
     rs_by_name = [1, 0], rs_dependency_count = 3, rs_member_count = 2, rs_by_discriminant = [0, 1]\<rparr>"

definition s_9496331ab9cd463f :: raw_schema where
  "s_9496331ab9cd463f = \<lparr>rs_id = 0x9496331ab9cd463f, rs_node = b_9496331ab9cd463f, rs_word_count = 51, rs_dependencies = [],
     rs_by_name = [0, 1], rs_dependency_count = 0, rs_member_count = 2, rs_by_discriminant = [0, 1]\<rparr>"

definition s_f71695ec7fe85497 :: raw_schema where
  "s_f71695ec7fe85497 = \<lparr>rs_id = 0xf71695ec7fe85497, rs_node = b_f71695ec7fe85497, rs_word_count = 58, rs_dependencies = [0xb046e578094b1ead, 0xc5d6e311876a3604, 0xe5ceae5d6897d7be, 0xe6646dec8feaa6ee, 0xea50d822450d1f17, 0xf9cb7f4431a307d0],
     rs_by_name = [0, 1, 2], rs_dependency_count = 6, rs_member_count = 3, rs_by_discriminant = []\<rparr>"

definition s_e6646dec8feaa6ee :: raw_schema where
  "s_e6646dec8feaa6ee = \<lparr>rs_id = 0xe6646dec8feaa6ee, rs_node = b_e6646dec8feaa6ee, rs_word_count = 84, rs_dependencies = [0x9496331ab9cd463f, 0xb4bf9861fe035d04],
     rs_by_name = [0, 2, 3, 1], rs_dependency_count = 2, rs_member_count = 4, rs_by_discriminant = [0, 1, 2, 3]\<rparr>"

definition s_ea50d822450d1f17 :: raw_schema where
  "s_ea50d822450d1f17 = \<lparr>rs_id = 0xea50d822450d1f17, rs_node = b_ea50d822450d1f17, rs_word_count = 37, rs_dependencies = [0xdbaa9d03d52b62dc],
     rs_by_name = [0], rs_dependency_count = 1, rs_member_count = 1, rs_by_discriminant = [0]\<rparr>"

definition s_f9cb7f4431a307d0 :: raw_schema where
  "s_f9cb7f4431a307d0 = \<lparr>rs_id = 0xf9cb7f4431a307d0, rs_node = b_f9cb7f4431a307d0, rs_word_count = 21, rs_dependencies = [],
     rs_by_name = [], rs_dependency_count = 0, rs_member_count = 0, rs_by_discriminant = []\<rparr>"

definition s_b046e578094b1ead :: raw_schema where
  "s_b046e578094b1ead = \<lparr>rs_id = 0xb046e578094b1ead, rs_node = b_b046e578094b1ead, rs_word_count = 21, rs_dependencies = [],
     rs_by_name = [], rs_dependency_count = 0, rs_member_count = 0, rs_by_discriminant = []\<rparr>"

definition s_c5d6e311876a3604 :: raw_schema where
  "s_c5d6e311876a3604 = \<lparr>rs_id = 0xc5d6e311876a3604, rs_node = b_c5d6e311876a3604, rs_word_count = 38, rs_dependencies = [],
     rs_by_name = [0], rs_dependency_count = 0, rs_member_count = 1, rs_by_discriminant = [0]\<rparr>"

definition s_e5ceae5d6897d7be :: raw_schema where
  "s_e5ceae5d6897d7be = \<lparr>rs_id = 0xe5ceae5d6897d7be, rs_node = b_e5ceae5d6897d7be, rs_word_count = 22, rs_dependencies = [],
     rs_by_name = [], rs_dependency_count = 0, rs_member_count = 0, rs_by_discriminant = []\<rparr>"

subsection \<open>Reading a node\<close>

fun le_int :: "u8 list \<Rightarrow> int" where
  "le_int [] = 0"
| "le_int (b # bs) = uint b + 256 * le_int bs"

text \<open>The \<open>n\<close> bytes at \<open>k\<close> of word \<open>i\<close>; a word that is not there is zero.\<close>

definition word_bytes :: "u8 list list \<Rightarrow> nat \<Rightarrow> nat \<Rightarrow> nat \<Rightarrow> int" where
  "word_bytes ws i k n = (case drop i ws of [] \<Rightarrow> 0 | w # _ \<Rightarrow> le_int (take n (drop k w)))"

definition word_nat :: "u8 list list \<Rightarrow> nat \<Rightarrow> nat \<Rightarrow> nat \<Rightarrow> nat" where
  "word_nat ws i k n = nat (word_bytes ws i k n)"

definition word_id :: "u8 list list \<Rightarrow> nat \<Rightarrow> u64" where
  "word_id ws i = word_of_int (word_bytes ws i 0 8)"

text \<open>
  A pointer's target, the text it points to (its count of bytes includes the NUL), and the elements of a list of structs, which
  begins with a tag word: where each starts, and how many words of data it has.
\<close>

definition pointer_target :: "u8 list list \<Rightarrow> nat \<Rightarrow> nat" where
  "pointer_target ws i = i + 1 + nat (word_bytes ws i 0 4 div 4)"

definition node_text :: "u8 list list \<Rightarrow> nat \<Rightarrow> string" where
  "node_text ws i = map (\<lambda>b. char_of (uint b)) (take (nat (word_bytes ws i 4 4 div 8 - 1)) (concat (take 8 (drop (pointer_target ws i) ws))))"

definition list_elements :: "u8 list list \<Rightarrow> nat \<Rightarrow> (nat \<times> nat) list" where
  "list_elements ws i =
     (if word_bytes ws i 0 8 = 0 then []
      else let t = pointer_target ws i; dw = word_nat ws t 4 2; pw = word_nat ws t 6 2 in
        map (\<lambda>k. (t + 1 + k * (dw + pw), dw)) [0..<nat (word_bytes ws t 0 4 div 4)])"

text \<open>
  A field: its name, its discriminant (stored as the exclusive or with the default 65535), whether it is a group, its slot, the code of
  its type and the id of the struct or group it names.
\<close>

record schema_field =
  sf_name :: string
  sf_discriminant :: int
  sf_group :: bool
  sf_slot :: nat
  sf_type :: int
  sf_type_id :: u64

definition read_field :: "u8 list list \<Rightarrow> nat \<times> nat \<Rightarrow> schema_field" where
  "read_field ws e =
     (let i = fst e; ps = i + snd e; ty = pointer_target ws (ps + 2); grp = (word_bytes ws (i + 1) 0 2 = 1) in
      \<lparr>sf_name = node_text ws ps, sf_discriminant = 65535 - word_bytes ws i 2 2, sf_group = grp, sf_slot = word_nat ws i 4 4,
       sf_type = (if grp then 0 else word_bytes ws ty 0 2),
       sf_type_id = (if grp then word_id ws (i + 2) else if word_bytes ws ty 0 2 = 16 then word_id ws (ty + 1) else 0)\<rparr>)"

text \<open>A node starts with a pointer to its struct of six words of data and six pointers.\<close>

definition node_id :: "u8 list list \<Rightarrow> u64" where "node_id ws = word_id ws 1"
definition node_kind :: "u8 list list \<Rightarrow> int" where "node_kind ws = word_bytes ws 2 4 2"
definition node_scope :: "u8 list list \<Rightarrow> u64" where "node_scope ws = word_id ws 3"
definition node_is_group :: "u8 list list \<Rightarrow> bool" where "node_is_group ws \<longleftrightarrow> odd (word_bytes ws 4 4 1)"

definition node_header :: "u8 list list \<Rightarrow> struct_header" where
  "node_header ws = (node_id ws, word_nat ws 2 6 2, word_nat ws 4 0 2)"

text \<open>How many members of its struct's fields are in a union, and where its tag is, in units of 16 bits.\<close>

definition node_union :: "u8 list list \<Rightarrow> int \<times> nat" where
  "node_union ws = (word_bytes ws 4 6 2, word_nat ws 5 0 4)"

definition node_fields :: "u8 list list \<Rightarrow> schema_field list" where
  "node_fields ws = map (read_field ws) (list_elements ws 10)"

text \<open>A method of an interface: its name and the ids of its parameters and results.\<close>

definition node_methods :: "u8 list list \<Rightarrow> (string \<times> u64 \<times> u64) list" where
  "node_methods ws = map (\<lambda>(i, dw). (node_text ws (i + dw), word_id ws (i + 1), word_id ws (i + 2))) (list_elements ws 10)"

subsection \<open>Specification\<close>

text \<open>The tables of a schema: sizes, members in the order of their names and of their discriminants, and the types it refers to.\<close>

definition member_names :: "raw_schema \<Rightarrow> string list" where
  "member_names s = (if node_kind (rs_node s) = 3 then map fst (node_methods (rs_node s)) else map sf_name (node_fields (rs_node s)))"

definition referred :: "raw_schema \<Rightarrow> u64 list" where
  "referred s =
     (if node_kind (rs_node s) = 3 then concat (map (\<lambda>(_, p, r). [p, r]) (node_methods (rs_node s)))
      else filter (\<lambda>i. i \<noteq> 0) (map sf_type_id (node_fields (rs_node s))) @
        (if node_is_group (rs_node s) then [node_scope (rs_node s)] else []))"

fun string_le :: "string \<Rightarrow> string \<Rightarrow> bool" where
  "string_le [] t = True"
| "string_le (c # s) [] = False"
| "string_le (c # s) (d # t) \<longleftrightarrow> (of_char c :: int) < of_char d \<or> c = d \<and> string_le s t"

fun ascending :: "('a \<Rightarrow> 'a \<Rightarrow> bool) \<Rightarrow> 'a list \<Rightarrow> bool" where
  "ascending le [] = True"
| "ascending le [x] = True"
| "ascending le (x # y # zs) \<longleftrightarrow> le x y \<and> ascending le (y # zs)"

text \<open>A table of members lists every member once.\<close>

definition lists_members :: "nat \<Rightarrow> nat list \<Rightarrow> bool" where
  "lists_members n is \<longleftrightarrow> length is = n \<and> distinct is \<and> list_all (\<lambda>i. i < n) is"

definition tables_ok :: "raw_schema \<Rightarrow> bool" where
  "tables_ok s \<longleftrightarrow> rs_id s = node_id (rs_node s) \<and> rs_word_count s = length (rs_node s) \<and> list_all (\<lambda>w. length w = 8) (rs_node s) \<and>
     rs_member_count s = length (member_names s) \<and> rs_dependency_count s = length (rs_dependencies s) \<and>
     ascending (<) (rs_dependencies s) \<and>
     list_all (\<lambda>d. d \<in> set (referred s)) (rs_dependencies s) \<and> list_all (\<lambda>d. d \<in> set (rs_dependencies s)) (referred s) \<and>
     distinct (member_names s) \<and>
     lists_members (rs_member_count s) (rs_by_name s) \<and> ascending string_le (map (nth (member_names s)) (rs_by_name s)) \<and>
     (node_kind (rs_node s) = 1 \<longrightarrow> lists_members (rs_member_count s) (rs_by_discriminant s) \<and>
        ascending (\<le>) (map (nth (map sf_discriminant (node_fields (rs_node s)))) (rs_by_discriminant s)))"

text \<open>Where a struct's node puts the field of a name, if its type has that code.\<close>

fun find_slot :: "schema_field list \<Rightarrow> string \<Rightarrow> int \<Rightarrow> nat option" where
  "find_slot [] n ty = None"
| "find_slot (f # fs) n ty = (if sf_name f = n \<and> sf_type f = ty \<and> \<not> sf_group f then Some (sf_slot f) else find_slot fs n ty)"

definition slot :: "raw_schema \<Rightarrow> string \<Rightarrow> int \<Rightarrow> nat option" where
  "slot s n ty = find_slot (node_fields (rs_node s)) n ty"

text \<open>What a reader has of the field of a name: by the code of its type, Bool 1, Int64 5, UInt8 6, Text 12, Data 13, a list 14, a struct 16.\<close>

definition slot_bool :: "'s struct_rt \<Rightarrow> raw_schema \<Rightarrow> string \<Rightarrow> nat option \<Rightarrow> 's message \<Rightarrow> bool option" where
  "slot_bool rt s n r m = map_option (\<lambda>i. read_data rt 1 i r m \<noteq> 0) (slot s n 1)"

definition slot_u8 :: "'s struct_rt \<Rightarrow> raw_schema \<Rightarrow> string \<Rightarrow> nat option \<Rightarrow> 's message \<Rightarrow> u8 option" where
  "slot_u8 rt s n r m = map_option (\<lambda>i. of_nat (read_data rt 8 i r m)) (slot s n 6)"

definition slot_i64 :: "'s struct_rt \<Rightarrow> raw_schema \<Rightarrow> string \<Rightarrow> nat option \<Rightarrow> 's message \<Rightarrow> u64 option" where
  "slot_i64 rt s n r m = map_option (\<lambda>i. of_nat (read_data rt 64 i r m)) (slot s n 5)"

definition slot_text :: "'s struct_rt \<Rightarrow> raw_schema \<Rightarrow> string \<Rightarrow> nat option \<Rightarrow> 's message \<Rightarrow> string option option" where
  "slot_text rt s n r m = map_option (\<lambda>i. as_text (read_pointer rt i r m)) (slot s n 12)"

definition slot_bytes :: "'s struct_rt \<Rightarrow> raw_schema \<Rightarrow> string \<Rightarrow> nat option \<Rightarrow> 's message \<Rightarrow> u8 list option option" where
  "slot_bytes rt s n r m = map_option (\<lambda>i. as_bytes (read_pointer rt i r m)) (slot s n 13)"

definition slot_texts :: "'s struct_rt \<Rightarrow> raw_schema \<Rightarrow> string \<Rightarrow> nat option \<Rightarrow> 's message \<Rightarrow> string list option option" where
  "slot_texts rt s n r m = map_option (\<lambda>i. as_texts (read_pointer rt i r m)) (slot s n 14)"

definition slot_struct :: "'s struct_rt \<Rightarrow> raw_schema \<Rightarrow> string \<Rightarrow> nat option \<Rightarrow> 's message \<Rightarrow> nat option option option" where
  "slot_struct rt s n r m = map_option (\<lambda>i. as_struct (read_pointer rt i r m)) (slot s n 16)"

definition schemas :: "raw_schema list" where
  "schemas = [s_83ced0145b2f114b, s_b4bf9861fe035d04, s_b5f39f082b9ac18a, s_f5f383d2785edb86,
     s_dbaa9d03d52b62dc, s_97b3c5c260257622, s_9496331ab9cd463f, s_f71695ec7fe85497,
     s_e6646dec8feaa6ee, s_ea50d822450d1f17, s_f9cb7f4431a307d0, s_b046e578094b1ead,
     s_c5d6e311876a3604, s_e5ceae5d6897d7be]"

section \<open>Lemmas\<close>

lemma node_fields_83ced0145b2f114b: "node_fields b_83ced0145b2f114b =
  [\<lparr>sf_name = ''clientId'', sf_discriminant = 65535, sf_group = False, sf_slot = 0, sf_type = 13, sf_type_id = 0\<rparr>,
   \<lparr>sf_name = ''features'', sf_discriminant = 65535, sf_group = False, sf_slot = 1, sf_type = 14, sf_type_id = 0\<rparr>,
   \<lparr>sf_name = ''version'', sf_discriminant = 65535, sf_group = False, sf_slot = 2, sf_type = 12, sf_type_id = 0\<rparr>,
   \<lparr>sf_name = ''arch'', sf_discriminant = 65535, sf_group = False, sf_slot = 3, sf_type = 12, sf_type_id = 0\<rparr>]"
  by code_simp

lemma node_fields_b4bf9861fe035d04: "node_fields b_b4bf9861fe035d04 =
  [\<lparr>sf_name = ''client'', sf_discriminant = 65535, sf_group = False, sf_slot = 0, sf_type = 16, sf_type_id = 0x83ced0145b2f114b\<rparr>,
   \<lparr>sf_name = ''originLocalIp'', sf_discriminant = 65535, sf_group = False, sf_slot = 1, sf_type = 13, sf_type_id = 0\<rparr>,
   \<lparr>sf_name = ''replaceExisting'', sf_discriminant = 65535, sf_group = False, sf_slot = 0, sf_type = 1, sf_type_id = 0\<rparr>,
   \<lparr>sf_name = ''compressionQuality'', sf_discriminant = 65535, sf_group = False, sf_slot = 1, sf_type = 6, sf_type_id = 0\<rparr>,
   \<lparr>sf_name = ''numPreviousAttempts'', sf_discriminant = 65535, sf_group = False, sf_slot = 2, sf_type = 6, sf_type_id = 0\<rparr>]"
  by code_simp

lemma node_fields_b5f39f082b9ac18a: "node_fields b_b5f39f082b9ac18a =
  [\<lparr>sf_name = ''uuid'', sf_discriminant = 65535, sf_group = False, sf_slot = 0, sf_type = 13, sf_type_id = 0\<rparr>,
   \<lparr>sf_name = ''locationName'', sf_discriminant = 65535, sf_group = False, sf_slot = 1, sf_type = 12, sf_type_id = 0\<rparr>,
   \<lparr>sf_name = ''tunnelIsRemotelyManaged'', sf_discriminant = 65535, sf_group = False, sf_slot = 0, sf_type = 1, sf_type_id = 0\<rparr>]"
  by code_simp

lemma node_fields_f5f383d2785edb86: "node_fields b_f5f383d2785edb86 =
  [\<lparr>sf_name = ''cause'', sf_discriminant = 65535, sf_group = False, sf_slot = 0, sf_type = 12, sf_type_id = 0\<rparr>,
   \<lparr>sf_name = ''retryAfter'', sf_discriminant = 65535, sf_group = False, sf_slot = 0, sf_type = 5, sf_type_id = 0\<rparr>,
   \<lparr>sf_name = ''shouldRetry'', sf_discriminant = 65535, sf_group = False, sf_slot = 64, sf_type = 1, sf_type_id = 0\<rparr>]"
  by code_simp

lemma node_fields_dbaa9d03d52b62dc: "node_fields b_dbaa9d03d52b62dc =
  [\<lparr>sf_name = ''result'', sf_discriminant = 65535, sf_group = True, sf_slot = 0, sf_type = 0, sf_type_id = 0x97b3c5c260257622\<rparr>]"
  by code_simp

lemma node_fields_97b3c5c260257622: "node_fields b_97b3c5c260257622 =
  [\<lparr>sf_name = ''error'', sf_discriminant = 0, sf_group = False, sf_slot = 0, sf_type = 16, sf_type_id = 0xf5f383d2785edb86\<rparr>,
   \<lparr>sf_name = ''connectionDetails'', sf_discriminant = 1, sf_group = False, sf_slot = 0, sf_type = 16, sf_type_id = 0xb5f39f082b9ac18a\<rparr>]"
  by code_simp

lemma node_fields_9496331ab9cd463f: "node_fields b_9496331ab9cd463f =
  [\<lparr>sf_name = ''accountTag'', sf_discriminant = 65535, sf_group = False, sf_slot = 0, sf_type = 12, sf_type_id = 0\<rparr>,
   \<lparr>sf_name = ''tunnelSecret'', sf_discriminant = 65535, sf_group = False, sf_slot = 1, sf_type = 13, sf_type_id = 0\<rparr>]"
  by code_simp

lemma node_methods_f71695ec7fe85497: "node_methods b_f71695ec7fe85497 =
  [(''registerConnection'', 0xe6646dec8feaa6ee, 0xea50d822450d1f17),
   (''unregisterConnection'', 0xf9cb7f4431a307d0, 0xb046e578094b1ead),
   (''updateLocalConfiguration'', 0xc5d6e311876a3604, 0xe5ceae5d6897d7be)]"
  by code_simp

lemma node_fields_e6646dec8feaa6ee: "node_fields b_e6646dec8feaa6ee =
  [\<lparr>sf_name = ''auth'', sf_discriminant = 65535, sf_group = False, sf_slot = 0, sf_type = 16, sf_type_id = 0x9496331ab9cd463f\<rparr>,
   \<lparr>sf_name = ''tunnelId'', sf_discriminant = 65535, sf_group = False, sf_slot = 1, sf_type = 13, sf_type_id = 0\<rparr>,
   \<lparr>sf_name = ''connIndex'', sf_discriminant = 65535, sf_group = False, sf_slot = 0, sf_type = 6, sf_type_id = 0\<rparr>,
   \<lparr>sf_name = ''options'', sf_discriminant = 65535, sf_group = False, sf_slot = 2, sf_type = 16, sf_type_id = 0xb4bf9861fe035d04\<rparr>]"
  by code_simp

lemma node_fields_ea50d822450d1f17: "node_fields b_ea50d822450d1f17 =
  [\<lparr>sf_name = ''result'', sf_discriminant = 65535, sf_group = False, sf_slot = 0, sf_type = 16, sf_type_id = 0xdbaa9d03d52b62dc\<rparr>]"
  by code_simp

lemma node_fields_f9cb7f4431a307d0: "node_fields b_f9cb7f4431a307d0 =
  []"
  by code_simp

lemma node_fields_b046e578094b1ead: "node_fields b_b046e578094b1ead =
  []"
  by code_simp

lemma node_fields_c5d6e311876a3604: "node_fields b_c5d6e311876a3604 =
  [\<lparr>sf_name = ''config'', sf_discriminant = 65535, sf_group = False, sf_slot = 0, sf_type = 13, sf_type_id = 0\<rparr>]"
  by code_simp

lemma node_fields_e5ceae5d6897d7be: "node_fields b_e5ceae5d6897d7be =
  []"
  by code_simp

lemma node_shape_83ced0145b2f114b: "node_header b_83ced0145b2f114b = (0x83ced0145b2f114b, 0, 4)" "node_id b_83ced0145b2f114b = 0x83ced0145b2f114b"
  "node_kind b_83ced0145b2f114b = 1" "node_is_group b_83ced0145b2f114b \<longleftrightarrow> False" "node_scope b_83ced0145b2f114b = 0xdb8274f9144abc7e"
  "length b_83ced0145b2f114b = 85" "list_all (\<lambda>w. length w = 8) b_83ced0145b2f114b"
  by code_simp+

lemma node_shape_b4bf9861fe035d04: "node_header b_b4bf9861fe035d04 = (0xb4bf9861fe035d04, 1, 2)" "node_id b_b4bf9861fe035d04 = 0xb4bf9861fe035d04"
  "node_kind b_b4bf9861fe035d04 = 1" "node_is_group b_b4bf9861fe035d04 \<longleftrightarrow> False" "node_scope b_b4bf9861fe035d04 = 0xdb8274f9144abc7e"
  "length b_b4bf9861fe035d04 = 101" "list_all (\<lambda>w. length w = 8) b_b4bf9861fe035d04"
  by code_simp+

lemma node_shape_b5f39f082b9ac18a: "node_header b_b5f39f082b9ac18a = (0xb5f39f082b9ac18a, 1, 2)" "node_id b_b5f39f082b9ac18a = 0xb5f39f082b9ac18a"
  "node_kind b_b5f39f082b9ac18a = 1" "node_is_group b_b5f39f082b9ac18a \<longleftrightarrow> False" "node_scope b_b5f39f082b9ac18a = 0xdb8274f9144abc7e"
  "length b_b5f39f082b9ac18a = 68" "list_all (\<lambda>w. length w = 8) b_b5f39f082b9ac18a"
  by code_simp+

lemma node_shape_f5f383d2785edb86: "node_header b_f5f383d2785edb86 = (0xf5f383d2785edb86, 2, 1)" "node_id b_f5f383d2785edb86 = 0xf5f383d2785edb86"
  "node_kind b_f5f383d2785edb86 = 1" "node_is_group b_f5f383d2785edb86 \<longleftrightarrow> False" "node_scope b_f5f383d2785edb86 = 0xdb8274f9144abc7e"
  "length b_f5f383d2785edb86 = 66" "list_all (\<lambda>w. length w = 8) b_f5f383d2785edb86"
  by code_simp+

lemma node_shape_dbaa9d03d52b62dc: "node_header b_dbaa9d03d52b62dc = (0xdbaa9d03d52b62dc, 1, 1)" "node_id b_dbaa9d03d52b62dc = 0xdbaa9d03d52b62dc"
  "node_kind b_dbaa9d03d52b62dc = 1" "node_is_group b_dbaa9d03d52b62dc \<longleftrightarrow> False" "node_scope b_dbaa9d03d52b62dc = 0xdb8274f9144abc7e"
  "length b_dbaa9d03d52b62dc = 28" "list_all (\<lambda>w. length w = 8) b_dbaa9d03d52b62dc"
  by code_simp+

lemma node_shape_97b3c5c260257622: "node_header b_97b3c5c260257622 = (0x97b3c5c260257622, 1, 1)" "node_id b_97b3c5c260257622 = 0x97b3c5c260257622"
  "node_kind b_97b3c5c260257622 = 1" "node_is_group b_97b3c5c260257622 \<longleftrightarrow> True" "node_scope b_97b3c5c260257622 = 0xdbaa9d03d52b62dc"
  "length b_97b3c5c260257622 = 52" "list_all (\<lambda>w. length w = 8) b_97b3c5c260257622"
  by code_simp+

lemma node_shape_9496331ab9cd463f: "node_header b_9496331ab9cd463f = (0x9496331ab9cd463f, 0, 2)" "node_id b_9496331ab9cd463f = 0x9496331ab9cd463f"
  "node_kind b_9496331ab9cd463f = 1" "node_is_group b_9496331ab9cd463f \<longleftrightarrow> False" "node_scope b_9496331ab9cd463f = 0xdb8274f9144abc7e"
  "length b_9496331ab9cd463f = 51" "list_all (\<lambda>w. length w = 8) b_9496331ab9cd463f"
  by code_simp+

lemma node_shape_f71695ec7fe85497: "node_header b_f71695ec7fe85497 = (0xf71695ec7fe85497, 0, 0)" "node_id b_f71695ec7fe85497 = 0xf71695ec7fe85497"
  "node_kind b_f71695ec7fe85497 = 3" "node_is_group b_f71695ec7fe85497 \<longleftrightarrow> False" "node_scope b_f71695ec7fe85497 = 0xdb8274f9144abc7e"
  "length b_f71695ec7fe85497 = 58" "list_all (\<lambda>w. length w = 8) b_f71695ec7fe85497"
  by code_simp+

lemma node_shape_e6646dec8feaa6ee: "node_header b_e6646dec8feaa6ee = (0xe6646dec8feaa6ee, 1, 3)" "node_id b_e6646dec8feaa6ee = 0xe6646dec8feaa6ee"
  "node_kind b_e6646dec8feaa6ee = 1" "node_is_group b_e6646dec8feaa6ee \<longleftrightarrow> False" "node_scope b_e6646dec8feaa6ee = 0x0"
  "length b_e6646dec8feaa6ee = 84" "list_all (\<lambda>w. length w = 8) b_e6646dec8feaa6ee"
  by code_simp+

lemma node_shape_ea50d822450d1f17: "node_header b_ea50d822450d1f17 = (0xea50d822450d1f17, 0, 1)" "node_id b_ea50d822450d1f17 = 0xea50d822450d1f17"
  "node_kind b_ea50d822450d1f17 = 1" "node_is_group b_ea50d822450d1f17 \<longleftrightarrow> False" "node_scope b_ea50d822450d1f17 = 0x0"
  "length b_ea50d822450d1f17 = 37" "list_all (\<lambda>w. length w = 8) b_ea50d822450d1f17"
  by code_simp+

lemma node_shape_f9cb7f4431a307d0: "node_header b_f9cb7f4431a307d0 = (0xf9cb7f4431a307d0, 0, 0)" "node_id b_f9cb7f4431a307d0 = 0xf9cb7f4431a307d0"
  "node_kind b_f9cb7f4431a307d0 = 1" "node_is_group b_f9cb7f4431a307d0 \<longleftrightarrow> False" "node_scope b_f9cb7f4431a307d0 = 0x0"
  "length b_f9cb7f4431a307d0 = 21" "list_all (\<lambda>w. length w = 8) b_f9cb7f4431a307d0"
  by code_simp+

lemma node_shape_b046e578094b1ead: "node_header b_b046e578094b1ead = (0xb046e578094b1ead, 0, 0)" "node_id b_b046e578094b1ead = 0xb046e578094b1ead"
  "node_kind b_b046e578094b1ead = 1" "node_is_group b_b046e578094b1ead \<longleftrightarrow> False" "node_scope b_b046e578094b1ead = 0x0"
  "length b_b046e578094b1ead = 21" "list_all (\<lambda>w. length w = 8) b_b046e578094b1ead"
  by code_simp+

lemma node_shape_c5d6e311876a3604: "node_header b_c5d6e311876a3604 = (0xc5d6e311876a3604, 0, 1)" "node_id b_c5d6e311876a3604 = 0xc5d6e311876a3604"
  "node_kind b_c5d6e311876a3604 = 1" "node_is_group b_c5d6e311876a3604 \<longleftrightarrow> False" "node_scope b_c5d6e311876a3604 = 0x0"
  "length b_c5d6e311876a3604 = 38" "list_all (\<lambda>w. length w = 8) b_c5d6e311876a3604"
  by code_simp+

lemma node_shape_e5ceae5d6897d7be: "node_header b_e5ceae5d6897d7be = (0xe5ceae5d6897d7be, 0, 0)" "node_id b_e5ceae5d6897d7be = 0xe5ceae5d6897d7be"
  "node_kind b_e5ceae5d6897d7be = 1" "node_is_group b_e5ceae5d6897d7be \<longleftrightarrow> False" "node_scope b_e5ceae5d6897d7be = 0x0"
  "length b_e5ceae5d6897d7be = 22" "list_all (\<lambda>w. length w = 8) b_e5ceae5d6897d7be"
  by code_simp+

lemmas node_facts =
  node_shape_83ced0145b2f114b node_shape_b4bf9861fe035d04 node_shape_b5f39f082b9ac18a node_shape_f5f383d2785edb86
  node_shape_dbaa9d03d52b62dc node_shape_97b3c5c260257622 node_shape_9496331ab9cd463f node_shape_f71695ec7fe85497
  node_shape_e6646dec8feaa6ee node_shape_ea50d822450d1f17 node_shape_f9cb7f4431a307d0 node_shape_b046e578094b1ead
  node_shape_c5d6e311876a3604 node_shape_e5ceae5d6897d7be
  node_fields_83ced0145b2f114b node_fields_b4bf9861fe035d04 node_fields_b5f39f082b9ac18a node_fields_f5f383d2785edb86
  node_fields_dbaa9d03d52b62dc node_fields_97b3c5c260257622 node_fields_9496331ab9cd463f node_methods_f71695ec7fe85497
  node_fields_e6646dec8feaa6ee node_fields_ea50d822450d1f17 node_fields_f9cb7f4431a307d0 node_fields_b046e578094b1ead
  node_fields_c5d6e311876a3604 node_fields_e5ceae5d6897d7be

lemmas schema_defs =
  s_83ced0145b2f114b_def s_b4bf9861fe035d04_def s_b5f39f082b9ac18a_def s_f5f383d2785edb86_def s_dbaa9d03d52b62dc_def
  s_97b3c5c260257622_def s_9496331ab9cd463f_def s_f71695ec7fe85497_def s_e6646dec8feaa6ee_def s_ea50d822450d1f17_def
  s_f9cb7f4431a307d0_def s_b046e578094b1ead_def s_c5d6e311876a3604_def s_e5ceae5d6897d7be_def

lemma node_union_97b3c5c260257622: "node_union b_97b3c5c260257622 = (2, 0)"
  by code_simp

lemmas accessor_defs =
  ClientInfo_getClientId_def ClientInfo_getFeatures_def ClientInfo_getVersion_def
  ClientInfo_getArch_def ConnectionOptions_getClient_def ConnectionOptions_getOriginLocalIp_def
  ConnectionOptions_getReplaceExisting_def ConnectionOptions_getCompressionQuality_def ConnectionOptions_getNumPreviousAttempts_def
  ConnectionDetails_getUuid_def ConnectionDetails_getLocationName_def ConnectionDetails_getTunnelIsRemotelyManaged_def
  ConnectionError_getCause_def ConnectionError_getRetryAfter_def ConnectionError_getShouldRetry_def
  ConnectionResponse_Result_getError_def ConnectionResponse_Result_getConnectionDetails_def TunnelAuth_getAccountTag_def
  TunnelAuth_getTunnelSecret_def RegisterConnectionParams_getAuth_def RegisterConnectionParams_getTunnelId_def
  RegisterConnectionParams_getConnIndex_def RegisterConnectionParams_getOptions_def RegisterConnectionResults_getResult_def
  UpdateLocalConfigurationParams_getConfig_def

lemmas all_header_defs =
  ClientInfo_header_def ConnectionDetails_header_def ConnectionError_header_def
  ConnectionOptions_header_def ConnectionResponse_header_def ConnectionResponse_Result_header_def
  RegisterConnectionParams_header_def RegisterConnectionResults_header_def TunnelAuth_header_def
  UnregisterConnectionParams_header_def UnregisterConnectionResults_header_def UpdateLocalConfigurationParams_header_def
  UpdateLocalConfigurationResults_header_def

lemmas call_defs = registerConnectionRequest_def unregisterConnectionRequest_def updateLocalConfigurationRequest_def dispatchCall_def
  dispatchCallInternal_def

lemmas slot_defs = slot_def slot_bool_def slot_u8_def slot_i64_def slot_text_def slot_bytes_def slot_texts_def slot_struct_def

section \<open>Properties\<close>

text \<open>
  C26: the accessors of the header and the schema that the library embeds agree: the structs have the fields named here and no others, the
  getter of every one reads the slot, and with the type, that the schema's node gives the field of that name (the only group, the response's
  \<open>result\<close>, is the same struct read as the group's type, whose union has these members and this tag), and every struct's declared type id and sizes are
  those of its node; the interface's methods, in the order of the schema, are the numbers under which the three calls are made and dispatched.
\<close>

theorem accessors_follow_schema:
  "(slot_bytes rt s_83ced0145b2f114b ''clientId'' r m = Some (ClientInfo_getClientId rt r m) \<and>
     slot_texts rt s_83ced0145b2f114b ''features'' r m = Some (ClientInfo_getFeatures rt r m) \<and>
     slot_text rt s_83ced0145b2f114b ''version'' r m = Some (ClientInfo_getVersion rt r m) \<and>
     slot_text rt s_83ced0145b2f114b ''arch'' r m = Some (ClientInfo_getArch rt r m) \<and>
     slot_struct rt s_b4bf9861fe035d04 ''client'' r m = Some (ConnectionOptions_getClient rt r m) \<and>
     slot_bytes rt s_b4bf9861fe035d04 ''originLocalIp'' r m = Some (ConnectionOptions_getOriginLocalIp rt r m) \<and>
     slot_bool rt s_b4bf9861fe035d04 ''replaceExisting'' r m = Some (ConnectionOptions_getReplaceExisting rt r m) \<and>
     slot_u8 rt s_b4bf9861fe035d04 ''compressionQuality'' r m = Some (ConnectionOptions_getCompressionQuality rt r m) \<and>
     slot_u8 rt s_b4bf9861fe035d04 ''numPreviousAttempts'' r m = Some (ConnectionOptions_getNumPreviousAttempts rt r m) \<and>
     slot_bytes rt s_b5f39f082b9ac18a ''uuid'' r m = Some (ConnectionDetails_getUuid rt r m) \<and>
     slot_text rt s_b5f39f082b9ac18a ''locationName'' r m = Some (ConnectionDetails_getLocationName rt r m) \<and>
     slot_bool rt s_b5f39f082b9ac18a ''tunnelIsRemotelyManaged'' r m = Some (ConnectionDetails_getTunnelIsRemotelyManaged rt r m) \<and>
     slot_text rt s_f5f383d2785edb86 ''cause'' r m = Some (ConnectionError_getCause rt r m) \<and>
     slot_i64 rt s_f5f383d2785edb86 ''retryAfter'' r m = Some (ConnectionError_getRetryAfter rt r m) \<and>
     slot_bool rt s_f5f383d2785edb86 ''shouldRetry'' r m = Some (ConnectionError_getShouldRetry rt r m) \<and>
     slot_struct rt s_97b3c5c260257622 ''error'' r m = Some (ConnectionResponse_Result_getError False rt r m) \<and>
     slot_struct rt s_97b3c5c260257622 ''connectionDetails'' r m = Some (ConnectionResponse_Result_getConnectionDetails False rt r m) \<and>
     slot_text rt s_9496331ab9cd463f ''accountTag'' r m = Some (TunnelAuth_getAccountTag rt r m) \<and>
     slot_bytes rt s_9496331ab9cd463f ''tunnelSecret'' r m = Some (TunnelAuth_getTunnelSecret rt r m) \<and>
     slot_struct rt s_e6646dec8feaa6ee ''auth'' r m = Some (RegisterConnectionParams_getAuth rt r m) \<and>
     slot_bytes rt s_e6646dec8feaa6ee ''tunnelId'' r m = Some (RegisterConnectionParams_getTunnelId rt r m) \<and>
     slot_u8 rt s_e6646dec8feaa6ee ''connIndex'' r m = Some (RegisterConnectionParams_getConnIndex rt r m) \<and>
     slot_struct rt s_e6646dec8feaa6ee ''options'' r m = Some (RegisterConnectionParams_getOptions rt r m) \<and>
     slot_struct rt s_ea50d822450d1f17 ''result'' r m = Some (RegisterConnectionResults_getResult rt r m) \<and>
     slot_bytes rt s_c5d6e311876a3604 ''config'' r m = Some (UpdateLocalConfigurationParams_getConfig rt r m)) \<and>
    (node_header (rs_node s_83ced0145b2f114b) = ClientInfo_header \<and>
     node_header (rs_node s_b4bf9861fe035d04) = ConnectionOptions_header \<and>
     node_header (rs_node s_b5f39f082b9ac18a) = ConnectionDetails_header \<and>
     node_header (rs_node s_f5f383d2785edb86) = ConnectionError_header \<and>
     node_header (rs_node s_dbaa9d03d52b62dc) = ConnectionResponse_header \<and>
     node_header (rs_node s_97b3c5c260257622) = ConnectionResponse_Result_header \<and>
     node_header (rs_node s_9496331ab9cd463f) = TunnelAuth_header \<and>
     node_header (rs_node s_e6646dec8feaa6ee) = RegisterConnectionParams_header \<and>
     node_header (rs_node s_ea50d822450d1f17) = RegisterConnectionResults_header \<and>
     node_header (rs_node s_f9cb7f4431a307d0) = UnregisterConnectionParams_header \<and>
     node_header (rs_node s_b046e578094b1ead) = UnregisterConnectionResults_header \<and>
     node_header (rs_node s_c5d6e311876a3604) = UpdateLocalConfigurationParams_header \<and>
     node_header (rs_node s_e5ceae5d6897d7be) = UpdateLocalConfigurationResults_header) \<and>
    ConnectionResponse_Result_which rt r m = of_nat (read_data rt 16 (snd (node_union (rs_node s_97b3c5c260257622))) r m) \<and>
    (map (\<lambda>f. (sf_name f, sf_group f, sf_type_id f)) (node_fields (rs_node s_dbaa9d03d52b62dc)) =
       [(''result'', True, fst ConnectionResponse_Result_header)] \<and> ConnectionResponse_getResult r = r) \<and>
    map member_names [s_83ced0145b2f114b, s_b4bf9861fe035d04, s_b5f39f082b9ac18a, s_f5f383d2785edb86, s_dbaa9d03d52b62dc,
        s_97b3c5c260257622, s_9496331ab9cd463f, s_e6646dec8feaa6ee, s_ea50d822450d1f17, s_f9cb7f4431a307d0, s_b046e578094b1ead,
        s_c5d6e311876a3604, s_e5ceae5d6897d7be] =
      [[''clientId'', ''features'', ''version'', ''arch''],
       [''client'', ''originLocalIp'', ''replaceExisting'', ''compressionQuality'', ''numPreviousAttempts''],
       [''uuid'', ''locationName'', ''tunnelIsRemotelyManaged''], [''cause'', ''retryAfter'', ''shouldRetry''], [''result''],
       [''error'', ''connectionDetails''], [''accountTag'', ''tunnelSecret''], [''auth'', ''tunnelId'', ''connIndex'', ''options''],
       [''result''], [], [], [''config''], []] \<and>
    map (\<lambda>f. (sf_name f, sf_discriminant f)) (node_fields (rs_node s_97b3c5c260257622)) =
      [(''error'', uint ERROR), (''connectionDetails'', uint CONNECTION_DETAILS)] \<and>
    node_id (rs_node s_f71695ec7fe85497) = 0xf71695ec7fe85497 \<and>
    node_methods (rs_node s_f71695ec7fe85497) =
      [(''registerConnection'', fst RegisterConnectionParams_header, fst RegisterConnectionResults_header),
       (''unregisterConnection'', fst UnregisterConnectionParams_header, fst UnregisterConnectionResults_header),
       (''updateLocalConfiguration'', fst UpdateLocalConfigurationParams_header, fst UpdateLocalConfigurationResults_header)] \<and>
    (let calls = [fst (registerConnectionRequest rt m), fst (unregisterConnectionRequest rt m), fst (updateLocalConfigurationRequest rt m)] in
     calls = map (\<lambda>k. (node_id (rs_node s_f71695ec7fe85497), of_nat k)) [0..<length (node_methods (rs_node s_f71695ec7fe85497))] \<and>
     map (\<lambda>(i, k). dispatchCall i k) calls = [RegisterConnection, UnregisterConnection, UpdateLocalConfiguration] \<and>
     map (\<lambda>(i, k). dispatchCallInternal k) calls = [RegisterConnection, UnregisterConnection, UpdateLocalConfiguration])"
  by (intro conjI) (simp_all add: accessor_defs slot_defs schema_defs node_facts node_union_97b3c5c260257622
      ConnectionResponse_Result_which_def ConnectionResponse_getResult_def ERROR_def CONNECTION_DETAILS_def all_header_defs
      member_names_def call_defs Let_def upt_conv_Cons)

text \<open>
  C27: the tables beside the nodes are right: of every schema the id and the number of words are those of its node, the
  dependencies are exactly the types the node refers to, ascending, and both tables of members list every member exactly once, in the
  order of their names, which differ, and, in a struct, of their discriminants, as the runtime's binary searches need.
\<close>

theorem schema_tables_consistent:
  "list_all tables_ok schemas"
  by (simp add: schemas_def tables_ok_def member_names_def referred_def lists_members_def schema_defs node_facts)

end
