(* ===== verification/Send_Race.thy ===== *)
theory Send_Race
  imports Register_Race
begin

text \<open>
  The router's reader thread sending a packet over a client whose connection thread closes it, as that thread does at the head of
  every attempt to reconnect. \<^verbatim>\<open>close\<close> holds \<^verbatim>\<open>close_mu_\<close>, \<^verbatim>\<open>send_packet\<close> does not. The third of the races on a client's
  handles, with \<open>Close_Race\<close> and \<open>Register_Race\<close>. With \<open>guarded\<close>, \<^verbatim>\<open>send_packet\<close> takes the mutex; without, it is as written.
\<close>

section \<open>Definitions\<close>

text \<open>
  Before the call, before the check of the members, before \<^verbatim>\<open>connection_.get()\<close>, about to call \<^verbatim>\<open>DatagramSend\<close> with what it
  returned, before the return, and returned.
\<close>

datatype send_pc = SEnter | SCheck | SRead | SCall "handle option" | SLeave | SDone

text \<open>A null handle is refused; a handle that is not open is misuse.\<close>

definition datagram_send :: "handle option \<Rightarrow> msquic \<Rightarrow> msquic" where
  "datagram_send h m =
     (case h of None \<Rightarrow> m
      | Some h \<Rightarrow> if table m \<and> (\<exists>(i, k, p) \<in> set (opened m). i = fst h \<and> k = HConnection) then m else m\<lparr>misuse := True\<rparr>)"

datatype send_party = SenderThread | CloserThread

record send_race =
  sd_client :: client
  sd_api :: msquic
  sd_holder :: "send_party option"
  sd_sender :: send_pc
  sd_close :: close_pc

definition send_init :: "client \<Rightarrow> msquic \<Rightarrow> send_race" where
  "send_init c m = \<lparr>sd_client = c, sd_api = m, sd_holder = None, sd_sender = SEnter, sd_close = KLock\<rparr>"

inductive send_step :: "bool \<Rightarrow> send_race \<Rightarrow> send_race \<Rightarrow> bool" for guarded where
  send_enter: "sd_sender s = SEnter \<Longrightarrow> (guarded \<longrightarrow> sd_holder s = None) \<Longrightarrow>
    send_step guarded s (s\<lparr>sd_sender := SCheck, sd_holder := if guarded then Some SenderThread else sd_holder s\<rparr>)"
| send_check: "sd_sender s = SCheck \<Longrightarrow>
    send_step guarded s (s\<lparr>sd_sender := (if h_connection (sd_client s) = None \<or> \<not> handshake_ok (sd_client s) then SLeave else SRead)\<rparr>)"
| send_read: "sd_sender s = SRead \<Longrightarrow> send_step guarded s (s\<lparr>sd_sender := SCall (h_connection (sd_client s))\<rparr>)"
| send_call: "sd_sender s = SCall h \<Longrightarrow> send_step guarded s (s\<lparr>sd_sender := SLeave, sd_api := datagram_send h (sd_api s)\<rparr>)"
| send_leave: "sd_sender s = SLeave \<Longrightarrow>
    send_step guarded s (s\<lparr>sd_sender := SDone, sd_holder := if guarded then None else sd_holder s\<rparr>)"
| closer_lock: "sd_close s = KLock \<Longrightarrow> sd_holder s = None \<Longrightarrow>
    send_step guarded s (s\<lparr>sd_close := KShutdown, sd_holder := Some CloserThread\<rparr>)"
| closer_call: "close_move (sd_close s, sd_client s, sd_api s) = Some (k', c, m) \<Longrightarrow>
    send_step guarded s (s\<lparr>sd_close := k', sd_client := c, sd_api := m\<rparr>)"
| closer_unlock: "sd_close s = KUnlock \<Longrightarrow> send_step guarded s (s\<lparr>sd_close := KDone, sd_holder := None\<rparr>)"

subsection \<open>Specification\<close>

fun send_inside :: "send_pc \<Rightarrow> bool" where
  "send_inside SEnter = False" | "send_inside SDone = False" | "send_inside pc = True"

definition send_inv :: "(nat \<times> handle_kind \<times> nat option) list \<Rightarrow> nat \<Rightarrow> send_race \<Rightarrow> bool" where
  "send_inv old n s \<longleftrightarrow>
     api_ok (sd_client s) (sd_api s) \<and>
     (sd_holder s = Some CloserThread \<longleftrightarrow> inside (sd_close s)) \<and>
     (sd_holder s = Some SenderThread \<longleftrightarrow> send_inside (sd_sender s)) \<and>
     (if sd_holder s = Some CloserThread then close_ok old n (sd_close s) (sd_client s) (sd_api s)
      else \<exists>j. holding old n j (sd_client s) (sd_api s)) \<and>
     (\<forall>h. sd_sender s = SCall h \<longrightarrow> h = h_connection (sd_client s))"

section \<open>Lemmas\<close>

lemma datagram_send_held: "holding old n j c m \<Longrightarrow> datagram_send (h_connection c) m = m"
  by (auto simp: datagram_send_def holding_def client_entries_def split: if_splits)

lemma send_step_inv:
  assumes "send_step True s t" "send_inv old n s" "fresh_from n old"
  shows "send_inv old n t"
  using assms(1)
proof cases
  case (send_call h)
  then have "h = h_connection (sd_client s)" "\<exists>j. holding old n j (sd_client s) (sd_api s)"
    using assms(2) by (auto simp: send_inv_def)
  then have "datagram_send h (sd_api s) = sd_api s" using datagram_send_held by blast
  then show ?thesis using assms(2) send_call by (auto simp: send_inv_def)
next
  case (closer_call k' c m)
  have k: "inside (sd_close s)" "sd_close s \<noteq> KUnlock" using close_move_inside [OF closer_call(2)] by auto
  then have h: "close_ok old n (sd_close s) (sd_client s) (sd_api s)" "api_ok (sd_client s) (sd_api s)" "sd_holder s = Some CloserThread"
    using assms(2) by (auto simp: send_inv_def)
  from close_move_ok [OF h(1,2) k assms(3)] closer_call(2) have "close_ok old n k' c m" "api_ok c m" "inside k'" by auto
  moreover have "\<not> send_inside (sd_sender s)" using assms(2) h(3) by (auto simp: send_inv_def)
  ultimately show ?thesis using assms(2) h(3) unfolding closer_call(1) by (auto simp: send_inv_def)
next
  case closer_lock
  then show ?thesis using assms(2) by (auto simp: send_inv_def)
next
  case closer_unlock
  then have "holding old n 0 (sd_client s) (sd_api s)" using assms(2) by (auto simp: send_inv_def split: if_splits)
  then show ?thesis using assms(2) closer_unlock by (auto simp: send_inv_def)
qed (use assms(2) in \<open>auto simp: send_inv_def\<close>)

lemma guarded_send_safe:
  assumes "holding old n 3 c m" "fresh_from n old" "api_ok c m" "(send_step True)\<^sup>*\<^sup>* (send_init c m) s"
  shows "\<not> misuse (sd_api s)"
proof -
  have "send_inv old n s" using assms(4)
  proof induction
    case base
    show ?case using assms(1,3) by (auto simp: send_inv_def send_init_def)
  next
    case (step t u)
    then show ?case using send_step_inv [OF _ _ assms(2)] by blast
  qed
  then show ?thesis by (simp add: send_inv_def api_ok_def)
qed

section \<open>Properties\<close>

text \<open>
  C11: as written, a reconnect can make the router's thread use a closed connection: it has read the handle, the connection
  thread closes the connection, and \<^verbatim>\<open>DatagramSend\<close> is called with the handle that is gone. Were \<^verbatim>\<open>send_packet\<close> to take the mutex
  of \<^verbatim>\<open>close\<close>, no interleaving of a send and a close would misuse a handle.
\<close>

theorem send_races_with_close:
  assumes "quic_idle c0" "msquic_ok m0" "api_held c0 \<longrightarrow> table m0" "connect_begin env c0 m0 = (None, c1, m)"
    and "connect_finish (fold on_conn_event es c1) = None"
  shows "(\<exists>s h. (send_step False)\<^sup>*\<^sup>* (send_init (fold on_conn_event es c1) m) s \<and> sd_sender s = SCall (Some h) \<and>
       fst h \<notin> fst ` set (opened (sd_api s)) \<and> \<not> misuse (sd_api s) \<and> misuse (datagram_send (Some h) (sd_api s))) \<and>
     (\<forall>s. (send_step True)\<^sup>*\<^sup>* (send_init (fold on_conn_event es c1) m) s \<longrightarrow> \<not> misuse (sd_api s))"
proof
  note conn = connected_holding(1) [OF assms(1-4), of es] connected_holding(2) [OF assms(1-4)] connected_holding(3) [OF assms(1-4), of es]
  let ?old = "opened m0" and ?n = "next_handle m0"
  define c where "c = fold on_conn_event es c1"
  have shake: "handshake_ok c" using assms(5) by (simp add: connect_finish_def c_def split: if_splits)
  let ?conn = "(Suc (Suc ?n), HConnection)"
  have hold: "holding ?old ?n 3 c m" and ok: "api_ok c m" using conn by (simp_all add: c_def)
  then have c: "h_connection c = Some ?conn" and m: "opened m = ?old @ client_entries ?n" "table m" "\<not> misuse m"
    by (auto simp: holding_def client_entries_def api_ok_def)
  let ?m1 = "m\<lparr>shut_down := shut_down m @ [Suc (Suc ?n)]\<rparr>"
  let ?m2 = "?m1\<lparr>opened := ?old @ take 2 (client_entries ?n)\<rparr>"
  let ?s0 = "send_init c m" and ?R = "send_step False"
  let ?s1 = "?s0\<lparr>sd_sender := SCheck\<rparr>" and ?s2 = "?s0\<lparr>sd_sender := SRead\<rparr>" and ?s3 = "?s0\<lparr>sd_sender := SCall (Some ?conn)\<rparr>"
  let ?s4 = "?s3\<lparr>sd_close := KShutdown, sd_holder := Some CloserThread\<rparr>"
  let ?s5 = "?s4\<lparr>sd_close := KConnection, sd_api := ?m1\<rparr>"
  let ?s6 = "?s5\<lparr>sd_close := KConfiguration, sd_client := c\<lparr>h_connection := None\<rparr>, sd_api := ?m2\<rparr>"
  have shut: "connection_shutdown (Some ?conn) m = ?m1" using m by (auto simp: connection_shutdown_def client_entries_def)
  have "holding ?old ?n 3 c ?m1" using hold by (simp add: holding_fields)
  then have reset: "reset_handle (Some ?conn) ?m1 = ?m2" using holding_reset_connection(1) [OF _ conn(2)] c by fastforce
  have 1: "?R ?s0 ?s1" using send_enter [of ?s0 False] by (simp add: send_init_def)
  have 2: "?R ?s1 ?s2" using send_check [of ?s1 False] shake c by (simp add: send_init_def)
  have 3: "?R ?s2 ?s3" using send_read [of ?s2 False] c by (simp add: send_init_def)
  have 4: "?R ?s3 ?s4" by (rule closer_lock) (simp_all add: send_init_def)
  have 5: "?R ?s4 ?s5" using closer_call [of ?s4 KConnection c ?m1 False] c shut by (simp add: send_init_def)
  have 6: "?R ?s5 ?s6" using closer_call [of ?s5 KConfiguration "c\<lparr>h_connection := None\<rparr>" ?m2 False] c reset by (simp add: send_init_def)
  have run: "?R\<^sup>*\<^sup>* ?s0 ?s6" using 1 2 3 4 5 6 by (meson converse_rtranclp_into_rtranclp rtranclp.rtrancl_refl)
  have gone: "Suc (Suc ?n) \<notin> fst ` set (opened ?m2)"
    using fresh_fromD [OF conn(2), of "Suc (Suc ?n)"] by (auto simp: client_entries_def)
  then have "misuse (datagram_send (Some ?conn) ?m2)" by (force simp: datagram_send_def)
  with run gone m show "\<exists>s h. ?R\<^sup>*\<^sup>* (send_init (fold on_conn_event es c1) m) s \<and> sd_sender s = SCall (Some h) \<and>
       fst h \<notin> fst ` set (opened (sd_api s)) \<and> \<not> misuse (sd_api s) \<and> misuse (datagram_send (Some h) (sd_api s))"
    unfolding c_def [symmetric] by (intro exI [of _ ?s6] exI [of _ ?conn]) simp
  show "\<forall>s. (send_step True)\<^sup>*\<^sup>* (send_init (fold on_conn_event es c1) m) s \<longrightarrow> \<not> misuse (sd_api s)"
    using guarded_send_safe [OF conn] by blast
qed

lemma send_races_with_close_witness:
  "\<exists>c m s. connect_begin (answering True) (client_init quic_config_init) msquic_init = (None, c, m) \<and>
     (send_step False)\<^sup>*\<^sup>* (send_init (fold on_conn_event [Connected] c) m) s \<and> (\<exists>h. sd_sender s = SCall (Some h)) \<and> \<not> misuse (sd_api s)"
proof -
  obtain c m where run: "connect_begin (answering True) (client_init quic_config_init) msquic_init = (None, c, m)"
    using example_connects by blast
  have "connect_finish (fold on_conn_event [Connected] c) = None" by (simp add: connect_finish_def)
  from send_races_with_close [OF example_idle run this] run show ?thesis by blast
qed

end
