(* ===== verification/Shutdown.thy ===== *)
theory Shutdown
  imports Prelude
begin

text \<open>
  All threads of \<^verbatim>\<open>main\<close> in \<^verbatim>\<open>src/main.cpp\<close> together: \<open>n\<close> connection threads, the registration worker, the main
  thread with its two waits and \<^verbatim>\<open>shutdown_all\<close>, the signal handler and the disconnect callbacks. A step is one
  access to the shared state; \<open>locked\<close> says whether a flag is set only while the mutex \<^verbatim>\<open>g_wakeup_mu\<close> is free,
  which the code's notifiers do not see to. A timed wait may end at any moment. How an attempt to connect or to
  register ends is left open; the work on a client between two accesses is in \<open>Conn_Thread\<close>. Any number of signals may
  come, at any time; spurious wake-ups, which the standard allows and never promises, are left out.
  Connecting and closing are steps that end; that two of them on one client can wait for each other is in \<open>Close_Race\<close>.
\<close>

section \<open>Definitions\<close>

text \<open>
  \<open>notifies\<close> counts the flags whose \<^verbatim>\<open>notify_all\<close> is still to come, \<open>signals_due\<close> the signals that will still arrive: a
  program that receives \<open>k\<close> signals in all, whenever they come, starts with \<open>k\<close>.
  A connection thread is at its loop condition, connecting, asleep, posting its registration, waiting for the
  future, looking at the result, waiting for the drop (woken and about to take the mutex and test, with
  the mutex after a test that failed, blocked, past the wait), past the loop, or has returned. The worker waits, registers the
  client of one thread, or has returned: the drain after its loop finds the queue empty here (\<open>Supervisor\<close> has it on its own).
\<close>

datatype conn_pc = CHead | CConnect | CSleep | CPost | CAwait | CResult bool
  | CTest | CDecide | CBlocked | CAfter | CEnd | CDone

datatype worker_pc = KWait | KBusy nat | KDone

datatype main_pc = MWait | MStopCheck | MCountCheck | MPump
  | MStop int | MNotify int | MClose nat int | MJoin nat int | MKjStop int | MKjJoin int | MExit int

record system =
  g_stop :: bool
  ok_count :: int
  disc_fired :: "nat \<Rightarrow> bool"
  notifies :: nat
  signals_due :: nat
  conn :: "nat \<Rightarrow> conn_pc"
  queue :: "nat list"
  queue_stop :: bool
  worker :: worker_pc
  main_at :: main_pc

definition system_init :: "nat \<Rightarrow> nat \<Rightarrow> system" where
  "system_init n k =
     \<lparr>g_stop = False, ok_count = 0, disc_fired = (\<lambda>_. False), notifies = 0, signals_due = k,
      conn = (\<lambda>i. if i < n then CHead else CDone),
      queue = [], queue_stop = False, worker = KWait, main_at = MWait\<rparr>"

definition put :: "nat \<Rightarrow> conn_pc \<Rightarrow> system \<Rightarrow> system" where
  "put i p s = s\<lparr>conn := (conn s)(i := p)\<rparr>"

text \<open>\<^verbatim>\<open>notify_all\<close> wakes the threads that are blocked, and no others.\<close>

definition woken :: "(nat \<Rightarrow> conn_pc) \<Rightarrow> nat \<Rightarrow> conn_pc" where
  "woken c = (\<lambda>i. if c i = CBlocked then CTest else c i)"

definition notify_all :: "system \<Rightarrow> system" where
  "notify_all s = s\<lparr>conn := woken (conn s)\<rparr>"

definition may_set :: "bool \<Rightarrow> system \<Rightarrow> bool" where
  "may_set locked s \<longleftrightarrow> locked \<longrightarrow> (\<forall>i. conn s i \<noteq> CDecide)"

inductive conn_move :: "nat \<Rightarrow> system \<Rightarrow> system \<Rightarrow> bool" for i where
  loop_go: "conn s i = CHead \<Longrightarrow> \<not> g_stop s \<Longrightarrow>
    conn_move i s (put i CConnect (s\<lparr>disc_fired := (disc_fired s)(i := False)\<rparr>))"
| loop_quit: "conn s i = CHead \<Longrightarrow> g_stop s \<Longrightarrow> conn_move i s (put i CEnd s)"
| connect_failed: "conn s i = CConnect \<Longrightarrow> conn_move i s (put i CSleep s)"
| connected: "conn s i = CConnect \<Longrightarrow> conn_move i s (put i CPost s)"
| slept: "conn s i = CSleep \<Longrightarrow> conn_move i s (put i CHead s)"
| post: "conn s i = CPost \<Longrightarrow> conn_move i s (put i CAwait (s\<lparr>queue := queue s @ [i]\<rparr>))"
| rejected: "conn s i = CResult False \<Longrightarrow> conn_move i s (put i CSleep s)"
| registered: "conn s i = CResult True \<Longrightarrow> conn_move i s (notify_all (put i CTest (s\<lparr>ok_count := ok_count s + 1\<rparr>)))"
| test_true: "conn s i = CTest \<Longrightarrow> \<forall>j. conn s j \<noteq> CDecide \<Longrightarrow> disc_fired s i \<or> g_stop s \<Longrightarrow> conn_move i s (put i CAfter s)"
| test_false: "conn s i = CTest \<Longrightarrow> \<forall>j. conn s j \<noteq> CDecide \<Longrightarrow> \<not> disc_fired s i \<Longrightarrow> \<not> g_stop s \<Longrightarrow>
    conn_move i s (put i CDecide s)"
| block: "conn s i = CDecide \<Longrightarrow> conn_move i s (put i CBlocked s)"
| after_wait: "conn s i = CAfter \<Longrightarrow>
    conn_move i s (put i (if disc_fired s i \<and> \<not> g_stop s then CSleep else CHead) (s\<lparr>ok_count := ok_count s - 1\<rparr>))"
| leave: "conn s i = CEnd \<Longrightarrow> conn_move i s (put i CDone s)"

inductive worker_move :: "system \<Rightarrow> system \<Rightarrow> bool" where
  take_work: "worker s = KWait \<Longrightarrow> queue s = i # q \<Longrightarrow> worker_move s (s\<lparr>queue := q, worker := KBusy i\<rparr>)"
| set_value: "worker s = KBusy i \<Longrightarrow> worker_move s (put i (CResult ok) (s\<lparr>worker := KWait\<rparr>))"
| worker_leave: "worker s = KWait \<Longrightarrow> queue s = [] \<Longrightarrow> queue_stop s \<Longrightarrow> worker_move s (s\<lparr>worker := KDone\<rparr>)"

inductive main_move :: "bool \<Rightarrow> nat \<Rightarrow> system \<Rightarrow> system \<Rightarrow> bool" for locked n where
  first_wait: "main_at s = MWait \<Longrightarrow> main_move locked n s (s\<lparr>main_at := MStopCheck\<rparr>)"
| stop_check: "main_at s = MStopCheck \<Longrightarrow> main_move locked n s (s\<lparr>main_at := (if g_stop s then MStop 1 else MCountCheck)\<rparr>)"
| count_check: "main_at s = MCountCheck \<Longrightarrow> main_move locked n s (s\<lparr>main_at := (if ok_count s = 0 then MStop 1 else MPump)\<rparr>)"
| pump_end: "main_at s = MPump \<Longrightarrow> g_stop s \<Longrightarrow> main_move locked n s (s\<lparr>main_at := MStop 0\<rparr>)"
| store_stop: "main_at s = MStop c \<Longrightarrow> may_set locked s \<Longrightarrow> main_move locked n s (s\<lparr>g_stop := True, main_at := MNotify c\<rparr>)"
| notify_stop: "main_at s = MNotify c \<Longrightarrow> main_move locked n s (notify_all (s\<lparr>main_at := MClose 0 c\<rparr>))"
| close_client: "main_at s = MClose i c \<Longrightarrow> i < n \<Longrightarrow> main_move locked n s (s\<lparr>main_at := MClose (Suc i) c\<rparr>)"
| closed_all: "main_at s = MClose i c \<Longrightarrow> \<not> i < n \<Longrightarrow> main_move locked n s (s\<lparr>main_at := MJoin 0 c\<rparr>)"
| join_conn: "main_at s = MJoin i c \<Longrightarrow> i < n \<Longrightarrow> conn s i = CDone \<Longrightarrow> main_move locked n s (s\<lparr>main_at := MJoin (Suc i) c\<rparr>)"
| joined_all: "main_at s = MJoin i c \<Longrightarrow> \<not> i < n \<Longrightarrow> main_move locked n s (s\<lparr>main_at := MKjStop c\<rparr>)"
| stop_worker: "main_at s = MKjStop c \<Longrightarrow> main_move locked n s (s\<lparr>queue_stop := True, main_at := MKjJoin c\<rparr>)"
| join_worker: "main_at s = MKjJoin c \<Longrightarrow> worker s = KDone \<Longrightarrow> main_move locked n s (s\<lparr>main_at := MExit c\<rparr>)"

text \<open>What \<^verbatim>\<open>install_signals\<close> makes of the dispositions of the signals.\<close>

datatype disposition = SigDefault | SigIgnored | OnSignal

definition SIGINT :: nat where "SIGINT = 2"
definition SIGPIPE :: nat where "SIGPIPE = 13"
definition SIGTERM :: nat where "SIGTERM = 15"

definition install_signals :: "(nat \<Rightarrow> disposition) \<Rightarrow> nat \<Rightarrow> disposition" where
  "install_signals d = d(SIGINT := OnSignal, SIGTERM := OnSignal, SIGPIPE := SigIgnored)"

text \<open>
  The signal handler, which stores the flag and notifies at every signal, a disconnect callback (at most one for each
  attempt to connect, while the client is open and the handler set), and the notification that follows either.
\<close>

inductive outside_move :: "bool \<Rightarrow> nat \<Rightarrow> system \<Rightarrow> system \<Rightarrow> bool" for locked n where
  signal: "signals_due s = Suc k \<Longrightarrow> may_set locked s \<Longrightarrow>
    outside_move locked n s (s\<lparr>g_stop := True, notifies := Suc (notifies s), signals_due := k\<rparr>)"
| disconnect: "i < n \<Longrightarrow> conn s i \<noteq> CDone \<Longrightarrow> \<not> disc_fired s i \<Longrightarrow> may_set locked s \<Longrightarrow>
    outside_move locked n s (s\<lparr>disc_fired := (disc_fired s)(i := True), notifies := Suc (notifies s)\<rparr>)"
| notify_flag: "notifies s = Suc k \<Longrightarrow> outside_move locked n s (notify_all (s\<lparr>notifies := k\<rparr>))"

definition system_step :: "bool \<Rightarrow> nat \<Rightarrow> system \<Rightarrow> system \<Rightarrow> bool" where
  "system_step locked n s t \<longleftrightarrow> (\<exists>i. conn_move i s t) \<or> worker_move s t \<or> main_move locked n s t \<or> outside_move locked n s t"

inductive system_reachable :: "bool \<Rightarrow> nat \<Rightarrow> system \<Rightarrow> bool" for locked n where
  system_start: "system_reachable locked n (system_init n k)"
| system_next: "system_reachable locked n s \<Longrightarrow> system_step locked n s t \<Longrightarrow> system_reachable locked n t"

subsection \<open>Specification\<close>

definition healthy :: "conn_pc \<Rightarrow> bool" where
  "healthy p \<longleftrightarrow> p \<in> {CTest, CDecide, CBlocked, CAfter}"

definition healthy_threads :: "nat \<Rightarrow> (nat \<Rightarrow> conn_pc) \<Rightarrow> int" where
  "healthy_threads n c = (\<Sum>i<n. if healthy (c i) then 1 else 0)"

definition awaiting :: "(nat \<Rightarrow> conn_pc) \<Rightarrow> nat set" where
  "awaiting c = {i. c i = CAwait}"

fun in_work :: "worker_pc \<Rightarrow> nat list" where
  "in_work (KBusy i) = [i]"
| "in_work KWait = []"
| "in_work KDone = []"

text \<open>Whether the main thread has stored the flag, how many threads it has joined, and its exit code.\<close>

fun stored :: "main_pc \<Rightarrow> bool" where
  "stored (MNotify c) = True"
| "stored (MClose i c) = True"
| "stored (MJoin i c) = True"
| "stored (MKjStop c) = True"
| "stored (MKjJoin c) = True"
| "stored (MExit c) = True"
| "stored p = False"

fun joined :: "nat \<Rightarrow> main_pc \<Rightarrow> nat" where
  "joined n (MJoin i c) = i"
| "joined n (MKjStop c) = n"
| "joined n (MKjJoin c) = n"
| "joined n (MExit c) = n"
| "joined n p = 0"

fun code_ok :: "main_pc \<Rightarrow> bool" where
  "code_ok (MStop c) \<longleftrightarrow> c \<in> {0, 1}"
| "code_ok (MNotify c) \<longleftrightarrow> c \<in> {0, 1}"
| "code_ok (MClose i c) \<longleftrightarrow> c \<in> {0, 1}"
| "code_ok (MJoin i c) \<longleftrightarrow> c \<in> {0, 1}"
| "code_ok (MKjStop c) \<longleftrightarrow> c \<in> {0, 1}"
| "code_ok (MKjJoin c) \<longleftrightarrow> c \<in> {0, 1}"
| "code_ok (MExit c) \<longleftrightarrow> c \<in> {0, 1}"
| "code_ok p \<longleftrightarrow> True"

definition queue_inv :: "system \<Rightarrow> bool" where
  "queue_inv s \<longleftrightarrow> distinct (in_work (worker s) @ queue s) \<and> awaiting (conn s) = set (in_work (worker s) @ queue s) \<and>
     (worker s = KDone \<longrightarrow> queue s = [] \<and> queue_stop s)"

definition count_inv :: "nat \<Rightarrow> system \<Rightarrow> bool" where
  "count_inv n s \<longleftrightarrow> ok_count s = healthy_threads n (conn s)"

definition main_inv :: "nat \<Rightarrow> system \<Rightarrow> bool" where
  "main_inv n s \<longleftrightarrow> (stored (main_at s) \<longrightarrow> g_stop s) \<and> code_ok (main_at s) \<and> joined n (main_at s) \<le> n \<and>
     (\<forall>j. j < joined n (main_at s) \<or> n \<le> j \<longrightarrow> conn s j = CDone) \<and>
     (queue_stop s \<longleftrightarrow> (\<exists>c. main_at s = MKjJoin c \<or> main_at s = MExit c)) \<and>
     (\<forall>c. main_at s = MExit c \<longrightarrow> worker s = KDone)"

definition system_inv :: "nat \<Rightarrow> system \<Rightarrow> bool" where
  "system_inv n s \<longleftrightarrow> main_inv n s \<and> queue_inv s \<and> count_inv n s"

text \<open>Blocked threads have no reason to go on, unless a notification is still due.\<close>

definition wake_inv :: "system \<Rightarrow> bool" where
  "wake_inv s \<longleftrightarrow>
     (\<forall>i. conn s i = CDecide \<longrightarrow> \<not> g_stop s \<and> \<not> disc_fired s i) \<and>
     (\<forall>i j. conn s i = CDecide \<and> conn s j = CDecide \<longrightarrow> i = j) \<and>
     (\<forall>i. conn s i = CBlocked \<and> (g_stop s \<or> disc_fired s i) \<longrightarrow> 0 < notifies s \<or> (\<exists>c. main_at s = MNotify c))"

text \<open>How far the system still is from its end, once the flag is set.\<close>

fun conn_weight :: "conn_pc \<Rightarrow> nat" where
  "conn_weight CDone = 0"
| "conn_weight CEnd = 1"
| "conn_weight CHead = 2"
| "conn_weight CSleep = 3"
| "conn_weight CAfter = 3"
| "conn_weight CTest = 4"
| "conn_weight CBlocked = 5"
| "conn_weight CDecide = 6"
| "conn_weight (CResult ok) = 5"
| "conn_weight CAwait = 6"
| "conn_weight CPost = 9"
| "conn_weight CConnect = 10"

fun worker_weight :: "worker_pc \<Rightarrow> nat" where
  "worker_weight KDone = 0"
| "worker_weight KWait = 1"
| "worker_weight (KBusy i) = 2"

fun main_weight :: "nat \<Rightarrow> main_pc \<Rightarrow> nat" where
  "main_weight n (MExit c) = 0"
| "main_weight n (MKjJoin c) = 1"
| "main_weight n (MKjStop c) = 2"
| "main_weight n (MJoin i c) = 3 + (n - i)"
| "main_weight n (MClose i c) = 4 + n + (n - i)"
| "main_weight n (MNotify c) = 5 + n + n"
| "main_weight n (MStop c) = 6 + n + n"
| "main_weight n MPump = 7 + n + n"
| "main_weight n MCountCheck = 8 + n + n"
| "main_weight n MStopCheck = 9 + n + n"
| "main_weight n MWait = 10 + n + n"

definition conn_sum :: "nat \<Rightarrow> (nat \<Rightarrow> conn_pc) \<Rightarrow> nat" where
  "conn_sum n c = (\<Sum>i<n. conn_weight (c i))"

definition quiet :: "nat \<Rightarrow> (nat \<Rightarrow> bool) \<Rightarrow> nat" where
  "quiet n d = (\<Sum>i<n. if d i then 0 else 1)"

definition steps_to_exit :: "nat \<Rightarrow> system \<Rightarrow> nat" where
  "steps_to_exit n s = conn_sum n (conn s) + 2 * length (queue s) + worker_weight (worker s) +
     main_weight n (main_at s) + notifies s + 2 * quiet n (disc_fired s) + 2 * signals_due s"

text \<open>A step of the threads or a notification that is due; a signal or a callback raises \<open>notifies\<close>.\<close>

definition steps_alone :: "bool \<Rightarrow> nat \<Rightarrow> system \<Rightarrow> bool" where
  "steps_alone locked n s \<longleftrightarrow> (\<exists>t. system_step locked n s t \<and> notifies t \<le> notifies s)"

text \<open>
  Thread 0 at \<open>p\<close> after its test, its connection dropped and the stop flag set behind it, the notifications gone and \<open>l\<close> signals
  still to come; threads 1 to \<open>k\<close> have returned, the others have not begun.
\<close>

definition hanging :: "nat \<Rightarrow> nat \<Rightarrow> nat \<Rightarrow> conn_pc \<Rightarrow> main_pc \<Rightarrow> system" where
  "hanging n l k p m =
     \<lparr>g_stop = True, ok_count = 1, disc_fired = (\<lambda>i. i = 0), notifies = 0, signals_due = l,
      conn = (\<lambda>i. if i = 0 then p else if i \<le> k \<or> n \<le> i then CDone else CHead),
      queue = [], queue_stop = False, worker = KWait, main_at = m\<rparr>"

section \<open>Lemmas\<close>

inductive_cases conn_moveE: "conn_move i s t"
inductive_cases worker_moveE: "worker_move s t"
inductive_cases main_moveE: "main_move locked n s t"
inductive_cases outside_moveE: "outside_move locked n s t"

lemma put_fields [simp]:
  "conn (put i p s) = (conn s)(i := p)" "g_stop (put i p s) = g_stop s" "ok_count (put i p s) = ok_count s"
  "disc_fired (put i p s) = disc_fired s" "notifies (put i p s) = notifies s" "signals_due (put i p s) = signals_due s" "queue (put i p s) = queue s"
  "queue_stop (put i p s) = queue_stop s" "worker (put i p s) = worker s" "main_at (put i p s) = main_at s"
  by (simp_all add: put_def)

lemma woken_simps [simp]:
  "woken c i = CBlocked \<longleftrightarrow> False" "woken c i = CDone \<longleftrightarrow> c i = CDone" "woken c i = CDecide \<longleftrightarrow> c i = CDecide"
  "awaiting (woken c) = awaiting c"
  by (auto simp: woken_def awaiting_def)

lemma awaiting_update [simp]: "awaiting (c(i := p)) = (if p = CAwait then insert i (awaiting c) else awaiting c - {i})"
  by (auto simp: awaiting_def)

lemma awaiting_iff [simp]: "i \<in> awaiting c \<longleftrightarrow> c i = CAwait"
  by (simp add: awaiting_def)

lemma notify_fields [simp]:
  "conn (notify_all s) = woken (conn s)"
  "g_stop (notify_all s) = g_stop s" "ok_count (notify_all s) = ok_count s"
  "disc_fired (notify_all s) = disc_fired s" "notifies (notify_all s) = notifies s" "signals_due (notify_all s) = signals_due s" "queue (notify_all s) = queue s"
  "queue_stop (notify_all s) = queue_stop s" "worker (notify_all s) = worker s" "main_at (notify_all s) = main_at s"
  by (simp_all add: notify_all_def)

lemma sum_update:
  fixes f :: "'a \<Rightarrow> 'b :: comm_monoid_add" and c :: "nat \<Rightarrow> 'a"
  assumes "i < n"
  shows "(\<Sum>j<n. f ((c(i := x)) j)) + f (c i) = (\<Sum>j<n. f (c j)) + f x"
proof -
  have i: "finite {..<n}" "i \<in> {..<n}" using assms by auto
  have "(\<Sum>j\<in>{..<n} - {i}. f ((c(i := x)) j)) = (\<Sum>j\<in>{..<n} - {i}. f (c j))" by (rule sum.cong) auto
  then show ?thesis
    using sum.remove [OF i, of "\<lambda>j. f ((c(i := x)) j)"] sum.remove [OF i, of "\<lambda>j. f (c j)"] by (simp add: add_ac)
qed

lemma healthy_update:
  "i < n \<Longrightarrow> healthy_threads n (c(i := p)) = healthy_threads n c + (if healthy p then 1 else 0) - (if healthy (c i) then 1 else 0)"
  using sum_update [of i n "\<lambda>p. if healthy p then 1 else (0 :: int)" c p]
  by (simp add: healthy_threads_def)

lemma healthy_woken [simp]: "healthy_threads n (woken c) = healthy_threads n c"
  unfolding healthy_threads_def by (rule sum.cong) (auto simp: healthy_def woken_def)

subsection \<open>Invariants\<close>

lemma conn_move_frame:
  "conn_move i s t \<Longrightarrow> conn s i \<noteq> CDone \<and> main_at t = main_at s \<and> worker t = worker s \<and> queue_stop t = queue_stop s \<and>
     g_stop t = g_stop s \<and> notifies t = notifies s \<and> signals_due t = signals_due s \<and> (\<forall>j. conn s j = CDone \<longrightarrow> conn t j = CDone)"
  by (erule conn_moveE) auto

lemma main_done: "main_inv n s \<Longrightarrow> j < joined n (main_at s) \<or> n \<le> j \<Longrightarrow> conn s j = CDone"
  unfolding main_inv_def by blast

lemma main_inv_conn: "conn_move i s t \<Longrightarrow> main_inv n s \<Longrightarrow> main_inv n t"
  using conn_move_frame [of i s t] unfolding main_inv_def by metis

lemma main_inv_worker: "worker_move s t \<Longrightarrow> queue_inv s \<Longrightarrow> main_inv n s \<Longrightarrow> main_inv n t"
proof (erule worker_moveE)
  fix i ok assume w: "worker s = KBusy i" and t: "t = put i (CResult ok) (s\<lparr>worker := KWait\<rparr>)" and inv: "queue_inv s" "main_inv n s"
  then have "i \<in> awaiting (conn s)" by (simp add: queue_inv_def del: awaiting_iff)
  then have "\<not> (i < joined n (main_at s) \<or> n \<le> i)" using inv(2) by (auto simp: main_inv_def)
  then show "main_inv n t" using inv(2) w by (auto simp: main_inv_def t)
qed (auto simp: main_inv_def)

lemma main_inv_main: "main_move locked n s t \<Longrightarrow> main_inv n s \<Longrightarrow> main_inv n t"
  by (erule main_moveE) (auto simp: main_inv_def less_Suc_eq)

lemma main_inv_outside: "outside_move locked n s t \<Longrightarrow> main_inv n s \<Longrightarrow> main_inv n t"
  by (erule outside_moveE) (auto simp: main_inv_def)

text \<open>A thread that moves is not past its loop, so the worker is still there.\<close>

lemma conn_move_queue:
  "conn_move i s t \<Longrightarrow> conn s i \<noteq> CAwait \<and>
     (awaiting (conn t) = awaiting (conn s) \<and> queue t = queue s \<or>
      awaiting (conn t) = insert i (awaiting (conn s)) \<and> queue t = queue s @ [i])"
  by (erule conn_moveE) (auto simp: awaiting_def woken_def)

lemma queue_inv_conn:
  assumes m: "conn_move i s t" and inv: "queue_inv s" and w: "worker s \<noteq> KDone"
  shows "queue_inv t"
proof -
  have "i \<notin> awaiting (conn s)" using conn_move_queue [OF m] by simp
  then have i: "i \<notin> set (in_work (worker s) @ queue s)" using inv by (simp add: queue_inv_def del: awaiting_iff)
  have t: "worker t = worker s" "queue_stop t = queue_stop s" using conn_move_frame [OF m] by auto
  from conn_move_queue [OF m] consider "awaiting (conn t) = awaiting (conn s)" "queue t = queue s"
    | "awaiting (conn t) = insert i (awaiting (conn s))" "queue t = queue s @ [i]" by blast
  then show ?thesis using inv i w t by cases (simp_all add: queue_inv_def del: awaiting_iff)
qed

lemma queue_inv_worker: "worker_move s t \<Longrightarrow> queue_inv s \<Longrightarrow> queue_inv t"
  by (erule worker_moveE) (auto simp: queue_inv_def)

lemma queue_inv_main: "main_move locked n s t \<Longrightarrow> queue_inv s \<Longrightarrow> queue_inv t"
  by (erule main_moveE) (auto simp: queue_inv_def)

lemma queue_inv_outside: "outside_move locked n s t \<Longrightarrow> queue_inv s \<Longrightarrow> queue_inv t"
  by (erule outside_moveE) (auto simp: queue_inv_def)

lemma count_inv_conn: "conn_move i s t \<Longrightarrow> i < n \<Longrightarrow> count_inv n s \<Longrightarrow> count_inv n t"
  by (erule conn_moveE) (auto simp: count_inv_def healthy_update healthy_def)

lemma count_inv_worker: "worker_move s t \<Longrightarrow> queue_inv s \<Longrightarrow> main_inv n s \<Longrightarrow> count_inv n s \<Longrightarrow> count_inv n t"
proof (erule worker_moveE)
  fix i ok assume w: "worker s = KBusy i" and t: "t = put i (CResult ok) (s\<lparr>worker := KWait\<rparr>)"
    and inv: "queue_inv s" "main_inv n s" "count_inv n s"
  then have "i \<in> awaiting (conn s)" by (simp add: queue_inv_def del: awaiting_iff)
  moreover from this have "i < n" using main_done [OF inv(2), of i] by (cases "n \<le> i") simp_all
  ultimately show "count_inv n t" using inv(3) by (simp add: count_inv_def t healthy_update healthy_def)
qed (auto simp: count_inv_def)

lemma count_inv_main: "main_move locked n s t \<Longrightarrow> count_inv n s \<Longrightarrow> count_inv n t"
  by (erule main_moveE) (auto simp: count_inv_def)

lemma count_inv_outside: "outside_move locked n s t \<Longrightarrow> count_inv n s \<Longrightarrow> count_inv n t"
  by (erule outside_moveE) (auto simp: count_inv_def)

lemma worker_there:
  assumes inv: "system_inv n s" and i: "conn s i \<noteq> CDone"
  shows "worker s \<noteq> KDone \<and> i < n"
proof -
  have m: "main_inv n s" and q: "worker s = KDone \<longrightarrow> queue_stop s"
    using inv by (simp_all add: system_inv_def queue_inv_def)
  have "i < n" using main_done [OF m, of i] i by (cases "n \<le> i") simp_all
  moreover have "\<not> queue_stop s"
  proof
    assume "queue_stop s"
    then have "joined n (main_at s) = n" using m by (auto simp: main_inv_def)
    then show False using main_done [OF m, of i] i \<open>i < n\<close> by simp
  qed
  ultimately show ?thesis using q by blast
qed

lemma system_step_inv: "system_step locked n s t \<Longrightarrow> system_inv n s \<Longrightarrow> system_inv n t"
  unfolding system_step_def
proof (elim disjE exE)
  fix i assume m: "conn_move i s t" and inv: "system_inv n s"
  note w = worker_there [OF inv conjunct1 [OF conn_move_frame [OF m]]]
  show "system_inv n t" using inv w main_inv_conn [OF m] queue_inv_conn [OF m] count_inv_conn [OF m]
    by (simp add: system_inv_def)
qed (auto simp: system_inv_def intro: main_inv_worker main_inv_main main_inv_outside queue_inv_worker queue_inv_main
    queue_inv_outside count_inv_worker count_inv_main count_inv_outside)

lemma system_reachable_inv: "system_reachable locked n s \<Longrightarrow> system_inv n s"
proof (induction rule: system_reachable.induct)
  case system_start
  show ?case
    by (auto simp: system_inv_def main_inv_def queue_inv_def count_inv_def system_init_def awaiting_def healthy_threads_def healthy_def)
qed (rule system_step_inv)

subsection \<open>Wake-ups\<close>

lemma wake_inv_conn: "conn_move i s t \<Longrightarrow> wake_inv s \<Longrightarrow> wake_inv t"
  by (erule conn_moveE) (auto simp: wake_inv_def)

lemma wake_inv_worker: "worker_move s t \<Longrightarrow> wake_inv s \<Longrightarrow> wake_inv t"
  by (erule worker_moveE) (auto simp: wake_inv_def)

lemma wake_inv_main: "main_move True n s t \<Longrightarrow> wake_inv s \<Longrightarrow> wake_inv t"
  by (erule main_moveE) (auto simp: wake_inv_def may_set_def)

lemma wake_inv_outside: "outside_move True n s t \<Longrightarrow> wake_inv s \<Longrightarrow> wake_inv t"
  by (erule outside_moveE) (auto simp: wake_inv_def may_set_def)

lemma system_reachable_wake: "system_reachable True n s \<Longrightarrow> wake_inv s"
proof (induction rule: system_reachable.induct)
  case system_start
  show ?case by (auto simp: wake_inv_def system_init_def)
next
  case (system_next s t)
  then show ?case unfolding system_step_def
    using wake_inv_conn wake_inv_worker wake_inv_main wake_inv_outside by blast
qed

subsection \<open>Termination\<close>

lemma conn_sum_update: "i < n \<Longrightarrow> conn_sum n (c(i := p)) + conn_weight (c i) = conn_sum n c + conn_weight p"
  using sum_update [of i n conn_weight c p] by (simp add: conn_sum_def)

lemma conn_sum_woken: "conn_sum n (woken c) \<le> conn_sum n c"
  unfolding conn_sum_def by (rule sum_mono) (simp add: woken_def)

lemma quiet_update: "i < n \<Longrightarrow> \<not> d i \<Longrightarrow> quiet n (d(i := True)) + 1 = quiet n d"
  using sum_update [of i n "\<lambda>b. if b then 0 else (1 :: nat)" d True] by (simp add: quiet_def)

lemma conn_move_weight:
  assumes m: "conn_move i s t" and g: "g_stop s" and i: "i < n"
  shows "conn_sum n (conn t) + 2 * length (queue t) < conn_sum n (conn s) + 2 * length (queue s)"
  using m
proof (rule conn_moveE)
  assume "t = notify_all (put i CTest (s\<lparr>ok_count := ok_count s + 1\<rparr>))" "conn s i = CResult True"
  then show ?thesis
    using conn_sum_update [OF i, of "conn s" CTest] conn_sum_woken [of n "(conn s)(i := CTest)"] by simp
next
  assume "conn s i = CAfter"
    "t = put i (if disc_fired s i \<and> \<not> g_stop s then CSleep else CHead) (s\<lparr>ok_count := ok_count s - 1\<rparr>)"
  then show ?thesis using g conn_sum_update [OF i, of "conn s" CHead] by simp
qed (use g conn_sum_update [OF i, of "conn s" CEnd] conn_sum_update [OF i, of "conn s" CSleep]
      conn_sum_update [OF i, of "conn s" CPost] conn_sum_update [OF i, of "conn s" CHead]
      conn_sum_update [OF i, of "conn s" CAwait] conn_sum_update [OF i, of "conn s" CAfter]
      conn_sum_update [OF i, of "conn s" CBlocked] conn_sum_update [OF i, of "conn s" CDone] in \<open>simp_all\<close>)

lemma conn_move_disc: "conn_move i s t \<Longrightarrow> g_stop s \<Longrightarrow> disc_fired t = disc_fired s"
  by (erule conn_moveE) auto

lemma steps_conn: "conn_move i s t \<Longrightarrow> g_stop s \<Longrightarrow> system_inv n s \<Longrightarrow> steps_to_exit n t < steps_to_exit n s"
  using conn_move_weight [of i s t n] conn_move_disc [of i s t] conn_move_frame [of i s t] worker_there [of n s i]
  by (simp add: steps_to_exit_def)

lemma steps_worker: "worker_move s t \<Longrightarrow> system_inv n s \<Longrightarrow> steps_to_exit n t < steps_to_exit n s"
proof (erule worker_moveE)
  fix i ok assume w: "worker s = KBusy i" and t: "t = put i (CResult ok) (s\<lparr>worker := KWait\<rparr>)" and inv: "system_inv n s"
  then have i: "conn s i = CAwait" by (auto simp: system_inv_def queue_inv_def dest: equalityD2)
  then have "i < n" using worker_there [OF inv, of i] by simp
  from conn_sum_update [OF this, of "conn s" "CResult ok"] show "steps_to_exit n t < steps_to_exit n s"
    using w i by (simp add: steps_to_exit_def t)
qed (auto simp: steps_to_exit_def)

lemma steps_main: "main_move locked n s t \<Longrightarrow> steps_to_exit n t < steps_to_exit n s"
  by (erule main_moveE)
    (use conn_sum_woken [of n "conn s"] in \<open>auto simp: steps_to_exit_def\<close>)

lemma steps_outside: "outside_move locked n s t \<Longrightarrow> g_stop s \<Longrightarrow> steps_to_exit n t < steps_to_exit n s"
proof (erule outside_moveE)
  fix i assume "i < n" "\<not> disc_fired s i" "t = s\<lparr>disc_fired := (disc_fired s)(i := True), notifies := Suc (notifies s)\<rparr>"
  then show "steps_to_exit n t < steps_to_exit n s" using quiet_update [of i n "disc_fired s"]
    by (simp add: steps_to_exit_def)
qed (use conn_sum_woken [of n "conn s"] in \<open>auto simp: steps_to_exit_def\<close>)

lemma system_step_weight:
  assumes "system_step locked n s t" "g_stop s" "system_inv n s"
  shows "steps_to_exit n t < steps_to_exit n s"
  using assms unfolding system_step_def
  by (blast intro: steps_conn steps_worker steps_main steps_outside)

lemma system_step_stop: "system_step locked n s t \<Longrightarrow> g_stop s \<Longrightarrow> g_stop t"
  unfolding system_step_def
  by (auto dest: conn_move_frame elim!: worker_moveE main_moveE outside_moveE)

subsection \<open>Progress\<close>

lemma progress_conn: "conn_move i s t \<Longrightarrow> steps_alone locked n s"
  using conn_move_frame [of i s t] unfolding steps_alone_def system_step_def by force

lemma progress_worker: "worker_move s t \<Longrightarrow> steps_alone locked n s"
  unfolding steps_alone_def system_step_def by (rule exI [of _ t]) (auto elim: worker_moveE)

lemma progress_main: "main_move locked n s t \<Longrightarrow> steps_alone locked n s"
  unfolding steps_alone_def system_step_def by (rule exI [of _ t]) (auto elim: main_moveE)

lemma progress_notify: "notifies s = Suc k \<Longrightarrow> steps_alone locked n s"
  unfolding steps_alone_def system_step_def using notify_flag [of s k locked n] by force

text \<open>With the flag set and no thread that holds the mutex, every thread that has not returned can be helped on.\<close>

lemma conn_progress:
  assumes inv: "system_inv n s" and wake: "wake_inv s" and g: "g_stop s" and i: "conn s i \<noteq> CDone"
    and m: "\<forall>c. main_at s \<noteq> MNotify c"
  shows "steps_alone locked n s"
proof (cases "conn s i")
  case CAwait
  then have "i \<in> awaiting (conn s)" by simp
  then have q: "i \<in> set (in_work (worker s) @ queue s)" using inv
    by (simp add: system_inv_def queue_inv_def del: awaiting_iff)
  show ?thesis
  proof (cases "worker s")
    case KWait
    with q obtain j q' where "queue s = j # q'" by (cases "queue s") auto
    with KWait show ?thesis by (rule progress_worker [OF take_work])
  next
    case (KBusy j)
    then show ?thesis by (rule progress_worker [OF set_value])
  next
    case KDone
    then show ?thesis using worker_there [OF inv i] by simp
  qed
next
  case CBlocked
  then obtain k where "notifies s = Suc k" using wake g m by (cases "notifies s") (auto simp: wake_inv_def)
  then show ?thesis by (rule progress_notify)
next
  case CTest
  moreover have "\<forall>j. conn s j \<noteq> CDecide" using wake g by (auto simp: wake_inv_def)
  ultimately show ?thesis using g by (blast intro: progress_conn test_true)
next
  case (CResult ok)
  then show ?thesis by (cases ok) (auto intro: progress_conn rejected registered)
qed (use i g in \<open>auto intro: progress_conn loop_quit connected slept post block after_wait leave\<close>)

lemma system_progress:
  assumes inv: "system_inv n s" and wake: "wake_inv s" and g: "g_stop s" and e: "\<forall>c. main_at s \<noteq> MExit c"
  shows "steps_alone True n s"
proof (cases "main_at s")
  case (MStop c)
  moreover have "may_set True s" using wake g by (auto simp: wake_inv_def may_set_def)
  ultimately show ?thesis by (rule progress_main [OF store_stop])
next
  case (MClose i c)
  then show ?thesis by (cases "i < n") (auto intro: progress_main close_client closed_all)
next
  case (MJoin i c)
  then have m: "\<forall>c. main_at s \<noteq> MNotify c" by simp
  show ?thesis
  proof (cases "i < n \<and> conn s i \<noteq> CDone")
    case True
    then show ?thesis using conn_progress [OF inv wake g _ m] by blast
  qed (use MJoin in \<open>auto intro: progress_main join_conn joined_all\<close>)
next
  case (MKjJoin c)
  have q: "queue_stop s" "awaiting (conn s) = set (in_work (worker s) @ queue s)" and d: "\<forall>j. conn s j = CDone"
    using inv MKjJoin by (auto simp: system_inv_def main_inv_def queue_inv_def not_less)
  then have "in_work (worker s) @ queue s = []" by (simp add: awaiting_def)
  then show ?thesis using MKjJoin q(1)
    by (cases "worker s") (auto intro: progress_main join_worker progress_worker worker_leave)
qed (use g e in \<open>auto intro: progress_main first_wait stop_check count_check pump_end notify_stop stop_worker\<close>)

lemma all_done_count: "\<forall>j. c j = CDone \<Longrightarrow> healthy_threads n c = 0"
  by (simp add: healthy_threads_def healthy_def)

lemma exited_done: "system_inv n s \<Longrightarrow> main_at s = MExit c \<Longrightarrow> \<forall>j. conn s j = CDone"
  by (auto simp: system_inv_def main_inv_def not_less)

subsection \<open>A lost wake-up\<close>

lemma reach_conn: "system_reachable locked n s \<Longrightarrow> conn_move i s u \<Longrightarrow> u = t \<Longrightarrow> system_reachable locked n t"
  using system_next [of locked n s t] unfolding system_step_def by blast

lemma reach_worker: "system_reachable locked n s \<Longrightarrow> worker_move s u \<Longrightarrow> u = t \<Longrightarrow> system_reachable locked n t"
  using system_next [of locked n s t] unfolding system_step_def by blast

lemma reach_main: "system_reachable locked n s \<Longrightarrow> main_move locked n s u \<Longrightarrow> u = t \<Longrightarrow> system_reachable locked n t"
  using system_next [of locked n s t] unfolding system_step_def by blast

lemma reach_outside: "system_reachable locked n s \<Longrightarrow> outside_move locked n s u \<Longrightarrow> u = t \<Longrightarrow> system_reachable locked n t"
  using system_next [of locked n s t] unfolding system_step_def by blast

lemmas reach_facts = put_def notify_all_def woken_def may_set_def fun_eq_iff

text \<open>Thread 0 registers and tests the condition of its wait, which does not hold.\<close>

lemma reach_decide:
  assumes "0 < n"
  shows "system_reachable locked n
    ((hanging n l 0 CDecide MWait)\<lparr>g_stop := False, disc_fired := (\<lambda>_. False)\<rparr>)"
proof -
  let ?h = "\<lambda>p q. (hanging n l 0 p MWait)\<lparr>g_stop := False, disc_fired := (\<lambda>_. False), ok_count := 0, queue := q\<rparr>"
  have "system_init n l = ?h CHead []" using assms by (auto simp: system_init_def hanging_def fun_eq_iff)
  then have "system_reachable locked n (?h CHead [])" using system_start [of locked n l] by simp
  then have "system_reachable locked n (?h CConnect [])"
    by (rule reach_conn) (rule loop_go [of _ 0], auto simp: hanging_def reach_facts)
  then have "system_reachable locked n (?h CPost [])"
    by (rule reach_conn) (rule connected [of _ 0], auto simp: hanging_def reach_facts)
  then have "system_reachable locked n (?h CAwait [0])"
    by (rule reach_conn) (rule post [of _ 0], auto simp: hanging_def reach_facts)
  then have "system_reachable locked n ((?h CAwait [])\<lparr>worker := KBusy 0\<rparr>)"
    by (rule reach_worker) (rule take_work, auto simp: hanging_def reach_facts)
  then have "system_reachable locked n (?h (CResult True) [])"
    by (rule reach_worker) (rule set_value [of _ 0 True], auto simp: hanging_def reach_facts)
  then have "system_reachable locked n ((?h CTest [])\<lparr>ok_count := 1\<rparr>)"
    by (rule reach_conn) (rule registered [of _ 0], auto simp: hanging_def reach_facts)
  then show ?thesis
    by (rule reach_conn) (rule test_false [of _ 0], auto simp: hanging_def reach_facts)
qed

text \<open>The connection drops and the signal comes, and both notifications, before the thread has gone to sleep.\<close>

lemma reach_dropped:
  assumes "0 < n"
  shows "system_reachable False n (hanging n l 0 CDecide (MClose 0 0))"
proof -
  let ?h = "\<lambda>m k. (hanging n (Suc l) 0 CDecide m)\<lparr>g_stop := False, disc_fired := (\<lambda>_. False), notifies := k\<rparr>"
  let ?d = "\<lambda>m k. (hanging n (Suc l) 0 CDecide m)\<lparr>g_stop := False, notifies := k\<rparr>"
  let ?g = "\<lambda>m k. (hanging n l 0 CDecide m)\<lparr>notifies := k\<rparr>"
  have "system_reachable False n (?h MWait 0)"
    using reach_decide [OF assms, of False "Suc l"] by (simp add: hanging_def)
  then have "system_reachable False n (?h MStopCheck 0)"
    by (rule reach_main) (rule first_wait, auto simp: hanging_def reach_facts)
  then have "system_reachable False n (?h MCountCheck 0)"
    by (rule reach_main) (rule stop_check, auto simp: hanging_def reach_facts)
  then have "system_reachable False n (?h MPump 0)"
    by (rule reach_main) (rule count_check, auto simp: hanging_def reach_facts)
  then have "system_reachable False n (?d MPump 1)"
    by (rule reach_outside) (rule disconnect [of 0], use assms in \<open>auto simp: hanging_def reach_facts\<close>)
  then have "system_reachable False n (?g MPump 2)"
    by (rule reach_outside) (rule signal [of _ l], auto simp: hanging_def reach_facts)
  then have "system_reachable False n (?g MPump 1)"
    by (rule reach_outside) (rule notify_flag, auto simp: hanging_def reach_facts)
  then have "system_reachable False n (?g MPump 0)"
    by (rule reach_outside) (rule notify_flag, auto simp: hanging_def reach_facts)
  then have "system_reachable False n (?g (MStop 0) 0)"
    by (rule reach_main) (rule pump_end, auto simp: hanging_def reach_facts)
  then have "system_reachable False n (?g (MNotify 0) 0)"
    by (rule reach_main) (rule store_stop, auto simp: hanging_def reach_facts)
  then show ?thesis
    by (rule reach_main) (rule notify_stop, auto simp: hanging_def reach_facts)
qed

lemma reach_left: "0 < n \<Longrightarrow> k < n \<Longrightarrow> system_reachable False n (hanging n l k CDecide (MClose 0 0))"
proof (induction k)
  case 0
  then show ?case using reach_dropped by simp
next
  case (Suc k)
  let ?e = "(hanging n l k CDecide (MClose 0 0))\<lparr>conn := (conn (hanging n l k CDecide (MClose 0 0)))(Suc k := CEnd)\<rparr>"
  have "system_reachable False n (hanging n l k CDecide (MClose 0 0))" using Suc by simp
  then have "system_reachable False n ?e"
    by (rule reach_conn) (rule loop_quit [of _ "Suc k"], use Suc in \<open>auto simp: hanging_def reach_facts\<close>)
  then show ?case
    by (rule reach_conn) (rule leave [of _ "Suc k"], use Suc in \<open>auto simp: hanging_def reach_facts\<close>)
qed

lemma reach_closed: "0 < n \<Longrightarrow> i \<le> n \<Longrightarrow> system_reachable False n (hanging n l (n - 1) CDecide (MClose i 0))"
proof (induction i)
  case 0
  then show ?case using reach_left [of n "n - 1" l] by simp
next
  case (Suc i)
  then have "system_reachable False n (hanging n l (n - 1) CDecide (MClose i 0))" by simp
  then show ?case
    by (rule reach_main) (rule close_client, use Suc in \<open>auto simp: hanging_def reach_facts\<close>)
qed

lemma reach_hang:
  assumes "0 < n"
  shows "system_reachable False n (hanging n l (n - 1) CBlocked (MJoin 0 0))"
proof -
  have "system_reachable False n (hanging n l (n - 1) CDecide (MClose n 0))"
    using reach_closed [OF assms, of n] by simp
  then have "system_reachable False n (hanging n l (n - 1) CDecide (MJoin 0 0))"
    by (rule reach_main) (rule closed_all, auto simp: hanging_def reach_facts)
  then show ?thesis
    by (rule reach_conn) (rule block [of _ 0], auto simp: hanging_def reach_facts)
qed

text \<open>There only a further signal has a step.\<close>

lemma hang_stuck:
  assumes "0 < n"
  shows "system_step locked n (hanging n l (n - 1) CBlocked (MJoin 0 0)) t \<longleftrightarrow>
    (\<exists>j. l = Suc j \<and> t = (hanging n j (n - 1) CBlocked (MJoin 0 0))\<lparr>notifies := 1\<rparr>)" (is "?step \<longleftrightarrow> ?sig")
proof
  assume ?step
  then show ?sig using assms unfolding system_step_def
    by (auto simp: hanging_def elim!: conn_moveE worker_moveE main_moveE outside_moveE split: if_splits)
next
  assume ?sig
  then obtain j where j: "l = Suc j" "t = (hanging n j (n - 1) CBlocked (MJoin 0 0))\<lparr>notifies := 1\<rparr>" by blast
  have "outside_move locked n (hanging n l (n - 1) CBlocked (MJoin 0 0)) t"
    using signal [of "hanging n l (n - 1) CBlocked (MJoin 0 0)" j locked n]
    by (simp add: hanging_def may_set_def j)
  then show ?step by (simp add: system_step_def)
qed

text \<open>A run to the end: a signal before the only thread has begun.\<close>

lemma reach_exit: "\<exists>s. system_reachable locked 1 s \<and> main_at s = MExit 1"
proof -
  let ?q = "\<lambda>k p w b m. \<lparr>g_stop = True, ok_count = 0, disc_fired = (\<lambda>_. False), notifies = k, signals_due = 0,
    conn = (\<lambda>i. if i = 0 then p else CDone), queue = [], queue_stop = b, worker = w, main_at = m\<rparr>"
  have "system_reachable locked 1 (?q 1 CHead KWait False MWait)"
    by (rule reach_outside [OF system_start [of _ _ 1]]) (rule signal [of _ 0], auto simp: system_init_def reach_facts)
  then have "system_reachable locked 1 (?q 0 CHead KWait False MWait)"
    by (rule reach_outside) (rule notify_flag, auto simp: reach_facts)
  then have "system_reachable locked 1 (?q 0 CEnd KWait False MWait)"
    by (rule reach_conn) (rule loop_quit [of _ 0], auto simp: reach_facts)
  then have "system_reachable locked 1 (?q 0 CDone KWait False MWait)"
    by (rule reach_conn) (rule leave [of _ 0], auto simp: reach_facts)
  then have "system_reachable locked 1 (?q 0 CDone KWait False MStopCheck)"
    by (rule reach_main) (rule first_wait, auto simp: reach_facts)
  then have "system_reachable locked 1 (?q 0 CDone KWait False (MStop 1))"
    by (rule reach_main) (rule stop_check, auto simp: reach_facts)
  then have "system_reachable locked 1 (?q 0 CDone KWait False (MNotify 1))"
    by (rule reach_main) (rule store_stop, auto simp: reach_facts)
  then have "system_reachable locked 1 (?q 0 CDone KWait False (MClose 0 1))"
    by (rule reach_main) (rule notify_stop, auto simp: reach_facts)
  then have "system_reachable locked 1 (?q 0 CDone KWait False (MClose 1 1))"
    by (rule reach_main) (rule close_client, auto simp: reach_facts)
  then have "system_reachable locked 1 (?q 0 CDone KWait False (MJoin 0 1))"
    by (rule reach_main) (rule closed_all, auto simp: reach_facts)
  then have "system_reachable locked 1 (?q 0 CDone KWait False (MJoin 1 1))"
    by (rule reach_main) (rule join_conn, auto simp: reach_facts)
  then have "system_reachable locked 1 (?q 0 CDone KWait False (MKjStop 1))"
    by (rule reach_main) (rule joined_all, auto simp: reach_facts)
  then have "system_reachable locked 1 (?q 0 CDone KWait True (MKjJoin 1))"
    by (rule reach_main) (rule stop_worker, auto simp: reach_facts)
  then have "system_reachable locked 1 (?q 0 CDone KDone True (MKjJoin 1))"
    by (rule reach_worker) (rule worker_leave, auto simp: reach_facts)
  then have "system_reachable locked 1 (?q 0 CDone KDone True (MExit 1))"
    by (rule reach_main) (rule join_worker, auto simp: reach_facts)
  then show ?thesis by (intro exI conjI) (assumption, simp)
qed

section \<open>Properties\<close>

text \<open>
  C6: In every state the threads of main reach, whatever the interleaving, the health counter is the number of
  connection threads between their registration and the end of their wait; and when main returns, its exit code is 0
  or 1, the stop flag is set, every connection thread and the worker have returned, the counter is 0 and no
  registration was left in the queue.
\<close>

theorem shutdown_leaves_nothing:
  assumes "system_reachable locked n s"
  shows "ok_count s = healthy_threads n (conn s) \<and>
    (\<forall>c. main_at s = MExit c \<longrightarrow>
      c \<in> {0, 1} \<and> g_stop s \<and> (\<forall>i. conn s i = CDone) \<and> worker s = KDone \<and> queue s = [] \<and> ok_count s = 0)"
proof -
  have inv: "system_inv n s" by (rule system_reachable_inv [OF assms])
  then have cnt: "ok_count s = healthy_threads n (conn s)" by (simp add: system_inv_def count_inv_def)
  moreover have "c \<in> {0, 1} \<and> g_stop s \<and> (\<forall>i. conn s i = CDone) \<and> worker s = KDone \<and> queue s = [] \<and> ok_count s = 0"
    if m: "main_at s = MExit c" for c
  proof -
    have d: "\<forall>i. conn s i = CDone" by (rule exited_done [OF inv m])
    have "c \<in> {0, 1}" "g_stop s" "worker s = KDone" "queue s = []"
      using inv m by (auto simp: system_inv_def main_inv_def queue_inv_def)
    then show ?thesis using d cnt all_done_count [OF d, of n] by simp
  qed
  ultimately show ?thesis by blast
qed

lemma shutdown_leaves_nothing_witness:
  "\<exists>s. system_reachable False 1 s \<and> main_at s = MExit 1 \<and> worker s = KDone \<and> queue s = [] \<and> ok_count s = 0"
proof -
  obtain s where s: "system_reachable False 1 s" "main_at s = MExit 1" using reach_exit by blast
  with shutdown_leaves_nothing [OF s(1)] show ?thesis by blast
qed

text \<open>
  C7: Were a flag set only while the wake-up mutex is free of a waiter between its test and its sleep, and every connect and
  close one that ends (\<open>Close_Race\<close> has the exception), then main
  would return once the stop flag is set, with no fairness asked of the scheduler: the flag stays set, no run of the
  threads, with whatever signals and callbacks still come, is longer than the measure of the state it starts in, and until main has
  returned a thread has a step, or a notification is due, without a further signal or callback.
\<close>

theorem shutdown_terminates:
  assumes "system_reachable True n s" "g_stop s" "(system_step True n ^^ k) s t"
  shows "g_stop t \<and> k + steps_to_exit n t \<le> steps_to_exit n s \<and>
    ((\<exists>u. system_step True n t u \<and> notifies u \<le> notifies t) \<or> (\<exists>c. main_at t = MExit c))"
proof -
  have "system_reachable True n t \<and> g_stop t \<and> k + steps_to_exit n t \<le> steps_to_exit n s"
    using assms(3)
  proof (induction k arbitrary: t)
    case 0
    then show ?case using assms by simp
  next
    case (Suc k)
    then obtain u where u: "(system_step True n ^^ k) s u" "system_step True n u t" by auto
    note ih = Suc.IH [OF u(1)]
    then have "steps_to_exit n t < steps_to_exit n u"
      using system_step_weight [OF u(2)] system_reachable_inv by blast
    then show ?case using ih u(2) by (auto intro: system_next system_step_stop)
  qed
  then show ?thesis using system_progress [of n t] system_reachable_inv [of True n t] system_reachable_wake [of n t]
    unfolding steps_alone_def by blast
qed

lemma shutdown_terminates_witness:
  "g_stop (system_init 4 2\<lparr>g_stop := True, notifies := 1, signals_due := 1\<rparr>) \<and>
   steps_to_exit 4 (system_init 4 2\<lparr>g_stop := True, notifies := 1, signals_due := 1\<rparr>) = 38"
proof -
  let ?s = "system_init 4 2\<lparr>g_stop := True, notifies := 1, signals_due := 1\<rparr>"
  have "outside_move True 4 (system_init 4 2) ?s"
    using signal [of "system_init 4 2" 1 True 4] by (simp add: system_init_def may_set_def)
  then have "system_reachable True 4 ?s" by (auto intro: system_next [OF system_start] simp: system_step_def)
  moreover have "(system_step True 4 ^^ 0) ?s ?s" by simp
  ultimately have "g_stop ?s" using shutdown_terminates [of 4 ?s 0 ?s] by simp
  then show ?thesis
    by (simp add: steps_to_exit_def conn_sum_def quiet_def system_init_def lessThan_nat_numeral lessThan_Suc)
qed

text \<open>
  C8: As written, with flags set and notified outside the mutex, shutting down can hang for any number of connections, after
  any number of signals but the last \<open>l\<close>: the threads reach a state in which the stop flag is set, no notification is due and
  main is joining the first connection thread, which sleeps in its wait with its connection dropped. No thread and no
  callback has a step left there: the only steps are further signals, which notify again, so that with none to come there is none at all.
\<close>

theorem shutdown_can_hang:
  "\<exists>s. system_reachable False (Suc m) s \<and> g_stop s \<and> notifies s = 0 \<and> signals_due s = l \<and> main_at s = MJoin 0 0 \<and>
     conn s 0 = CBlocked \<and> disc_fired s 0 \<and>
     (\<forall>t. system_step False (Suc m) s t \<longleftrightarrow> (\<exists>j. l = Suc j \<and> t = s\<lparr>notifies := 1, signals_due := j\<rparr>))"
  using reach_hang [of "Suc m" l] hang_stuck [of "Suc m" False l]
  by (intro exI [of _ "hanging (Suc m) l m CBlocked (MJoin 0 0)"]) (simp add: hanging_def)

end
