(* ===== verification/Stubs.thy ===== *)
theory Stubs
  imports Conn_Thread Shutdown Tun
begin

text \<open>
  The variants of the classes for builds without Linux (\<^verbatim>\<open>src/net/netlink.cpp\<close>, \<^verbatim>\<open>src/tun/tun_device_linux.cpp\<close>) and
  without msquic (\<^verbatim>\<open>src/tunnel/quic_client.cpp\<close>): every operation that can fail does so with \<^verbatim>\<open>not_supported\<close>, the
  others do nothing. Then what the program does with such a client, or with an edge that refuses all connections. Without Cap'n Proto only registration fails.
\<close>

section \<open>Definitions\<close>

subsection \<open>Netlink and TUN elsewhere than on Linux\<close>

definition stub_nl_open :: "nl_client \<Rightarrow> errc option \<times> nl_client" where
  "stub_nl_open c = (Some NotSupported, c)"

definition stub_nl_if_index :: "string \<Rightarrow> u32 \<Rightarrow> errc option \<times> u32" where
  "stub_nl_if_index name out = (Some NotSupported, out)"

definition stub_nl_link_up :: "u32 \<Rightarrow> nl_client \<Rightarrow> errc option \<times> nl_client" where
  "stub_nl_link_up ifindex c = (Some NotSupported, c)"

definition stub_nl_set_mtu :: "u32 \<Rightarrow> u32 \<Rightarrow> nl_client \<Rightarrow> errc option \<times> nl_client" where
  "stub_nl_set_mtu ifindex mtu c = (Some NotSupported, c)"

definition stub_nl_add_addr :: "u32 \<Rightarrow> cidr \<Rightarrow> nl_client \<Rightarrow> errc option \<times> nl_client" where
  "stub_nl_add_addr ifindex addr c = (Some NotSupported, c)"

definition stub_nl_add_route :: "u32 \<Rightarrow> cidr \<Rightarrow> nl_client \<Rightarrow> errc option \<times> nl_client" where
  "stub_nl_add_route ifindex dst c = (Some NotSupported, c)"

definition stub_nl_talk :: "u8 list \<Rightarrow> nl_client \<Rightarrow> errc option \<times> nl_client" where
  "stub_nl_talk req c = (Some NotSupported, c)"

definition stub_tun_open :: "string \<Rightarrow> tun_device \<Rightarrow> errc option \<times> tun_device" where
  "stub_tun_open name dev = (Some NotSupported, dev)"

definition stub_tun_configure :: "cidr \<Rightarrow> cidr \<Rightarrow> tun_device \<Rightarrow> errc option \<times> tun_device" where
  "stub_tun_configure addr route dev = (Some NotSupported, dev)"

definition stub_tun_add_route :: "cidr \<Rightarrow> tun_device \<Rightarrow> errc option \<times> tun_device" where
  "stub_tun_add_route route dev = (Some NotSupported, dev)"

text \<open>Reading and writing return \<^verbatim>\<open>-1\<close> with \<^verbatim>\<open>errno\<close> set to \<^verbatim>\<open>ENOSYS\<close>, whose number is the system's.\<close>

definition stub_tun_read_packet :: "int \<Rightarrow> nat \<Rightarrow> tun_device \<Rightarrow> int + u8 list" where
  "stub_tun_read_packet ENOSYS cap dev = Inl ENOSYS"

definition stub_tun_write_packet :: "int \<Rightarrow> u8 list \<Rightarrow> tun_device \<Rightarrow> int + nat" where
  "stub_tun_write_packet ENOSYS bs dev = Inl ENOSYS"

subsection \<open>The QUIC client without msquic\<close>

record stub_client =
  stub_cfg :: quic_config

definition stub_client_init :: "quic_config \<Rightarrow> stub_client" where
  "stub_client_init cfg = \<lparr>stub_cfg = cfg\<rparr>"

definition stub_connect :: "stub_client \<Rightarrow> errc option \<times> stub_client" where
  "stub_connect c = (Some NotSupported, c)"

definition stub_send_packet :: "u8 list \<Rightarrow> stub_client \<Rightarrow> stub_client" where
  "stub_send_packet p c = c"

definition stub_set_handler :: "bool \<Rightarrow> stub_client \<Rightarrow> stub_client" where
  "stub_set_handler h c = c"

definition stub_set_handler_disconnect :: "bool \<Rightarrow> stub_client \<Rightarrow> stub_client" where
  "stub_set_handler_disconnect h c = c"

definition stub_close :: "stub_client \<Rightarrow> stub_client" where
  "stub_close c = c"

definition stub_register ::
  "register_request \<Rightarrow> register_response \<Rightarrow> stub_client \<Rightarrow> errc option \<times> register_response \<times> stub_client" where
  "stub_register req resp c = (Some NotSupported, resp, c)"

text \<open>Registration in a build with msquic and without Cap'n Proto.\<close>

definition register_without_capnp :: "client \<Rightarrow> errc option" where
  "register_without_capnp c =
     (if h_connection c = None \<or> \<not> handshake_ok c then Some NotConnected else Some NotSupported)"

text \<open>
  The reconnect loop of \<^verbatim>\<open>main\<close> over this client, once for each pair of flags (dropped, stopping) that a wait would end with.
\<close>

definition stub_pass :: "register_request \<Rightarrow> bool \<times> bool \<Rightarrow> stub_client \<times> conn_state \<Rightarrow> stub_client \<times> conn_state" where
  "stub_pass req flags s =
     (case s of (c, st) \<Rightarrow>
      let c = stub_close c; (r, c) = stub_connect c in
      if r \<noteq> None then (c, conn_pass ConnectFailed st)
      else let (ec, resp, c) = stub_register req register_response_init c in
        if ec \<noteq> None then (stub_close c, conn_pass (RegisterFailed (retry_after_seconds resp)) st)
        else (c, conn_pass (Served (fst flags) (snd flags)) st))"

definition stub_thread :: "register_request \<Rightarrow> (bool \<times> bool) list \<Rightarrow> stub_client \<Rightarrow> stub_client \<times> conn_state" where
  "stub_thread req fs c =
     (let (c, st) = fold (stub_pass req) fs (stub_set_handler_disconnect True c, conn_init)
      in (stub_close (stub_set_handler_disconnect False c), st))"

subsection \<open>A program none of whose registrations succeeds\<close>

text \<open>The runs of all threads in which no attempt to register is answered with success.\<close>

inductive refused_reachable :: "bool \<Rightarrow> nat \<Rightarrow> system \<Rightarrow> bool" for locked n where
  refused_start: "refused_reachable locked n (system_init n k)"
| refused_next: "refused_reachable locked n s \<Longrightarrow> system_step locked n s t \<Longrightarrow> \<forall>i. conn t i \<noteq> CResult True \<Longrightarrow>
    refused_reachable locked n t"

text \<open>The main thread is not past its first wait with code 0, and has not started the router.\<close>

fun exit_one :: "main_pc \<Rightarrow> bool" where
  "exit_one MPump \<longleftrightarrow> False"
| "exit_one (MStop c) \<longleftrightarrow> c = 1"
| "exit_one (MNotify c) \<longleftrightarrow> c = 1"
| "exit_one (MClose i c) \<longleftrightarrow> c = 1"
| "exit_one (MJoin i c) \<longleftrightarrow> c = 1"
| "exit_one (MKjStop c) \<longleftrightarrow> c = 1"
| "exit_one (MKjJoin c) \<longleftrightarrow> c = 1"
| "exit_one (MExit c) \<longleftrightarrow> c = 1"
| "exit_one p \<longleftrightarrow> True"

definition refused_inv :: "system \<Rightarrow> bool" where
  "refused_inv s \<longleftrightarrow> ok_count s = 0 \<and> exit_one (main_at s) \<and> (\<forall>i. \<not> Shutdown.healthy (conn s i) \<and> conn s i \<noteq> CResult True)"

section \<open>Lemmas\<close>

lemma stub_pass_fails: "stub_pass req f (c, st) = (c, conn_pass ConnectFailed st)"
  by (simp add: stub_pass_def stub_connect_def stub_close_def)

lemma stub_passes: "fold (stub_pass req) fs (c, st) = (c, fold conn_pass (replicate (length fs) ConnectFailed) st)"
  by (induction fs arbitrary: st) (simp_all add: stub_pass_fails)

lemma failed_sleeps:
  "backoff st = min (1000 * 2 ^ m) 32000 \<Longrightarrow>
   sleeps (fold conn_pass (replicate n ConnectFailed) st) = sleeps st @ map (\<lambda>k. min (1000 * 2 ^ k) 32000) [m..<m + n]"
proof (induction n arbitrary: st m)
  case (Suc n)
  have "backoff (conn_pass ConnectFailed st) = min (1000 * 2 ^ Suc m) 32000"
    using Suc.prems doubling [of m] by (simp add: next_backoff_def kMaxBackoffMs_def del: power_Suc)
  from Suc.IH [OF this] show ?case
    using Suc.prems upt_conv_Cons [of m "m + Suc n"] by simp
qed simp

lemma conn_move_refused:
  "conn_move i s t \<Longrightarrow> refused_inv s \<Longrightarrow> \<forall>i. conn t i \<noteq> CResult True \<Longrightarrow> refused_inv t"
  by (erule conn_moveE) (auto simp: refused_inv_def Shutdown.healthy_def)

lemma worker_move_refused:
  "worker_move s t \<Longrightarrow> refused_inv s \<Longrightarrow> \<forall>i. conn t i \<noteq> CResult True \<Longrightarrow> refused_inv t"
  by (erule worker_moveE) (auto simp: refused_inv_def Shutdown.healthy_def)

lemma woken_healthy: "Shutdown.healthy (woken c i) \<longleftrightarrow> Shutdown.healthy (c i)"
  by (simp add: woken_def Shutdown.healthy_def)

lemma main_move_refused: "main_move locked n s t \<Longrightarrow> refused_inv s \<Longrightarrow> \<forall>i. conn t i \<noteq> CResult True \<Longrightarrow> refused_inv t"
  by (erule main_moveE) (auto simp: refused_inv_def woken_healthy)

lemma outside_move_refused: "outside_move locked n s t \<Longrightarrow> refused_inv s \<Longrightarrow> \<forall>i. conn t i \<noteq> CResult True \<Longrightarrow> refused_inv t"
  by (erule outside_moveE) (auto simp: refused_inv_def woken_healthy)

lemma refused_reachable_inv: "refused_reachable locked n s \<Longrightarrow> refused_inv s"
proof (induction rule: refused_reachable.induct)
  case refused_start
  show ?case by (simp add: refused_inv_def system_init_def Shutdown.healthy_def)
next
  case (refused_next s t)
  then show ?case
    by (auto simp: system_step_def intro: conn_move_refused worker_move_refused main_move_refused outside_move_refused)
qed

section \<open>Properties\<close>

text \<open>
  Without msquic a connection thread only sleeps: one, two, four seconds and so on up to 32, then 32 each time;
  its client is never changed and the count of healthy connections never touched.
\<close>

theorem stub_client_only_sleeps:
  "stub_thread req fs c = (c, \<lparr>backoff = min (1000 * 2 ^ length fs) 32000, healthy = 0,
     sleeps = map (\<lambda>k. min (1000 * 2 ^ k) 32000) [0..<length fs]\<rparr>)"
proof -
  let ?st = "fold conn_pass (replicate (length fs) ConnectFailed) conn_init"
  have init: "backoff conn_init = min (1000 * 2 ^ 0) 32000" "sleeps conn_init = []"
    by (simp_all add: conn_init_def backoff_consts)
  have "backoff ?st = min (1000 * 2 ^ length fs) 32000"
    using failures_backoff [of "replicate (length fs) ConnectFailed" conn_init 0] init(1) by (simp add: failed_def)
  moreover have "sleeps ?st = map (\<lambda>k. min (1000 * 2 ^ k) 32000) [0..<length fs]"
    using failed_sleeps [OF init(1)] init(2) by simp
  moreover have "Supervisor.healthy ?st = 0" 
    using conn_run_ok [OF conn_init_ok, of "replicate (length fs) ConnectFailed"] unfolding conn_ok_def by (elim conjE)
  ultimately show ?thesis
    by (simp add: stub_thread_def stub_set_handler_disconnect_def stub_close_def stub_passes)
qed

text \<open>
  C36: when no registration succeeds, whether the client is the one without msquic or the edge unreachable, then in
  every interleaving of all threads, signals and callbacks the health counter stays 0, the main thread never
  starts the router, and the program ends, if it ends, with code 1.
\<close>

theorem no_registration_exits_1:
  assumes "refused_reachable locked n s"
  shows "ok_count s = 0 \<and> main_at s \<noteq> MPump \<and> (\<forall>c. main_at s = MExit c \<longrightarrow> c = 1)"
  using refused_reachable_inv [OF assms] by (auto simp: refused_inv_def)

lemma no_registration_exits_1_witness:
  "\<exists>s. refused_reachable False 4 s \<and> conn s 0 = CSleep \<and> main_at s = MStop 1 \<and> ok_count s = 0"
proof -
  let ?s0 = "system_init 4 1"
  let ?s1 = "put 0 CConnect (?s0\<lparr>disc_fired := (disc_fired ?s0)(0 := False)\<rparr>)"
  let ?s2 = "put 0 CSleep ?s1"
  let ?s3 = "?s2\<lparr>main_at := MStopCheck\<rparr>"
  let ?s4 = "?s3\<lparr>main_at := MCountCheck\<rparr>"
  let ?s5 = "?s4\<lparr>main_at := MStop 1\<rparr>"
  have c: "conn_move 0 ?s0 ?s1" by (rule loop_go) (simp_all add: system_init_def)
  have 1: "refused_reachable False 4 ?s1"
    by (rule refused_next [OF refused_start]) (use c in \<open>auto simp: system_step_def system_init_def\<close>)
  have "conn_move 0 ?s1 ?s2" by (rule connect_failed) simp
  then have 2: "refused_reachable False 4 ?s2"
    by (intro refused_next [OF 1]) (auto simp: system_step_def system_init_def)
  have "main_move False 4 ?s2 ?s3" by (rule first_wait) (simp add: system_init_def)
  then have 3: "refused_reachable False 4 ?s3"
    by (intro refused_next [OF 2]) (auto simp: system_step_def system_init_def)
  have "main_move False 4 ?s3 ?s4" using stop_check [of ?s3 False 4] by (simp add: system_init_def)
  then have 4: "refused_reachable False 4 ?s4"
    by (intro refused_next [OF 3]) (auto simp: system_step_def system_init_def)
  have "main_move False 4 ?s4 ?s5" using count_check [of ?s4 False 4] by (simp add: system_init_def)
  then have 5: "refused_reachable False 4 ?s5"
    by (intro refused_next [OF 4]) (auto simp: system_step_def system_init_def)
  from no_registration_exits_1 [OF 5] 5 show ?thesis by (intro exI [of _ ?s5]) simp
qed

end
