(* ===== verification/Unit_Tests.thy ===== *)
theory Unit_Tests
  imports Lpm_Trie Frame Registration Netlink
begin

text \<open>
  The test programs of \<^verbatim>\<open>tests/\<close>, run on the models of the functions they call. A program's result is its exit
  code, or \<open>None\<close> where it aborts or reads what is not there. \<open>ndebug\<close> says whether \<^verbatim>\<open>NDEBUG\<close> is defined, as it is in
  a CMake build of type Release: then \<^verbatim>\<open>assert\<close> does not evaluate its argument. \<^verbatim>\<open>inet_pton\<close>, the socket calls and
  \<^verbatim>\<open>if_nametoindex\<close> are parameters.
\<close>

section \<open>Definitions\<close>

text \<open>
  \<^verbatim>\<open>assert(e)\<close>, and \<^verbatim>\<open>assert(f(x, out))\<close> or \<^verbatim>\<open>assert(!f(x, out))\<close> with the value of \<open>out\<close> afterwards.
\<close>

definition assert_expr :: "bool \<Rightarrow> bool option \<Rightarrow> unit option" where
  "assert_expr ndebug e = (if ndebug \<or> e = Some True then Some () else None)"

definition assert_call :: "bool \<Rightarrow> bool \<Rightarrow> unit + bool \<times> 'a \<Rightarrow> 'a \<Rightarrow> 'a option" where
  "assert_call ndebug expected call out =
     (if ndebug then Some out
      else case call of Inl _ \<Rightarrow> None | Inr (ok, out') \<Rightarrow> if ok = expected then Some out' else None)"

text \<open>\<^verbatim>\<open>decode\<close> with its output argument, which it fills only when it returns true.\<close>

definition decode_into :: "u8 list \<Rightarrow> decode_result \<Rightarrow> unit + bool \<times> decode_result" where
  "decode_into inp out = (case frame_decode inp of Inl e \<Rightarrow> Inl e | Inr None \<Rightarrow> Inr (False, out) | Inr (Some d) \<Rightarrow> Inr (True, d))"

definition test_frame :: "bool \<Rightarrow> int option" where
  "test_frame ndebug = do {
     let inp = frame_init\<lparr>frame_type := IpPacket, flow_id := 0xBEEF, payload := [0x45, 0x00, 0x00, 0x14]\<rparr>;
     let (wire, n) = frame_encode inp [];
     assert_expr ndebug (Some (length wire = kFrameHeader + 4));
     assert_expr ndebug (map_option (\<lambda>b. b = kFrameVersion) (arr_get wire 0));
     assert_expr ndebug (map_option (\<lambda>b. b = 1) (arr_get wire 1));
     assert_expr ndebug (map_option (\<lambda>b. b = 0xBE) (arr_get wire 2));
     assert_expr ndebug (map_option (\<lambda>b. b = 0xEF) (arr_get wire 3));
     let blank = \<lparr>dr_type = FrameType 0, dr_flow_id = 0, dr_payload = []\<rparr>;
     out \<leftarrow> assert_call ndebug True (decode_into wire blank) blank;
     assert_expr ndebug (Some (dr_type out = IpPacket));
     assert_expr ndebug (Some (dr_flow_id out = 0xBEEF));
     assert_expr ndebug (Some (length (dr_payload out) = 4));
     tmp \<leftarrow> assert_call ndebug False (decode_into [] blank) blank;
     tmp \<leftarrow> assert_call ndebug False (decode_into [0xFF, 0x01, 0, 0] tmp) tmp;
     Some 0
   }"

definition test_uuid :: "bool \<Rightarrow> unit option" where
  "test_uuid ndebug = do {
     let u = replicate 16 0;
     u \<leftarrow> assert_call ndebug True (parse_uuid ''550e8400-e29b-41d4-a716-446655440000'' u) u;
     assert_expr ndebug (map_option (\<lambda>b. b = 0x55) (arr_get u 0));
     assert_expr ndebug (map_option (\<lambda>b. b = 0x0e) (arr_get u 1));
     assert_expr ndebug (map_option (\<lambda>b. b = 0x00) (arr_get u 15));
     u \<leftarrow> assert_call ndebug False (parse_uuid ''not-a-uuid'' u) u;
     u \<leftarrow> assert_call ndebug False (parse_uuid ''550e8400-e29b-41d4-a716-44665544000'' u) u;
     u \<leftarrow> assert_call ndebug False (parse_uuid ''550e8400_e29b_41d4_a716_446655440000'' u) u;
     Some ()
   }"

definition test_base64 :: "bool \<Rightarrow> unit option" where
  "test_base64 ndebug = do {
     out \<leftarrow> assert_call ndebug True (Inr (base64_decode ''AAECAwQF'' [])) [];
     assert_expr ndebug (Some (length out = 6 \<and> out = [0, 1, 2, 3, 4, 5]));
     out \<leftarrow> assert_call ndebug True (Inr (base64_decode ''aGVsbG8='' [])) [];
     assert_expr ndebug (Some (length out = 5 \<and> out = map (\<lambda>c. of_nat (char_code c)) ''hello''));
     out \<leftarrow> assert_call ndebug False (Inr (base64_decode ''!!!!'' [])) [];
     out \<leftarrow> assert_call ndebug False (Inr (base64_decode ''abc'' out)) out;
     out \<leftarrow> assert_call ndebug False (Inr (base64_decode ''===='' [])) [];
     out \<leftarrow> assert_call ndebug False (Inr (base64_decode ''=AAA'' out)) out;
     out \<leftarrow> assert_call ndebug False (Inr (base64_decode ''A=AA'' out)) out;
     out \<leftarrow> assert_call ndebug False (Inr (base64_decode ''AAA=AAA='' out)) out;
     out \<leftarrow> assert_call ndebug True (Inr (base64_decode ''AAAA'' [])) [];
     out \<leftarrow> assert_call ndebug True (Inr (base64_decode ''AA=='' [])) [];
     assert_expr ndebug (Some (length out = 1));
     out \<leftarrow> assert_call ndebug True (Inr (base64_decode ''AAA='' [])) [];
     assert_expr ndebug (Some (length out = 2));
     Some ()
   }"

definition test_registration :: "bool \<Rightarrow> int option" where
  "test_registration ndebug = do { test_uuid ndebug; test_base64 ndebug; Some 0 }"

definition test_cidr :: "bool \<Rightarrow> inet_pton_fn \<Rightarrow> int option" where
  "test_cidr ndebug pton = do {
     let c = cidr_parse pton ''10.99.0.0/16'';
     assert_expr ndebug (Some (c \<noteq> None));
     assert_expr ndebug (map_option (\<lambda>c. cidr_prefix_len c = 16) c);
     let a1 = ip_addr_parse pton ''10.99.5.7'';
     let a2 = ip_addr_parse pton ''10.100.0.1'';
     assert_expr ndebug (Some (a1 \<noteq> None \<and> a2 \<noteq> None));
     assert_expr ndebug (do { c \<leftarrow> c; a \<leftarrow> a1; cidr_contains c a });
     assert_expr ndebug (do { c \<leftarrow> c; a \<leftarrow> a2; b \<leftarrow> cidr_contains c a; Some (\<not> b) });
     let v6 = cidr_parse pton ''2001:db8::/32'';
     assert_expr ndebug (Some (case v6 of None \<Rightarrow> False | Some c \<Rightarrow> cidr_prefix_len c = 32));
     assert_expr ndebug (Some (cidr_parse pton ''garbage'' = None));
     assert_expr ndebug (Some (cidr_parse pton ''10.0.0.0/33'' = None));
     Some 0
   }"

text \<open>\<^verbatim>\<open>t.insert(*Cidr::parse(s), v)\<close>, and a lookup of the address \<open>s\<close>: a dereferenced empty optional has no value.\<close>

definition insert_text :: "inet_pton_fn \<Rightarrow> string \<Rightarrow> int \<Rightarrow> int lpm_trie \<Rightarrow> int lpm_trie option" where
  "insert_text pton s v t = do { c \<leftarrow> cidr_parse pton s; lpm_insert 0 c v t }"

definition lookup_text :: "inet_pton_fn \<Rightarrow> string \<Rightarrow> int lpm_trie \<Rightarrow> int option option" where
  "lookup_text pton s t = do { a \<leftarrow> ip_addr_parse pton s; lpm_lookup t a }"

definition test_lpm :: "bool \<Rightarrow> inet_pton_fn \<Rightarrow> int option" where
  "test_lpm ndebug pton = do {
     t \<leftarrow> insert_text pton ''10.0.0.0/8'' 1 lpm_empty;
     t \<leftarrow> insert_text pton ''10.99.0.0/16'' 2 t;
     t \<leftarrow> insert_text pton ''10.99.5.0/24'' 3 t;
     v \<leftarrow> lookup_text pton ''10.99.5.7'' t;
     assert_expr ndebug (Some (v = Some 3));
     v \<leftarrow> lookup_text pton ''10.99.6.7'' t;
     assert_expr ndebug (Some (v = Some 2));
     v \<leftarrow> lookup_text pton ''10.50.0.1'' t;
     assert_expr ndebug (Some (v = Some 1));
     v \<leftarrow> lookup_text pton ''11.0.0.1'' t;
     assert_expr ndebug (Some (v = None));
     Some 0
   }"

text \<open>The smoke test of the netlink client, which is skipped where the socket or the loopback device is missing.\<close>

definition test_netlink :: "bool \<Rightarrow> nl_socket \<Rightarrow> (string \<Rightarrow> int + u32) \<Rightarrow> int option" where
  "test_netlink ndebug env lookup = do {
     let (ec, c, closed) = nl_open env nl_init;
     if ec \<noteq> 0 then Some 0
     else do {
       let (e, idx) = nl_if_index lookup ''lo'' 0;
       if e \<noteq> 0 then Some 0
       else do {
         assert_expr ndebug (Some (0 < sint idx));
         let (eba, bad) = nl_if_index lookup ''this_name_is_far_too_long_for_an_interface'' 0;
         assert_expr ndebug (Some (eba \<noteq> 0));
         Some 0
       }
     }
   }"

subsection \<open>What the tests take for granted\<close>

text \<open>The values \<^verbatim>\<open>inet_pton\<close> is documented to give for the addresses in the tests.\<close>

definition v4_texts :: "(string \<times> u8 list) list" where
  "v4_texts = [(''10.99.0.0'', [10, 99, 0, 0]), (''10.99.5.7'', [10, 99, 5, 7]), (''10.100.0.1'', [10, 100, 0, 1]),
     (''10.0.0.0'', [10, 0, 0, 0]), (''10.99.5.0'', [10, 99, 5, 0]), (''10.99.6.7'', [10, 99, 6, 7]),
     (''10.50.0.1'', [10, 50, 0, 1]), (''11.0.0.1'', [11, 0, 0, 1])]"

definition db8_bytes :: "u8 list" where
  "db8_bytes = [0x20, 0x01, 0x0d, 0xb8] @ replicate 12 0"

definition pton_as_documented :: "inet_pton_fn \<Rightarrow> bool" where
  "pton_as_documented pton \<longleftrightarrow> (\<forall>(s, bs) \<in> set v4_texts. pton V4 s = Some bs) \<and>
     pton V4 ''2001:db8::'' = None \<and> pton V6 ''2001:db8::'' = Some db8_bytes"

text \<open>\<^verbatim>\<open>if_nametoindex\<close> returns a positive index or fails with a code.\<close>

definition lookup_as_documented :: "(string \<Rightarrow> int + u32) \<Rightarrow> bool" where
  "lookup_as_documented lookup \<longleftrightarrow> (\<forall>name. case lookup name of Inl e \<Rightarrow> e \<noteq> 0 | Inr i \<Rightarrow> 0 < sint i)"

definition table_pton :: inet_pton_fn where
  "table_pton f s = (case f of V4 \<Rightarrow> map_of v4_texts s | V6 \<Rightarrow> if s = ''2001:db8::'' then Some db8_bytes else None)"

section \<open>Lemmas\<close>

lemma assert_ndebug [simp]: "assert_expr True e = Some ()" "assert_call True b call out = Some out"
  by (simp_all add: assert_expr_def assert_call_def)

lemma assert_checked [simp]: "assert_expr False (Some True) = Some ()"
  by (simp add: assert_expr_def)

lemma table_pton_documented: "pton_as_documented table_pton"
  by code_simp

lemma test_frame_passes: "test_frame False = Some 0"
  by code_simp

lemma test_registration_passes: "test_registration False = Some 0"
  by code_simp

text \<open>The programs call \<^verbatim>\<open>inet_pton\<close> on these texts only, so a documented one behaves as the table.\<close>

definition test_texts :: "string list" where
  "test_texts = map fst v4_texts @ [''2001:db8::'']"

lemma test_texts_plain: "\<forall>s \<in> set test_texts. length s < 64 \<and> c_str s = s"
  by code_simp

lemma documented_agree:
  assumes "pton_as_documented pton" "s \<in> set test_texts"
  shows "ip_addr_parse pton s = ip_addr_parse table_pton s"
proof -
  have plain: "length s < 64" "c_str s = s" using assms(2) test_texts_plain by auto
  have "pton V4 s = table_pton V4 s" "pton V4 s = None \<Longrightarrow> pton V6 s = table_pton V6 s"
    using assms by (auto simp: test_texts_def pton_as_documented_def v4_texts_def table_pton_def)
  then show ?thesis using plain by (auto simp: ip_addr_parse_def Let_def split: option.split)
qed

lemma cidr_parse_agree:
  assumes "pton_as_documented pton" "\<forall>n. find_char (CHR ''/'') s = Some n \<longrightarrow> take n s \<in> set test_texts"
  shows "cidr_parse pton s = cidr_parse table_pton s"
  using assms documented_agree by (auto simp: cidr_parse_def split: option.split)

definition blocks_known :: "string list \<Rightarrow> bool" where
  "blocks_known ss \<longleftrightarrow> list_all (\<lambda>s. case find_char (CHR ''/'') s of None \<Rightarrow> True | Some n \<Rightarrow> take n s \<in> set test_texts) ss"

lemma blocks_agree:
  "pton_as_documented pton \<Longrightarrow> blocks_known ss \<Longrightarrow> s \<in> set ss \<Longrightarrow> cidr_parse pton s = cidr_parse table_pton s"
  by (rule cidr_parse_agree) (auto simp: blocks_known_def list_all_iff split: option.splits)

lemma test_cidr_passes:
  assumes "pton_as_documented pton"
  shows "test_cidr False pton = Some 0"
proof -
  let ?cs = "[''10.99.0.0/16'', ''2001:db8::/32'', ''garbage'', ''10.0.0.0/33'']"
  have known: "blocks_known ?cs" by code_simp
  have addrs: "\<forall>s \<in> set [''10.99.5.7'', ''10.100.0.1'']. s \<in> set test_texts" by code_simp
  have "test_cidr False pton = test_cidr False table_pton"
    using blocks_agree [OF assms known] documented_agree [OF assms] addrs
    by (simp only: test_cidr_def list.set insert_iff empty_iff ball_simps simp_thms)
  also have "\<dots> = Some 0" by code_simp
  finally show ?thesis .
qed

lemma test_lpm_passes:
  assumes "pton_as_documented pton"
  shows "test_lpm ndebug pton = Some 0"
proof -
  let ?cs = "[''10.0.0.0/8'', ''10.99.0.0/16'', ''10.99.5.0/24'']"
  have known: "blocks_known ?cs" by code_simp
  have addrs: "\<forall>s \<in> set [''10.99.5.7'', ''10.99.6.7'', ''10.50.0.1'', ''11.0.0.1'']. s \<in> set test_texts" by code_simp
  have "test_lpm ndebug pton = test_lpm ndebug table_pton"
    using blocks_agree [OF assms known] documented_agree [OF assms] addrs
    by (simp only: test_lpm_def insert_text_def lookup_text_def list.set insert_iff empty_iff ball_simps simp_thms)
  also have "\<dots> = Some 0" by (cases ndebug; simp only:; code_simp)
  finally show ?thesis .
qed

lemma test_netlink_passes:
  assumes "lookup_as_documented lookup"
  shows "test_netlink ndebug env lookup = Some 0"
  using assms unfolding lookup_as_documented_def
  by (auto simp: test_netlink_def nl_if_index_def IFNAMSIZ_def EINVAL_def assert_expr_def split: sum.splits prod.splits)

section \<open>Properties\<close>

text \<open>
  The project's own tests pass on the models: with assertions enabled every test program ends with exit code 0,
  for every \<^verbatim>\<open>inet_pton\<close> that converts the addresses in the tests as documented, every outcome of the socket calls
  and every table of interfaces with positive indices.
\<close>

theorem unit_tests_pass:
  assumes "pton_as_documented pton" "lookup_as_documented lookup"
  shows "test_cidr False pton = Some 0 \<and> test_lpm False pton = Some 0 \<and> test_frame False = Some 0 \<and>
    test_registration False = Some 0 \<and> test_netlink False env lookup = Some 0"
  using test_cidr_passes [OF assms(1)] test_lpm_passes [OF assms(1)] test_frame_passes test_registration_passes
    test_netlink_passes [OF assms(2)] by blast

lemma unit_tests_pass_witness:
  "test_cidr False table_pton = Some 0 \<and> test_netlink False \<lparr>se_socket = SockOk 3, se_bind = CallOk, se_getname = CallOk, se_pid = 9\<rparr>
     (\<lambda>s. if s = ''lo'' then Inr 1 else Inl 19) = Some 0"
  using unit_tests_pass [OF table_pton_documented, of "\<lambda>s. if s = ''lo'' then Inr 1 else Inl 19"
      "\<lparr>se_socket = SockOk 3, se_bind = CallOk, se_getname = CallOk, se_pid = 9\<rparr>"]
  by (auto simp: lookup_as_documented_def)

text \<open>
  In a build of type Release, the one the README runs the tests in, the test of the address parser passes whatever
  \<^verbatim>\<open>inet_pton\<close> does, even if no address parses; no assertion of any program is evaluated.
\<close>

theorem release_tests_check_nothing:
  "test_cidr True pton = Some 0 \<and> test_cidr False (\<lambda>f s. None) = None \<and> test_registration True = Some 0"
proof (intro conjI)
  show "test_cidr True pton = Some 0" by (simp add: test_cidr_def)
  show "test_cidr False (\<lambda>f s. None) = None" by code_simp
  show "test_registration True = Some 0" by (simp add: test_registration_def test_uuid_def test_base64_def)
qed

end
