(* ===== verification/Spec2Isabelle.thy ===== *)
theory Spec2Isabelle
  imports Async_Stream Atomic_Progress Buffer Close_Race Config Conn_Thread Daemon Data_Plane Edge_Ca Fuzz Log Lpm_Trie Multi_Sink Netlink Probe
    Quic_Client Reg_Timing Register_Race Router Rpc_Wire Schema_Nodes Send_Race Shutdown Stubs Supervisor Tun Unit_Tests
begin

text \<open>
  A model of \<^verbatim>\<open>cfd\<close>, a small Cloudflare Tunnel client for routers written in C++: the daemon reads IP packets
  from a TUN device, looks their destination up in a longest-prefix-match table and sends them as QUIC datagrams
  over four connections to the Cloudflare edge; datagrams that arrive are written back to the TUN device.
  Definitions follow the files under \<^verbatim>\<open>src/\<close>, \<^verbatim>\<open>include/cfd/\<close> and their order, with the names of the code.

  How the parts of the program and the theories correspond:

  \<^item> \<open>Prelude\<close>: bounds-checked reads and writes of byte arrays, C strings, decimal text, words of 8 to 64 bits,
    bits of an address.
  \<^item> \<open>Cidr\<close> (\<^verbatim>\<open>net/cidr.cpp\<close>): addresses and CIDR blocks, parsing, printing, containment. \<open>Lpm_Trie\<close>
    (\<^verbatim>\<open>lpm_trie.hpp\<close>): the binary trie, with the locale \<open>route_table\<close> of \<open>Route_Table\<close> as the contract of a route
    table and its interpretation on the trie.
  \<^item> \<open>Config\<close> (\<^verbatim>\<open>config.cpp\<close>): the configuration file. \<open>Registration\<close> (\<^verbatim>\<open>registration.cpp\<close>): UUIDs and base64.
    \<open>Frame\<close> (\<^verbatim>\<open>frame.cpp\<close>): the datagram framing. \<open>Log\<close> (\<^verbatim>\<open>log.cpp\<close>), \<open>Buffer\<close> (\<^verbatim>\<open>buffer.hpp\<close>),
    \<open>Unique_Fd\<close> (\<^verbatim>\<open>unique_fd.hpp\<close>): the utilities.
  \<^item> \<open>Netlink\<close> (\<^verbatim>\<open>netlink.cpp\<close>): the RTNETLINK messages byte by byte, against a parser of what a receiver sees.
    \<open>Tun\<close> (\<^verbatim>\<open>tun_device_linux.cpp\<close>): opening and configuring the device over the locale \<open>link_client\<close>, interpreted
    on the netlink operations.
  \<^item> \<open>Router\<close> (\<^verbatim>\<open>router.cpp\<close>): the destination of a packet, the reader loop, and start and stop as a step
    relation. \<open>Packet_Sink\<close>: the contract of \<^verbatim>\<open>IPacketSink\<close> as a locale, interpreted on the QUIC client and on
    the round-robin sink.
  \<^item> \<open>Quic_Handles\<close> (\<^verbatim>\<open>msquic_raii.hpp\<close>), \<open>Send_Ledger\<close>, \<open>Async_Stream\<close> and \<open>Quic_Client\<close>
    (\<^verbatim>\<open>quic_client.cpp\<close>): handle and send-context ownership, the byte stream the RPC library reads,
    connecting, events, datagrams, registration.
  \<^item> \<open>Capnp_Accessors\<close> (\<^verbatim>\<open>tunnelrpc.capnp.h\<close>): the generated accessors of the RPC's structs, over \<open>Capnp_Struct\<close>, whose
    locale \<open>struct_runtime\<close> is the contract of the Cap'n Proto runtime and whose instance \<open>bit_rt\<close> satisfies it.
    \<open>Schema_Nodes\<close> (\<^verbatim>\<open>tunnelrpc.capnp.c++\<close>): the embedded schema, byte by byte, with a decoder that reads it.
    \<open>Rpc_Wire\<close>: the calls and their dispatch, and how \<^verbatim>\<open>register_connection\<close> fills in the request and reads the response.
  \<^item> \<open>Multi_Sink\<close>, \<open>Supervisor\<close>, \<open>Conn_Thread\<close>, \<open>Shutdown\<close>, \<open>Daemon\<close>, \<open>Data_Plane\<close> (\<^verbatim>\<open>main.cpp\<close>): the round-robin
    sink; the reconnect loop's timing, its registration queue and its condition variable; a connection thread with
    its client; all threads together up to the return of main; start-up and exit codes; the two
    directions of the data path. \<open>Close_Race\<close>, \<open>Register_Race\<close>, \<open>Send_Race\<close>: a client that one thread closes while another is
    connecting it, registering it or sending over it, call by call. \<open>Reg_Timing\<close>: when the worker's registrations are answered. \<open>Probe\<close> (\<^verbatim>\<open>tools/probe_handshake.cpp\<close>): the handshake probe.
  \<^item> \<open>Atomic_Stub\<close> (\<^verbatim>\<open>cmake/stubs/atomic_mips32.c\<close>): the 64-bit atomic operations msquic is given on 32-bit MIPS;
    \<open>Atomic_Progress\<close>: that they finish.
    \<open>Edge_Ca\<close> (\<^verbatim>\<open>cloudflare_ca.hpp\<close>): the embedded certificates. \<open>Fuzz\<close> (\<^verbatim>\<open>fuzz/\<close>): the fuzz targets, as compositions of the modelled parsers.
    \<open>Unit_Tests\<close> (\<^verbatim>\<open>tests/\<close>): the test programs, run on the models. \<open>Stubs\<close>: the classes as built for other platforms, without
    msquic and without Cap'n Proto, and the program when no registration succeeds.

  State and errors. A class is a record of its members, extended where noted by history that no branch of the
  code reads. A \<^verbatim>\<open>std::error_code\<close> is its value (0 for none) or, in the client, an \<open>errc option\<close>. Reads and
  writes of memory are checked, and a result \<open>None\<close> (or \<open>Inl ()\<close>) means an access out of bounds; the properties
  show that it does not occur, but for one reply length that \<^verbatim>\<open>talk\<close> does not check
  (\<open>Netlink.talk_reads_past_short_error\<close>). Integers keep their width: prefix lengths and ports, the
  configuration's port parser, the sink's counter (whose width is a parameter), netlink fields (with the byte
  order as a parameter). Threads are inductive step relations over program counters, one atomic step per
  critical section or atomic access.

  The outside world is given as arguments: \<^verbatim>\<open>inet_pton\<close> and \<^verbatim>\<open>inet_ntop\<close> (their documented result sizes and
  round trip are hypotheses with a concrete instance, \<open>letter_pton\<close> and \<open>letter_ntop\<close>), system calls by their
  results, msquic by its answers and events, the RPC by its outcome (in \<open>Rpc_Wire\<close> by its response message), the Cap'n Proto
  runtime by the laws of \<open>struct_runtime\<close>, DNS by its answer. Recursions that are not
  structural have termination proofs; no fuel is used.

  What the lemmas show. Parsers: each is equivalent to a grammar and inverse to its printer. Tables: lookup in
  the trie is the longest match of the inserted routes, so the same as a scan of the list. Messages: each request
  parses to the intended header and attributes; the registration request is read back field by field, its accessors
  agree with the embedded schema, and reading the response agrees with the client's model. Ownership: descriptors,
  msquic handles, send contexts and peer streams are closed exactly once on every path. Threads: no lost wake-up in
  the stream, bounded termination of the router's stop, every registration answered, the health counter exact, nothing
  left when main returns, the MIPS operations atomic and finishing; and where the code falls short (the shared connection index, the
  wake-up of the reconnect threads and the shutdown that can hang on it, the close that can deadlock with a connect or
  take the connection from under a registration or a send, with all the ways the first of these can end, the full timeout that every registration with a stream lasts, the ignored minimum of a read), a theorem states what it does. This theory has the
  properties that span the components.

  Bounds. \<open>Shutdown.steps_to_exit\<close> is the measure that bounds every run after the stop flag is set,
  \<open>Router.steps_left\<close> the reader's after stop, \<open>Close_Race.race_left\<close> (24 at the start) a close under a connect,
  \<open>Register_Race.reg_race_left\<close> (14) one under a registration that takes the mutex, \<open>Atomic_Progress.work_left\<close> (eight a call) the
  MIPS operations in progress. In \<open>Shutdown\<close> how an attempt to connect or register ends is left open, so what it shows holds for
  every behaviour of the edge; \<open>locked = True\<close> is the repaired program, \<open>locked = False\<close> the one as written; likewise
  \<open>guarded\<close> in \<open>Register_Race\<close> and \<open>Send_Race\<close>; \<open>Close_Race\<close> has the program as written only. The number of signals to come, \<open>signals_due\<close>, is
  part of the state and arbitrary at the start. \<open>Reg_Timing\<close> counts milliseconds and takes the steps up to a watchdog, after an abort and
  between two registrations to last none.

  Not modelled: of the generated Cap'n Proto code the class declarations, constructors and typed call contexts, which
  only forward to the runtime; msquic, KJ and the Cap'n Proto runtime themselves, what the embedded
  certificates say, usage texts, the public \<^verbatim>\<open>QuicClient\<close>, which only forwards to its implementation,
  placeholder files, scripts and packaging. Memory order is sequential
  consistency throughout.
\<close>

section \<open>Properties\<close>

text \<open>
  C1: what leaves through the tunnel: for a daemon that started, whatever the connections do, the packets sent
  are among those read from the TUN device whose destination lies in a configured route, unchanged, each at most
  once and in order; with every connection up and accepting, they are exactly those. No packet makes the reader
  access memory out of bounds.
\<close>

theorem daemon_sends_exactly_routed:
  fixes sink :: "'w::len multi_sink"
  assumes "daemon_setup env argv = Some (Started r)" and "inet_pton_sizes (de_pton env)" and "reads_fit evs"
    and "multi_sink_ok sink" and "ms_sent sink = []" and "ms_sinks sink \<noteq> []"
  shows "(\<exists>sink'. daemon_outbound accepts r evs sink = Some sink' \<and>
       subseq (ms_sent sink') (filter (routed (routed_cidrs (rn_config r))) (packets_read evs))) \<and>
     ((\<forall>c \<in> set (ms_sinks sink). client_up c) \<longrightarrow>
       map_option ms_sent (daemon_outbound (\<lambda>_ _. True) r evs sink) =
         Some (filter (routed (routed_cidrs (rn_config r))) (packets_read evs)))"
proof -
  from started_routes [OF assms(1,2)] have t: "trie_wf (rn_routes r)"
    "to_tunnel (rn_routes r) = routed (routed_cidrs (rn_config r))" by auto
  obtain st where st: "tun_reader_loop (rn_routes r) True evs =
     Some (st, filter (routed (routed_cidrs (rn_config r))) (packets_read evs))"
    using reader_passes_spec [OF t(1) _ assms(3), of "replicate kPacketMtu 0" True] t(2)
    by (auto simp: tun_reader_loop_def)
  show ?thesis
    using round_robin.nothing_invented [OF assms(4,5)] multi_sends_all [OF assms(6)] assms(5)
    by (simp add: daemon_outbound_def st)
qed

lemma daemon_sends_exactly_routed_witness:
  "\<exists>r. daemon_setup example_env [''cfd'', ''--config'', ''a''] = Some (Started r) \<and>
     map_option ms_sent (daemon_outbound (\<lambda>_ _. True) r
       [(True, PollTimeout, ReadFail 0), (True, PollReady False, ReadData [0x45, 0]), (True, PollReady False, ReadData example_packet)]
       (multi_sink_init (replicate 4 example_up) :: 32 multi_sink)) = Some [example_packet]"
proof -
  let ?evs = "[(True, PollTimeout, ReadFail 0), (True, PollReady False, ReadData [0x45, 0]),
    (True, PollReady False, ReadData example_packet)]"
  let ?s = "multi_sink_init (replicate 4 example_up) :: 32 multi_sink"
  obtain r where r: "daemon_setup example_env [''cfd'', ''--config'', ''a''] = Some (Started r)"
    using example_started by blast
  have pton: "inet_pton_sizes (de_pton example_env)" using letter_sizes by (simp add: example_env_def)
  have fit: "reads_fit ?evs" by (simp add: reads_fit_def kPacketMtu_def example_packet_def)
  have up: "multi_sink_ok ?s" "ms_sent ?s = []" "ms_sinks ?s \<noteq> []" "\<forall>c \<in> set (ms_sinks ?s). client_up c"
    by (simp_all add: multi_sink_ok_def multi_sink_init_def example_up_def client_init_def ledger_init_ok client_up_def)
  have "rn_config r = example_config"
    by (rule daemon_setup_started [OF r])
      (use example_load [of "''a''"] in \<open>auto simp: example_env_def main_args_def arg_loop.simps\<close>)
  moreover have "filter (routed (routed_cidrs example_config)) (packets_read ?evs) = [example_packet]" by code_simp
  ultimately show ?thesis
    using daemon_sends_exactly_routed [OF r pton fit up(1-3)] up(4) r by auto
qed

text \<open>
  C2: what enters through the tunnel: of any datagrams a connection receives, the TUN device is written exactly
  the payloads of those that carry an IP packet (at least a header, version 3, type 1), unchanged and in order;
  all others are ignored.
\<close>

theorem daemon_writes_exactly_received:
  assumes "has_handler c"
  shows "daemon_inbound True ds c written = written @ List.map_filter datagram_packet ds"
  using assms by (rule inbound_all)

lemma daemon_writes_exactly_received_witness:
  "daemon_inbound True [[3, 1, 0, 0, 0x45, 7], [3, 2, 0, 0, 9], [3, 1]] (set_handler True (client_init quic_config_init)) [] =
     [[0x45, 7]]"
proof -
  have "has_handler (set_handler True (client_init quic_config_init))" by (simp add: set_handler_def)
  from daemon_writes_exactly_received [OF this] show ?thesis
    by (simp add: map_filter_simps datagram_packet_def del: daemon_inbound.simps)
qed

end
